(* ===== verification/Dlep_Prelude.thy ===== *)
theory Dlep_Prelude
  imports Main "HOL-Library.Word" "HOL-Library.List_Lexorder" "HOL-Library.Char_ord"
begin

text \<open>
  Shared vocabulary of the development: the fixed-width integers and byte buffers of the
  C++ sources, C++ exceptions as values of a sum type, \<open>std::to_string\<close> on integers, the
  conversions between \<open>char\<close> and \<open>std::uint8_t\<close>, and \<open>std::map\<close> as an
  association list in key order, behind a locale that states what a client may rely on.
  Two collections carry the component proofs: \<open>res_simps\<close> (the error monad) and
  \<open>smap_simps\<close> (ordered maps).
\<close>

named_theorems res_simps "rewriting of computations that may throw"
named_theorems smap_simps "rewriting of std::map operations"

section \<open>Integers, bytes and characters\<close>

type_synonym u8 = "8 word"
type_synonym u16 = "16 word"
type_synonym u32 = "32 word"
type_synonym u64 = "64 word"
type_synonym bytes = "u8 list"

definition byte_of_char :: "char \<Rightarrow> u8" where
  "byte_of_char c = of_nat (of_char c)"

definition char_of_byte :: "u8 \<Rightarrow> char" where
  "char_of_byte b = char_of (unat b)"

lemma char_of_byte_of_char [simp]: "char_of_byte (byte_of_char c) = c"
proof -
  have "unat (of_nat (of_char c) :: u8) = of_char c mod 256"
    by (simp only: unat_of_nat) simp
  then have "unat (of_nat (of_char c) :: u8) = of_char c"
    by (simp only: of_char_mod_256)
  then show ?thesis by (simp add: char_of_byte_def byte_of_char_def)
qed

lemma byte_of_char_of_byte [simp]: "byte_of_char (char_of_byte b) = b"
proof -
  have "unat b < 2 ^ LENGTH(8)" by (rule unsigned_less)
  then have "(of_char (char_of (unat b) :: char) :: nat) = unat b"
    by (simp add: of_char_of)
  then show ?thesis by (simp add: char_of_byte_def byte_of_char_def)
qed

lemma char_byte_comp [simp]: "char_of_byte \<circ> byte_of_char = id"
  by (simp add: fun_eq_iff)

lemma byte_char_comp [simp]: "byte_of_char \<circ> char_of_byte = id"
  by (simp add: fun_eq_iff)

section \<open>Decimal output: std::to_string\<close>

definition digit_char :: "nat \<Rightarrow> char" where
  "digit_char d = char_of (48 + d)"

fun to_string_nat :: "nat \<Rightarrow> string" where
  "to_string_nat n =
     (if n < 10 then [digit_char n]
      else to_string_nat (n div 10) @ [digit_char (n mod 10)])"

declare to_string_nat.simps [simp del]

definition to_string_word :: "'a::len word \<Rightarrow> string" where
  "to_string_word w = to_string_nat (unat w)"

lemma to_string_nat_nonempty [simp]: "to_string_nat n \<noteq> []"
  by (subst to_string_nat.simps) simp

lemma to_string_word_nonempty [simp]: "to_string_word w \<noteq> []"
  by (simp add: to_string_word_def)

text \<open>\<open>isspace\<close> in the C locale\<close>

definition is_space :: "char \<Rightarrow> bool" where
  "is_space c = (c \<in> {CHR '' '', CHR 0x09, CHR 0x0A, CHR 0x0B, CHR 0x0C, CHR 0x0D})"

section \<open>Exceptions\<close>

text \<open>
  Every \<open>throw\<close> of the sources is a value of this type, with the text \<open>what()\<close>
  returns; \<open>System_Error\<close> is what a socket operation throws. \<open>Assertion_Failed\<close> is a failed
  \<open>assert\<close> (the build does not define \<open>NDEBUG\<close>), \<open>Undefined\<close> an operation whose behaviour
  C++ leaves undefined and \<open>Hang\<close> a loop that repeats without progress for ever: these
  three are no C++ exceptions, and no handler of the sources catches them.
\<close>

datatype exn =
    Invalid_Argument string
  | Logic_Error string
  | Length_Error string
  | Out_Of_Range string
  | BadModuleName string
  | BadSignalId string
  | BadSignalName string
  | BadDataItemId string
  | BadDataItemName string
  | BadStatusCodeId string
  | BadStatusCodeName string
  | BadProtocolConfig string
  | BadParameterName string
  | DataItemWrongType string
  | DataItemNotPresent string
  | SignalIdNotInitialized string
  | System_Error string
  | Assertion_Failed string
  | Undefined string
  | Hang

fun what :: "exn \<Rightarrow> string" where
  "what (Invalid_Argument s) = s"
| "what (Logic_Error s) = s"
| "what (Length_Error s) = s"
| "what (Out_Of_Range s) = s"
| "what (BadModuleName s) = s"
| "what (BadSignalId s) = s"
| "what (BadSignalName s) = s"
| "what (BadDataItemId s) = s"
| "what (BadDataItemName s) = s"
| "what (BadStatusCodeId s) = s"
| "what (BadStatusCodeName s) = s"
| "what (BadProtocolConfig s) = s"
| "what (BadParameterName s) = s"
| "what (DataItemWrongType s) = s"
| "what (DataItemNotPresent s) = s"
| "what (SignalIdNotInitialized s) = s"
| "what (System_Error s) = s"
| "what (Assertion_Failed s) = s"
| "what (Undefined s) = s"
| "what Hang = ''''"

fun is_std_exception :: "exn \<Rightarrow> bool" where
  "is_std_exception (Assertion_Failed s) = False"
| "is_std_exception (Undefined s) = False"
| "is_std_exception Hang = False"
| "is_std_exception _ = True"

fun is_DataItemNotPresent :: "exn \<Rightarrow> bool" where
  "is_DataItemNotPresent (DataItemNotPresent s) = True"
| "is_DataItemNotPresent _ = False"

fun is_BadDataItemName :: "exn \<Rightarrow> bool" where
  "is_BadDataItemName (BadDataItemName s) = True"
| "is_BadDataItemName _ = False"

fun is_BadParameterName :: "exn \<Rightarrow> bool" where
  "is_BadParameterName (BadParameterName s) = True"
| "is_BadParameterName _ = False"

type_synonym 'a res = "exn + 'a"

definition rbind :: "'a res \<Rightarrow> ('a \<Rightarrow> 'b res) \<Rightarrow> 'b res" where
  "rbind m f = (case m of Inl e \<Rightarrow> Inl e | Inr x \<Rightarrow> f x)"

lemma rbind_Inl [simp, res_simps]: "rbind (Inl e) f = Inl e"
  by (simp add: rbind_def)

lemma rbind_Inr [simp, res_simps]: "rbind (Inr x) f = f x"
  by (simp add: rbind_def)

lemma rbind_eq_Inr [res_simps]:
  "rbind m f = Inr y \<longleftrightarrow> (\<exists>x. m = Inr x \<and> f x = Inr y)"
  by (cases m) auto

lemma rbind_eq_Inl [res_simps]:
  "rbind m f = Inl e \<longleftrightarrow> m = Inl e \<or> (\<exists>x. m = Inr x \<and> f x = Inl e)"
  by (cases m) auto

lemma rbind_cong [fundef_cong]:
  "m = n \<Longrightarrow> (\<And>x. n = Inr x \<Longrightarrow> f x = g x) \<Longrightarrow> rbind m f = rbind n g"
  by (cases n) auto

lemma rbind_assoc: "rbind (rbind m f) g = rbind m (\<lambda>x. rbind (f x) g)"
  by (cases m) auto

text \<open>\<open>try { m } catch (E) { d }\<close>, where \<open>P\<close> says which exceptions E names.\<close>

definition try_catch :: "'a res \<Rightarrow> (exn \<Rightarrow> bool) \<Rightarrow> 'a res \<Rightarrow> 'a res" where
  "try_catch m P d = (case m of Inl e \<Rightarrow> if P e then d else Inl e | Inr x \<Rightarrow> Inr x)"

lemma try_catch_Inr [simp]: "try_catch (Inr x) P d = Inr x"
  by (simp add: try_catch_def)

lemma try_catch_Inl [simp]: "try_catch (Inl e) P d = (if P e then d else Inl e)"
  by (simp add: try_catch_def)

definition assert_that :: "bool \<Rightarrow> string \<Rightarrow> unit res" where
  "assert_that b s = (if b then Inr () else Inl (Assertion_Failed s))"

lemma assert_that_True [simp]: "assert_that True s = Inr ()"
  by (simp add: assert_that_def)

lemma assert_that_eq_Inr [simp]: "assert_that b s = Inr u \<longleftrightarrow> b"
  by (simp add: assert_that_def)

section \<open>std::map as an association list in key order\<close>

type_synonym ('k, 'v) smap = "('k \<times> 'v) list"

text \<open>\<open>m[k] = v\<close>\<close>

fun smap_insert :: "'k::linorder \<Rightarrow> 'v \<Rightarrow> ('k, 'v) smap \<Rightarrow> ('k, 'v) smap" where
  "smap_insert k v [] = [(k, v)]"
| "smap_insert k v ((k', v') # m) =
     (if k < k' then (k, v) # (k', v') # m
      else if k = k' then (k, v) # m
      else (k', v') # smap_insert k v m)"

text \<open>\<open>m.erase(k)\<close>\<close>

fun smap_erase :: "'k::linorder \<Rightarrow> ('k, 'v) smap \<Rightarrow> ('k, 'v) smap" where
  "smap_erase k [] = []"
| "smap_erase k ((k', v') # m) = (if k = k' then m else (k', v') # smap_erase k m)"

text \<open>\<open>m.find(k)\<close>: \<open>None\<close> is \<open>m.end()\<close>.\<close>

fun smap_find :: "('k, 'v) smap \<Rightarrow> 'k \<Rightarrow> 'v option" where
  "smap_find [] k = None"
| "smap_find ((k', v') # m) k = (if k = k' then Some v' else smap_find m k)"

definition smap_ok :: "('k::linorder, 'v) smap \<Rightarrow> bool" where
  "smap_ok m = sorted_wrt (<) (map fst m)"

text \<open>
  What the components rely on of \<open>std::map\<close>: lookup after update and after erase, and
  that a traversal visits each key once, in ascending order.
\<close>

locale std_map =
  fixes find :: "'m \<Rightarrow> 'k::linorder \<Rightarrow> 'v option"
    and insert :: "'k \<Rightarrow> 'v \<Rightarrow> 'm \<Rightarrow> 'm"
    and erase :: "'k \<Rightarrow> 'm \<Rightarrow> 'm"
    and traverse :: "'m \<Rightarrow> ('k \<times> 'v) list"
    and ok :: "'m \<Rightarrow> bool"
  assumes find_insert: "ok m \<Longrightarrow> find (insert k v m) = (find m)(k \<mapsto> v)"
    and find_erase: "ok m \<Longrightarrow> find (erase k m) = (find m)(k := None)"
    and traverse_find: "ok m \<Longrightarrow> (k, v) \<in> set (traverse m) \<longleftrightarrow> find m k = Some v"
    and traverse_sorted: "ok m \<Longrightarrow> sorted_wrt (<) (map fst (traverse m))"
    and ok_insert: "ok m \<Longrightarrow> ok (insert k v m)"
    and ok_erase: "ok m \<Longrightarrow> ok (erase k m)"
begin

lemma insert_other: "ok m \<Longrightarrow> k' \<noteq> k \<Longrightarrow> find (insert k v m) k' = find m k'"
  by (simp add: find_insert)

lemma erase_insert_find: "ok m \<Longrightarrow> find (erase k (insert k v m)) = (find m)(k := None)"
  by (simp add: find_erase find_insert ok_insert)

lemma keys_traverse: "ok m \<Longrightarrow> set (map fst (traverse m)) = dom (find m)"
  by (auto simp: dom_def traverse_find image_iff) (metis fst_conv traverse_find)

lemma traverse_distinct: "ok m \<Longrightarrow> distinct (map fst (traverse m))"
  using traverse_sorted by (simp add: strict_sorted_iff)

lemma same_find_same_traverse:
  assumes "ok m" and "ok m'" and "find m = find m'"
  shows "traverse m = traverse m'"
proof (rule map_sorted_distinct_set_unique [where f = fst])
  show same: "set (traverse m) = set (traverse m')"
    using assms by (auto simp: traverse_find)
  show "inj_on fst (set (traverse m) \<union> set (traverse m'))"
    unfolding same using assms(2) by (auto simp: inj_on_def traverse_find)
qed (use assms traverse_sorted in \<open>auto simp: strict_sorted_iff\<close>)

end

lemma smap_find_insert [smap_simps]: "smap_find (smap_insert k v m) = (smap_find m)(k \<mapsto> v)"
  by (induction m) auto

lemma smap_keys_insert: "set (map fst (smap_insert k v m)) = insert k (set (map fst m))"
  by (induction k v m rule: smap_insert.induct) auto

lemma smap_keys_erase: "set (map fst (smap_erase k m)) \<subseteq> set (map fst m)"
  by (induction k m rule: smap_erase.induct) auto

lemma set_smap_insert: "set (smap_insert k v m) \<subseteq> insert (k, v) (set m)"
  by (induction k v m rule: smap_insert.induct) auto

lemma set_smap_erase: "set (smap_erase k m) \<subseteq> set m"
  by (induction k m rule: smap_erase.induct) auto

lemma smap_ok_Nil [simp]: "smap_ok []"
  by (simp add: smap_ok_def)

lemma smap_ok_Cons: "smap_ok ((k, v) # m) \<longleftrightarrow> (\<forall>k'\<in>set (map fst m). k < k') \<and> smap_ok m"
  by (auto simp: smap_ok_def)

lemma smap_ok_insert [simp]: "smap_ok m \<Longrightarrow> smap_ok (smap_insert k v m)"
proof (induction m)
  case (Cons kv m)
  then show ?case
    by (cases kv) (auto simp: smap_ok_Cons smap_keys_insert simp del: set_map)
qed (simp add: smap_ok_Cons)

lemma smap_ok_erase [simp]: "smap_ok m \<Longrightarrow> smap_ok (smap_erase k m)"
proof (induction m)
  case (Cons kv m)
  then show ?case
    using smap_keys_erase[of k m] by (cases kv) (auto simp: smap_ok_Cons simp del: set_map)
qed simp

lemma smap_find_None: "smap_find m k = None \<longleftrightarrow> k \<notin> set (map fst m)"
  by (induction m k rule: smap_find.induct) auto

lemma smap_find_erase [smap_simps]:
  "smap_ok m \<Longrightarrow> smap_find (smap_erase k m) = (smap_find m)(k := None)"
proof (induction m)
  case (Cons kv m)
  obtain k' v' where kv: "kv = (k', v')" by (cases kv)
  have "smap_find m k' = None"
    using Cons.prems by (auto simp: kv smap_find_None smap_ok_Cons simp del: set_map)
  then show ?case
    using Cons by (auto simp: kv smap_ok_Cons fun_eq_iff)
qed auto

lemma smap_find_set: "smap_ok m \<Longrightarrow> (k, v) \<in> set m \<longleftrightarrow> smap_find m k = Some v"
proof (induction m)
  case (Cons kv m)
  obtain k' v' where kv: "kv = (k', v')" by (cases kv)
  have "k' \<notin> fst ` set m"
    using Cons.prems by (auto simp: kv smap_ok_Cons)
  then show ?case
    using Cons by (force simp: kv smap_ok_Cons)
qed simp

interpretation smap: std_map smap_find smap_insert smap_erase "\<lambda>m. m" smap_ok
  by unfold_locales (simp_all add: smap_find_insert smap_find_erase smap_find_set smap_ok_def[symmetric])

lemma smap_erase_absent: "smap_find m k = None \<Longrightarrow> smap_erase k m = m"
  by (induction m) (auto split: if_splits)

lemma smap_ok_eqI: "smap_ok m \<Longrightarrow> smap_ok m' \<Longrightarrow> smap_find m = smap_find m' \<Longrightarrow> m = m'"
  by (rule smap.same_find_same_traverse)

lemma smap_insert_insert [simp]: "smap_insert k v (smap_insert k w m) = smap_insert k v m"
  by (induction m) auto

text \<open>Updating the value stored under a key through a reference to it.\<close>

fun smap_modify :: "'k \<Rightarrow> ('v \<Rightarrow> 'v) \<Rightarrow> ('k, 'v) smap \<Rightarrow> ('k, 'v) smap" where
  "smap_modify k f [] = []"
| "smap_modify k f ((k', v') # m) =
     (if k = k' then (k', f v') # m else (k', v') # smap_modify k f m)"

lemma smap_keys_modify [simp]: "map fst (smap_modify k f m) = map fst m"
  by (induction m) auto

lemma smap_ok_modify [simp]: "smap_ok (smap_modify k f m) = smap_ok m"
  by (simp add: smap_ok_def)

lemma smap_find_modify [smap_simps]:
  "smap_find (smap_modify k f m) = (smap_find m)(k := map_option f (smap_find m k))"
  by (induction m) auto

lemma smap_find_map_snd:
  "smap_find (map (\<lambda>(k, v). (k, f v)) m) k = map_option f (smap_find m k)"
  by (induction m) auto

end
