(* ===== verification/Serialize.thy ===== *)
theory Serialize
  imports Dlep_Prelude
begin

text \<open>
  \<open>src/Serialize.h\<close>: integers in network byte order in fields of a configured size. The
  template parameter \<open>T\<close> is the word type of the value, an iterator pair \<open>[it, it_end)\<close>
  is the list of the bytes still to be read, and the output buffer is passed and returned.
  The reference semantics is \<open>be_value\<close>, the number a byte string denotes; the lemmas
  relate both directions to it, and the \<open>wire_codec\<close> locale packages the round trip for
  the components that read and write sequences of values.
\<close>

unbundle bit_operations_syntax

section \<open>Definitions\<close>

definition sizeof :: "'a::len word itself \<Rightarrow> nat" where
  "sizeof _ = LENGTH('a) div 8"

text \<open>The bytes both \<open>serialize\<close> loops emit for the counter values \<open>i, \<dots>, 1\<close>.\<close>

fun serialize_loop :: "'a::len word \<Rightarrow> nat \<Rightarrow> bytes" where
  "serialize_loop val 0 = []"
| "serialize_loop val (Suc i) =
     (if Suc i \<le> sizeof TYPE('a word) then ucast (drop_bit (i * 8) val AND 0xff) else 0)
     # serialize_loop val i"

text \<open>\<open>*it++ = onebyte\<close> until the bytes run out or the end of the buffer is reached.\<close>

fun overwrite_loop :: "bytes \<Rightarrow> nat \<Rightarrow> bytes \<Rightarrow> bytes res" where
  "overwrite_loop buf it [] = Inr buf"
| "overwrite_loop buf it (b # bs) =
     (if it = length buf then Inl (Length_Error ''reached end of output buffer'')
      else overwrite_loop (buf[it := b]) (Suc it) bs)"

definition serialize_mask :: "nat \<Rightarrow> 'a::len word" where
  "serialize_mask field_size = push_bit (field_size * 8) (NOT 0)"

definition serialize_at :: "'a::len word \<Rightarrow> nat \<Rightarrow> bytes \<Rightarrow> nat \<Rightarrow> bytes res" where
  "serialize_at val field_size buf it =
     (if sizeof TYPE('a word) > field_size \<and> val AND serialize_mask field_size \<noteq> 0
      then Inl (Invalid_Argument (to_string_word val @ '' cannot fit in '' @
             to_string_nat field_size @ '' bytes'' @ '' mask '' @
             to_string_word (serialize_mask field_size :: 'a word)))
      else if it = length buf then Inr (buf @ serialize_loop val field_size)
      else overwrite_loop buf it (serialize_loop val field_size))"

definition serialize_field :: "'a::len word \<Rightarrow> nat \<Rightarrow> bytes \<Rightarrow> bytes res" where
  "serialize_field val field_size buf = serialize_at val field_size buf (length buf)"

text \<open>\<open>serialize(value, buf)\<close>: always \<open>sizeof(T)\<close> bytes.\<close>

definition serialize :: "'a::len word \<Rightarrow> bytes \<Rightarrow> bytes" where
  "serialize val buf = buf @ serialize_loop val (sizeof TYPE('a word))"

definition deserialize_u8 :: "bytes \<Rightarrow> (u8 \<times> bytes) res" where
  "deserialize_u8 it =
     (case it of [] \<Rightarrow> Inl (Length_Error ''reached end of input buffer'')
      | b # it' \<Rightarrow> Inr (b, it'))"

fun deserialize_loop :: "nat \<Rightarrow> 'a::len word \<Rightarrow> bytes \<Rightarrow> nat \<times> 'a word \<times> bytes" where
  "deserialize_loop 0 value it = (0, value, it)"
| "deserialize_loop (Suc i) value [] = (Suc i, value, [])"
| "deserialize_loop (Suc i) value (b # it) =
     deserialize_loop i (push_bit 8 value OR ucast b) it"

definition deserialize :: "bytes \<Rightarrow> ('a::len word \<times> bytes) res" where
  "deserialize it =
     (case deserialize_loop (sizeof TYPE('a word)) 0 it of
        (i, value, it') \<Rightarrow>
          if i > 0 then Inl (Length_Error ''reached end of input buffer'')
          else Inr (value, it'))"

definition deserialize_field :: "nat \<Rightarrow> bytes \<Rightarrow> ('a::len word \<times> bytes) res" where
  "deserialize_field field_size it =
     (case deserialize_loop field_size (0 :: u64) it of
        (i, val64, it') \<Rightarrow>
          if i > 0 then Inl (Length_Error ''reached end of input buffer'')
          else if val64 AND ucast (NOT 0 :: 'a word) \<noteq> val64
          then Inl (Invalid_Argument (to_string_word val64 @ '' cannot fit in '' @
                 to_string_nat (sizeof TYPE('a word)) @ '' bytes''))
          else Inr (ucast val64, it'))"

text \<open>
  \<open>while (it < di_end) { read one value; push_back }\<close>. An iteration that consumes nothing
  repeats for ever.
\<close>

function read_all :: "(bytes \<Rightarrow> ('v \<times> bytes) res) \<Rightarrow> bytes \<Rightarrow> 'v list res" where
  "read_all dec it =
     (if it = [] then Inr []
      else case dec it of
        Inl e \<Rightarrow> Inl e
      | Inr (v, it') \<Rightarrow>
          if length it' < length it
          then rbind (read_all dec it') (\<lambda>vs. Inr (v # vs))
          else Inl Hang)"
  by pat_completeness auto
termination
  by (relation "measure (\<lambda>(dec, it). length it)") auto

declare read_all.simps [simp del]

section \<open>The number a byte string denotes\<close>

fun be_value :: "bytes \<Rightarrow> nat" where
  "be_value [] = 0"
| "be_value (b # bs) = unat b * 256 ^ length bs + be_value bs"

lemma unat_u8_less [simp]: "unat (b :: u8) < 256"
proof -
  have "unat b < 2 ^ LENGTH(8)" by (rule unsigned_less)
  then show ?thesis by simp
qed

lemma be_value_less: "be_value bs < 256 ^ length bs"
proof (induction bs)
  case (Cons b bs)
  have "unat b * 256 ^ length bs + be_value bs < (unat b + 1) * 256 ^ length bs"
    using Cons.IH by simp
  also have "\<dots> \<le> 256 * 256 ^ length bs"
    by (intro mult_right_mono) (use unat_u8_less[of b] in linarith)+
  finally show ?case by simp
qed simp

lemma length_serialize_loop [simp]: "length (serialize_loop v n) = n"
  by (induction n) auto

lemma pow256: "(256::nat) ^ n = 2 ^ (n * 8)"
proof -
  have "(2::nat) ^ (n * 8) = (2 ^ 8) ^ n" by (metis mult.commute power_mult)
  then show ?thesis by simp
qed

lemma unat_serialize_byte:
  "unat (ucast (drop_bit (i * 8) (v :: 'a::len word) AND 0xff) :: u8) = unat v div 256 ^ i mod 256"
proof -
  have mask: "(0xff :: 'a word) = mask 8" by (simp add: mask_numeral)
  have "unat (ucast (take_bit 8 (drop_bit (i * 8) v)) :: u8) = take_bit 8 (unat (take_bit 8 (drop_bit (i * 8) v)))"
    by (simp only: unsigned_ucast_eq) simp
  also have "\<dots> = take_bit 8 (drop_bit (i * 8) (unat v))"
    by (simp add: unsigned_take_bit_eq unat_drop_bit_eq)
  also have "\<dots> = unat v div 256 ^ i mod 256"
    by (simp add: take_bit_eq_mod drop_bit_eq_div pow256)
  finally show ?thesis by (simp only: mask take_bit_eq_mask)
qed

lemma be_value_serialize_loop:
  assumes "8 dvd LENGTH('a)"
  shows "be_value (serialize_loop (v :: 'a::len word) n) = unat v mod 256 ^ n"
proof (induction n)
  case (Suc n)
  have step: "unat v mod 256 ^ Suc n = (unat v div 256 ^ n mod 256) * 256 ^ n + unat v mod 256 ^ n"
    using mod_mult2_eq[of "unat v" "256 ^ n" 256] by (simp only: power_Suc2 mult.commute)
  show ?case
  proof (cases "Suc n \<le> sizeof TYPE('a word)")
    case True
    with Suc step show ?thesis by (simp add: unat_serialize_byte)
  next
    case False
    have "unat v < 2 ^ LENGTH('a)" by (rule unsigned_less)
    also have "(2::nat) ^ LENGTH('a) \<le> 256 ^ n"
      using False assms unfolding pow256 by (intro power_increasing) (auto simp: sizeof_def)
    finally have "unat v div 256 ^ n = 0" by simp
    with False Suc step show ?thesis by simp
  qed
qed simp

lemma shift_in_byte:
  "push_bit 8 (v :: 'a::len word) OR ucast (b :: u8) = of_nat (unat v * 256 + unat b)"
proof -
  have "push_bit 8 v + (ucast b :: 'a word) = push_bit 8 v OR ucast b"
  proof (rule disjunctive_add)
    fix n
    have "bit b n \<Longrightarrow> n < 8" using bit_imp_le_length[of b n] by simp
    then show "\<not> bit (push_bit 8 v) n \<or> \<not> bit (ucast b :: 'a word) n"
      by (auto simp: bit_push_bit_iff bit_ucast_iff)
  qed
  moreover have "push_bit 8 v = v * 256"
    by (simp add: push_bit_eq_mult)
  moreover have "(ucast b :: 'a word) = of_nat (unat b)"
    by (simp only: unsigned_of_nat of_nat_unat)
  moreover have "(of_nat (unat v * 256 + unat b) :: 'a word) = v * 256 + of_nat (unat b)"
    by (simp only: of_nat_add of_nat_mult of_nat_unat) simp
  ultimately show ?thesis by argo
qed

lemma deserialize_loop_enough:
  "n \<le> length bs \<Longrightarrow>
   deserialize_loop n (v :: 'a::len word) bs =
     (0, of_nat (unat v * 256 ^ n + be_value (take n bs)), drop n bs)"
proof (induction n v bs rule: deserialize_loop.induct)
  case (3 i v b it)
  then have len: "length (take i it) = i" by simp
  let ?w = "of_nat (unat v * 256 + unat b) :: 'a word"
  have "deserialize_loop (Suc i) v (b # it) = deserialize_loop i ?w it"
    by (simp only: deserialize_loop.simps shift_in_byte)
  also have "\<dots> = (0, of_nat (unat ?w * 256 ^ i + be_value (take i it)), drop i it)"
    using 3 by (simp only: shift_in_byte length_Cons Suc_le_mono)
  also have "(of_nat (unat ?w * 256 ^ i + be_value (take i it)) :: 'a word)
      = ?w * of_nat (256 ^ i) + of_nat (be_value (take i it))"
    by (simp only: of_nat_add of_nat_mult) simp
  also have "\<dots> = of_nat ((unat v * 256 + unat b) * 256 ^ i + be_value (take i it))"
    by (simp only: of_nat_add of_nat_mult)
  also have "(unat v * 256 + unat b) * 256 ^ i + be_value (take i it)
      = unat v * 256 ^ Suc i + be_value (take (Suc i) (b # it))"
    using len by (simp add: add_mult_distrib)
  finally show ?case by simp
qed simp_all

lemma deserialize_loop_short:
  "length bs < n \<Longrightarrow> fst (deserialize_loop n (v :: 'a::len word) bs) > 0"
  by (induction n v bs rule: deserialize_loop.induct) auto

lemma be_value_inj: "length xs = length ys \<Longrightarrow> be_value xs = be_value ys \<Longrightarrow> xs = ys"
proof (induction xs ys rule: list_induct2)
  case (Cons x xs y ys)
  have "(unat x * 256 ^ length xs + be_value xs) div 256 ^ length xs = unat x"
    and "(unat y * 256 ^ length ys + be_value ys) div 256 ^ length ys = unat y"
    using be_value_less[of xs] be_value_less[of ys] by simp_all
  with Cons.prems Cons.hyps have "unat x = unat y" by simp
  with Cons show ?case by (simp add: unsigned_word_eqI)
qed simp

section \<open>Fitting a value into a field\<close>

lemma word_and_serialize_mask:
  "(v :: 'a::len word) AND serialize_mask n = 0 \<longleftrightarrow> unat v < 256 ^ n"
proof -
  have "v AND serialize_mask n = v AND NOT (mask (n * 8))"
    by (simp add: serialize_mask_def push_bit_minus_one)
  also have "\<dots> = 0 \<longleftrightarrow> take_bit (n * 8) v = v"
    by (auto simp: take_bit_eq_mask bit_eq_iff bit_simps)
  also have "\<dots> \<longleftrightarrow> take_bit (n * 8) (unat v) = unat v"
    by (metis unsigned_take_bit_eq unsigned_word_eqI)
  also have "\<dots> \<longleftrightarrow> unat v < 256 ^ n"
    by (simp add: take_bit_nat_eq_self_iff pow256)
  finally show ?thesis .
qed

lemma unat_less_sizeof:
  assumes "8 dvd LENGTH('a)" and "sizeof TYPE('a word) \<le> n"
  shows "unat (v :: 'a::len word) < 256 ^ n"
proof -
  have "unat v < 2 ^ LENGTH('a)" by (rule unsigned_less)
  also have "(2::nat) ^ LENGTH('a) \<le> 256 ^ n"
    using assms unfolding pow256 by (intro power_increasing) (auto simp: sizeof_def)
  finally show ?thesis .
qed

lemma serialize_field_ok:
  "unat (v :: 'a::len word) < 256 ^ n \<Longrightarrow> serialize_field v n buf = Inr (buf @ serialize_loop v n)"
  using word_and_serialize_mask[of v n] by (simp add: serialize_field_def serialize_at_def)

lemma serialize_field_error:
  assumes "8 dvd LENGTH('a)" and "\<not> unat (v :: 'a::len word) < 256 ^ n"
  shows "\<exists>s. serialize_field v n buf = Inl (Invalid_Argument s)"
  using assms word_and_serialize_mask[of v n] unat_less_sizeof[OF assms(1), of n v]
  by (cases "sizeof TYPE('a word) \<le> n") (auto simp: serialize_field_def serialize_at_def)

lemma overwrite_loop_ok:
  "it + length bs \<le> length buf \<Longrightarrow>
   overwrite_loop buf it bs = Inr (take it buf @ bs @ drop (it + length bs) buf)"
proof (induction bs arbitrary: buf it)
  case (Cons b bs)
  then have "it < length buf" by simp
  with Cons show ?case
    by (simp add: take_Suc_conv_app_nth[of it "buf[it := b]"])
qed simp

lemma serialize_at_overwrite:
  "unat (v :: 'a::len word) < 256 ^ n \<Longrightarrow> it + n \<le> length buf \<Longrightarrow> it < length buf \<Longrightarrow>
   serialize_at v n buf it = Inr (take it buf @ serialize_loop v n @ drop (it + n) buf)"
  using word_and_serialize_mask[of v n] by (simp add: serialize_at_def overwrite_loop_ok)

section \<open>Round trips\<close>

lemma u64_and_type_mask:
  "(x :: u64) AND ucast (NOT 0 :: 'a::len word) = x \<longleftrightarrow> unat x < 2 ^ LENGTH('a)"
proof -
  have "x AND ucast (NOT 0 :: 'a word) = take_bit LENGTH('a) x"
    by (auto simp: bit_eq_iff bit_simps)
  moreover have "take_bit LENGTH('a) x = x \<longleftrightarrow> take_bit LENGTH('a) (unat x) = unat x"
    by (metis unsigned_take_bit_eq unsigned_word_eqI)
  ultimately show ?thesis by (simp add: take_bit_nat_eq_self_iff)
qed

lemma deserialize_field_short:
  "length bs < n \<Longrightarrow>
   deserialize_field n bs = Inl (Length_Error ''reached end of input buffer'')"
  using deserialize_loop_short[of bs n "0 :: u64"]
  by (auto simp: deserialize_field_def split: prod.splits)

lemma deserialize_field_enough:
  assumes "n \<le> length bs" and "be_value (take n bs) < 2 ^ 64"
  shows "deserialize_field n bs =
     (if be_value (take n bs) < 2 ^ LENGTH('a)
      then Inr (of_nat (be_value (take n bs)) :: 'a::len word, drop n bs)
      else Inl (Invalid_Argument (to_string_word (of_nat (be_value (take n bs)) :: u64) @
             '' cannot fit in '' @ to_string_nat (sizeof TYPE('a word)) @ '' bytes'')))"
proof -
  have unat: "unat (of_nat (be_value (take n bs)) :: u64) = be_value (take n bs)"
    using assms(2) by (simp add: unat_of_nat)
  then have "ucast (of_nat (be_value (take n bs)) :: u64) = (of_nat (be_value (take n bs)) :: 'a word)"
    by (metis of_nat_unat)
  with unat show ?thesis
    using assms(1) u64_and_type_mask[where 'a = 'a, of "of_nat (be_value (take n bs))"]
    by (simp add: deserialize_field_def deserialize_loop_enough)
qed

lemma deserialize_field_serialize:
  assumes "8 dvd LENGTH('a)" and "LENGTH('a) \<le> 64" and "unat v < 256 ^ n"
  shows "deserialize_field n (serialize_loop (v :: 'a::len word) n @ rest) = Inr (v, rest)"
proof -
  have val: "be_value (take n (serialize_loop v n @ rest)) = unat v"
    using assms by (simp add: be_value_serialize_loop)
  have less: "unat v < 2 ^ LENGTH('a)" by (rule unsigned_less)
  also have "(2::nat) ^ LENGTH('a) \<le> 2 ^ 64"
    using assms(2) by (rule power_increasing) simp
  finally show ?thesis
    using deserialize_field_enough[where 'a = 'a, of n "serialize_loop v n @ rest"] less val
    by simp
qed

lemma deserialize_field_canonical:
  assumes "8 dvd LENGTH('a)" and "n \<le> 8" and "deserialize_field n bs = Inr (v :: 'a::len word, rest)"
  shows "bs = serialize_loop v n @ rest \<and> unat v < 256 ^ n"
proof -
  have len: "n \<le> length bs"
    using assms(3) deserialize_field_short[where 'a = 'a, of bs n] by (cases "length bs < n") auto
  have small: "be_value (take n bs) < 256 ^ n"
    using be_value_less[of "take n bs"] len by simp
  also have "(256::nat) ^ n \<le> 256 ^ 8" using assms(2) by (rule power_increasing) simp
  finally have "be_value (take n bs) < 2 ^ 64" by simp
  from deserialize_field_enough[OF len this, where 'a = 'a] assms(3)
  have v: "v = of_nat (be_value (take n bs))" and rest: "rest = drop n bs"
    and fits: "be_value (take n bs) < 2 ^ LENGTH('a)"
    by (auto split: if_splits)
  have unat: "unat v = be_value (take n bs)"
    using fits by (simp add: v unat_of_nat)
  then have "serialize_loop v n = take n bs"
    using len small by (intro be_value_inj) (simp_all add: be_value_serialize_loop[OF assms(1)])
  with rest small unat show ?thesis by simp
qed

lemma deserialize_conv:
  assumes "8 dvd LENGTH('a)" and "LENGTH('a) \<le> 64"
  shows "(deserialize bs :: ('a::len word \<times> bytes) res) = deserialize_field (sizeof TYPE('a word)) bs"
proof (cases "length bs < sizeof TYPE('a word)")
  case True
  then show ?thesis
    using deserialize_loop_short[OF True, of "0 :: 'a word"]
    by (auto simp: deserialize_def deserialize_field_short split: prod.splits)
next
  case False
  then have len: "sizeof TYPE('a word) \<le> length bs" by simp
  have "be_value (take (sizeof TYPE('a word)) bs) < 256 ^ sizeof TYPE('a word)"
    using be_value_less[of "take (sizeof TYPE('a word)) bs"] len by simp
  also have "(256::nat) ^ sizeof TYPE('a word) = 2 ^ LENGTH('a)"
    using assms(1) by (simp add: pow256 sizeof_def)
  finally have less: "be_value (take (sizeof TYPE('a word)) bs) < 2 ^ LENGTH('a)" .
  also have "(2::nat) ^ LENGTH('a) \<le> 2 ^ 64"
    using assms(2) by (rule power_increasing) simp
  finally have "be_value (take (sizeof TYPE('a word)) bs) < 2 ^ 64" .
  from deserialize_field_enough[OF len this, where 'a = 'a] less len show ?thesis
    by (simp add: deserialize_def deserialize_loop_enough)
qed

lemma deserialize_serialize:
  assumes "8 dvd LENGTH('a)" and "LENGTH('a) \<le> 64"
  shows "deserialize (serialize (v :: 'a::len word) [] @ rest) = Inr (v, rest)"
  using assms deserialize_field_serialize[OF assms unat_less_sizeof[OF assms(1) order_refl, of v]]
  by (simp add: deserialize_conv serialize_def)

section \<open>Codecs\<close>

text \<open>
  What a reader of the wire format relies on: decoding what was encoded gives the value back
  and leaves the bytes that follow untouched, and an encoding is never empty, so a loop that
  reads values until the bytes run out makes progress.
\<close>

locale wire_codec =
  fixes enc :: "'v \<Rightarrow> bytes"
    and dec :: "bytes \<Rightarrow> ('v \<times> bytes) res"
    and valid :: "'v \<Rightarrow> bool"
  assumes dec_enc: "valid v \<Longrightarrow> dec (enc v @ rest) = Inr (v, rest)"
    and enc_nonempty: "valid v \<Longrightarrow> enc v \<noteq> []"
begin

lemma dec_enc_nil: "valid v \<Longrightarrow> dec (enc v) = Inr (v, [])"
  using dec_enc[of v "[]"] by simp

lemma enc_inj: "valid v \<Longrightarrow> valid w \<Longrightarrow> enc v @ xs = enc w @ ys \<Longrightarrow> v = w \<and> xs = ys"
  using dec_enc[of v xs] dec_enc[of w ys] by (metis prod.inject sum.inject(2))

lemma read_all_enc: "list_all valid vs \<Longrightarrow> read_all dec (concat (map enc vs)) = Inr vs"
proof (induction vs)
  case Nil
  then show ?case by (simp add: read_all.simps)
next
  case (Cons v vs)
  then have "valid v" by simp
  with Cons dec_enc[OF \<open>valid v\<close>, of "concat (map enc vs)"] enc_nonempty[OF \<open>valid v\<close>]
  show ?case by (subst read_all.simps) simp
qed

end

lemma deserialize_u8_Cons [simp]: "deserialize_u8 (b # bs) = Inr (b, bs)"
  by (simp add: deserialize_u8_def)

lemma sizeof_simps [simp]:
  "sizeof TYPE(8 word) = 1" "sizeof TYPE(16 word) = 2" "sizeof TYPE(32 word) = 4"
  "sizeof TYPE(64 word) = 8"
  by (simp_all add: sizeof_def)

lemma serialize_u8: "serialize (b :: u8) buf = buf @ [b]"
proof -
  have "unat (ucast (drop_bit (0 * 8) b AND 0xff) :: u8) = unat b"
    by (simp only: unat_serialize_byte) simp
  then have "ucast (drop_bit (0 * 8) b AND 0xff) = b"
    by (rule unsigned_word_eqI)
  then show ?thesis by (simp add: serialize_def)
qed

lemma serialize_nonempty: "0 < sizeof TYPE('a word) \<Longrightarrow> serialize (v :: 'a::len word) [] \<noteq> []"
  by (metis length_serialize_loop serialize_def self_append_conv2 length_0_conv less_numeral_extra(3))

interpretation u8_codec: wire_codec "\<lambda>b. [b]" deserialize_u8 "\<lambda>_. True"
  by unfold_locales auto

interpretation u16_codec: wire_codec "\<lambda>v :: u16. serialize v []" deserialize "\<lambda>_. True"
  by unfold_locales (simp_all add: deserialize_serialize serialize_nonempty)

interpretation u32_codec: wire_codec "\<lambda>v :: u32. serialize v []" deserialize "\<lambda>_. True"
  by unfold_locales (simp_all add: deserialize_serialize serialize_nonempty)

interpretation u64_codec: wire_codec "\<lambda>v :: u64. serialize v []" deserialize "\<lambda>_. True"
  by unfold_locales (simp_all add: deserialize_serialize serialize_nonempty)

text \<open>An identifier in a field of \<open>Suc n\<close> bytes, as the protocol configuration sizes it.\<close>

interpretation id_codec: wire_codec "\<lambda>v :: u32. serialize_loop v (Suc n)" "deserialize_field (Suc n)"
    "\<lambda>v. unat v < 256 ^ Suc n" for n
  by unfold_locales (simp_all add: deserialize_field_serialize del: serialize_loop.simps power_Suc,
      simp add: serialize_loop.simps)

end
