(* ===== verification/DlepMac.thy ===== *)
theory DlepMac
  imports Serialize
begin

text \<open>
  \<open>src/DlepMac.h\<close>, \<open>src/DlepMac.cpp\<close>: variable-length MAC addresses, their order (the
  lexicographic order of the byte vectors, which makes them keys of \<open>std::map\<close> and
  elements of \<open>std::set\<close>), their text form, and the difference of two address sets. A
  \<open>std::set\<close> is the list of its elements in ascending order.
\<close>

datatype DlepMac = DlepMac (mac_addr: bytes)

definition mac_less :: "DlepMac \<Rightarrow> DlepMac \<Rightarrow> bool" where
  "mac_less mac1 mac2 = (mac_addr mac1 < mac_addr mac2)"

text \<open>\<open>operator<\<close> as the strict order of the type, so that the library's sorted lists are the
  sets and maps that \<open>std::less\<close> keeps in its order.\<close>

instantiation DlepMac :: linorder
begin

definition less_DlepMac :: "DlepMac \<Rightarrow> DlepMac \<Rightarrow> bool" where
  "less_DlepMac mac1 mac2 = mac_less mac1 mac2"

definition less_eq_DlepMac :: "DlepMac \<Rightarrow> DlepMac \<Rightarrow> bool" where
  "less_eq_DlepMac mac1 mac2 = (mac_addr mac1 \<le> mac_addr mac2)"

instance
  by standard (auto simp: less_DlepMac_def mac_less_def less_eq_DlepMac_def DlepMac.expand)

end

definition hex_char :: "nat \<Rightarrow> char" where
  "hex_char d = (if d < 10 then char_of (48 + d) else char_of (87 + d))"

definition hex_byte :: "u8 \<Rightarrow> string" where
  "hex_byte b = [hex_char (unat b div 16), hex_char (unat b mod 16)]"

text \<open>The loop of \<open>to_string\<close>: the separator is empty before the first byte.\<close>

fun mac_string_loop :: "string \<Rightarrow> bytes \<Rightarrow> string" where
  "mac_string_loop colon [] = ''''"
| "mac_string_loop colon (b # bs) = colon @ hex_byte b @ mac_string_loop '':'' bs"

definition mac_to_string :: "DlepMac \<Rightarrow> string" where
  "mac_to_string mac = mac_string_loop '''' (mac_addr mac)"

type_synonym DlepMacAddrs = "DlepMac list"

fun getDifference :: "DlepMacAddrs \<Rightarrow> DlepMacAddrs \<Rightarrow> DlepMacAddrs \<Rightarrow> DlepMacAddrs" where
  "getDifference [] B C = C"
| "getDifference (a # A) B C =
     (if list_ex (\<lambda>b. a = b) B then getDifference A B C
      else getDifference A B (insort_insert a C))"

lemma hex_char_inj: "i < 16 \<Longrightarrow> j < 16 \<Longrightarrow> hex_char i = hex_char j \<Longrightarrow> i = j"
proof -
  assume less: "i < 16" "j < 16" and eq: "hex_char i = hex_char j"
  from eq have "(of_char (hex_char i) :: nat) = of_char (hex_char j)" by simp
  with less show "i = j" by (auto simp: hex_char_def of_char_of split: if_splits)
qed

lemma hex_byte_inj: "hex_byte a = hex_byte b \<Longrightarrow> a = b"
proof -
  assume "hex_byte a = hex_byte b"
  then have "unat a div 16 = unat b div 16" and "unat a mod 16 = unat b mod 16"
    using hex_char_inj[of "unat a div 16" "unat b div 16"] hex_char_inj[of "unat a mod 16" "unat b mod 16"]
      unat_u8_less[of a] unat_u8_less[of b]
    by (auto simp: hex_byte_def less_mult_imp_div_less)
  then have "unat a = unat b" by (metis div_mult_mod_eq)
  then show "a = b" by (rule unsigned_word_eqI)
qed

lemma mac_string_loop_inj:
  "mac_string_loop c xs = mac_string_loop c ys \<Longrightarrow> xs = ys"
proof (induction xs arbitrary: c ys)
  case Nil
  then show ?case by (cases ys) (auto simp: hex_byte_def)
next
  case (Cons x xs)
  then obtain y ys' where ys: "ys = y # ys'"
    by (cases ys) (auto simp: hex_byte_def)
  with Cons.prems have "hex_byte x = hex_byte y" and "mac_string_loop '':'' xs = mac_string_loop '':'' ys'"
    by (auto simp: hex_byte_def)
  with Cons.IH ys show ?case by (auto dest: hex_byte_inj)
qed

lemma getDifference_set: "set (getDifference A B C) = (set A - set B) \<union> set C"
  by (induction A B C rule: getDifference.induct)
    (auto simp: list_ex_iff set_insort_insert)

lemma getDifference_sorted:
  "sorted C \<Longrightarrow> distinct C \<Longrightarrow> sorted (getDifference A B C) \<and> distinct (getDifference A B C)"
  by (induction A B C rule: getDifference.induct)
    (auto simp: sorted_insort_insert distinct_insort_insert)

text \<open>The printed form of a MAC address determines the address.\<close>

lemma mac_to_string_inj: "mac_to_string m = mac_to_string m' \<longleftrightarrow> m = m'"
  by (auto simp: mac_to_string_def DlepMac.expand dest: mac_string_loop_inj)

text \<open>
  \<open>getDifference\<close> adds to the result set exactly the addresses of the first set that are
  not in the second, and the result is again in ascending order without duplicates.
\<close>

lemma getDifference_correct:
  "set (getDifference A B []) = set A - set B
   \<and> sorted (getDifference A B []) \<and> distinct (getDifference A B [])"
  using getDifference_set[of A B "[]"] getDifference_sorted[of "[]" A B] by simp

end
