(* ===== verification/ProtocolConfig.thy ===== *)
theory ProtocolConfig
  imports DlepMac
begin

text \<open>
  \<open>src/ProtocolConfig.h\<close>, \<open>src/ProtocolConfigImpl.h\<close> and the retrieval half of
  \<open>src/ProtocolConfigImpl.cpp\<close>: the loaded protocol configuration as a record, one
  definition per query, and \<open>insert_id_name_mapping\<close>, through which the loader fills the
  id/name tables. A \<open>boost::bimap\<close> is the list of its (id, name) pairs; a
  \<open>std::map\<close> is an ordered association list of the prelude. \<open>config_ok\<close> is the
  well-formedness of a loaded configuration the later components rely on: the field sizes
  the XML schema admits (\<open>FieldSizeInBytes\<close>, 1 to 8), one name per id and one id per name,
  and a definition behind every name a signal or a data item refers to.
\<close>

unbundle bit_operations_syntax

section \<open>Data\<close>

datatype DataItemValueType =
    T_blank | T_u8 | T_u16 | T_u32 | T_u64 | T_v_u8 | T_v_u32 | T_a2_u16 | T_string
  | T_dlepmac | T_u8_string | T_u8_ipv4 | T_u8_ipv6 | T_u16_vu8 | T_v_extid
  | T_u8_ipv4_u16 | T_u8_ipv6_u16 | T_u8_ipv4_u8 | T_u8_ipv6_u8 | T_u8_u8 | T_u64_u64
  | T_sub_data_items | T_u16_sub_data_items

definition mapvals :: "(DataItemValueType \<times> string) list" where
  "mapvals =
    [(T_blank, ''blank''), (T_u8, ''u8''), (T_u16, ''u16''), (T_u32, ''u32''),
     (T_u64, ''u64''), (T_v_u8, ''v_u8''), (T_v_u32, ''v_u32''), (T_a2_u16, ''a2_u16''),
     (T_string, ''string''), (T_dlepmac, ''dlepmac''), (T_u8_string, ''u8_string''),
     (T_u8_ipv4, ''u8_ipv4''), (T_u8_ipv6, ''u8_ipv6''), (T_u16_vu8, ''u16_vu8''),
     (T_v_extid, ''v_extid''), (T_u8_ipv4_u16, ''u8_ipv4_u16''),
     (T_u8_ipv6_u16, ''u8_ipv6_u16''), (T_u8_ipv4_u8, ''u8_ipv4_u8''),
     (T_u8_ipv6_u8, ''u8_ipv6_u8''), (T_u8_u8, ''u8_u8''), (T_u64_u64, ''u64_u64''),
     (T_sub_data_items, ''sub_data_items''),
     (T_u16_sub_data_items, ''u16_sub_data_items'')]"

type_synonym 'i bimap = "('i \<times> string) list"

fun bimap_left :: "('i \<times> 'n) list \<Rightarrow> 'i \<Rightarrow> 'n option" where
  "bimap_left [] i = None"
| "bimap_left ((i', n) # m) i = (if i' = i then Some n else bimap_left m i)"

fun bimap_right :: "('i \<times> 'n) list \<Rightarrow> 'n \<Rightarrow> 'i option" where
  "bimap_right [] n = None"
| "bimap_right ((i, n') # m) n = (if n' = n then Some i else bimap_right m n)"

text \<open>\<open>at\<close> throws \<open>std::out_of_range\<close> when the key is absent.\<close>

definition value_type_to_string :: "DataItemValueType \<Rightarrow> string res" where
  "value_type_to_string t =
     (case bimap_left mapvals t of None \<Rightarrow> Inl (Out_Of_Range ''bimap<>: invalid key'')
      | Some s \<Rightarrow> Inr s)"

definition value_type_from_string :: "string \<Rightarrow> DataItemValueType res" where
  "value_type_from_string s =
     (case bimap_right mapvals s of None \<Rightarrow> Inl (Out_Of_Range ''bimap<>: invalid key'')
      | Some t \<Rightarrow> Inr t)"

record SubDataItem =
  sdi_name :: string
  sdi_id :: u32
  sdi_occurs :: string

record DataItemInfo =
  dii_name :: string
  dii_id :: u32
  dii_value_type :: DataItemValueType
  dii_flags :: u32
  dii_module :: string
  dii_units :: string
  dii_sub_data_items :: "SubDataItem list"

record SignalInfo =
  si_name :: string
  si_id :: u32
  si_flags :: u32
  si_data_items :: "SubDataItem list"
  si_response_id :: u32
  si_module :: string

record StatusCodeInfo =
  sc_name :: string
  sc_id :: u32
  sc_flags :: u32
  sc_module :: string
  sc_failure_mode :: string

record ModuleInfo =
  mi_name :: string
  mi_draft :: string
  mi_experiment_name :: string
  mi_extension_id :: u32
  mi_data_items :: "string list"
  mi_signals :: "u32 list"
  mi_messages :: "u32 list"
  mi_status_codes :: "u32 list"

definition IdUndefined :: u32 where
  "IdUndefined = NOT 0"

definition flag_metric :: u32 where
  "flag_metric = 1"

definition flag_message :: u32 where
  "flag_message = 1"

definition flag_modem_sends :: u32 where
  "flag_modem_sends = 2"

definition flag_router_sends :: u32 where
  "flag_router_sends = 4"

record ProtocolConfig =
  module_info_map :: "(string, ModuleInfo) smap"
  signal_map :: "u32 bimap"
  signal_info_map :: "(u32, SignalInfo) smap"
  message_map :: "u32 bimap"
  message_info_map :: "(u32, SignalInfo) smap"
  data_item_map :: "u32 bimap"
  data_item_info_map :: "(string, DataItemInfo) smap"
  status_code_map :: "u32 bimap"
  status_code_info_map :: "(u32, StatusCodeInfo) smap"
  version :: "u16 \<times> u16"
  signal_prefix :: string
  signal_length_size :: nat
  signal_id_size :: nat
  data_item_length_size :: nat
  data_item_id_size :: nat
  extension_id_size :: nat
  status_code_size :: nat

section \<open>Filling the id/name tables\<close>

definition bimap_insert :: "'i \<Rightarrow> 'n \<Rightarrow> ('i \<times> 'n) list \<Rightarrow> ('i \<times> 'n) list" where
  "bimap_insert i n m =
     (if bimap_left m i = None \<and> bimap_right m n = None then m @ [(i, n)] else m)"

definition insert_id_name_mapping ::
    "u32 bimap \<Rightarrow> u32 \<Rightarrow> string \<Rightarrow> string \<Rightarrow> u32 bimap res" where
  "insert_id_name_mapping id_name_map i name mapname =
     rbind (case bimap_left id_name_map i of
              Some old \<Rightarrow>
                if old \<noteq> name
                then Inl (BadProtocolConfig (mapname @ '' id '' @ to_string_word i @
                       '' has multiple names: '' @ old @ '', '' @ name))
                else Inr ()
            | None \<Rightarrow> Inr ()) (\<lambda>_.
     rbind (case bimap_right id_name_map name of
              Some i' \<Rightarrow>
                if i' \<noteq> i
                then Inl (BadProtocolConfig (mapname @ '' name '' @ name @
                       '' has multiple ids: '' @ to_string_word i @ '', '' @ to_string_word i'))
                else Inr ()
            | None \<Rightarrow> Inr ()) (\<lambda>_.
     Inr (bimap_insert i name id_name_map)))"

section \<open>Queries\<close>

text \<open>The id, and whether the name is a signal (as opposed to a message).\<close>

definition get_signal_id :: "ProtocolConfig \<Rightarrow> string \<Rightarrow> (u32 \<times> bool) res" where
  "get_signal_id cfg name =
     (case bimap_right (signal_map cfg) name of
        Some i \<Rightarrow> Inr (i, True)
      | None \<Rightarrow>
          (case bimap_right (message_map cfg) name of
             Some i \<Rightarrow> Inr (i, False)
           | None \<Rightarrow> Inl (BadSignalName name)))"

definition get_signal_name :: "ProtocolConfig \<Rightarrow> u32 \<Rightarrow> string res" where
  "get_signal_name cfg i =
     (case bimap_left (signal_map cfg) i of None \<Rightarrow> Inl (BadSignalId (to_string_word i))
      | Some n \<Rightarrow> Inr n)"

definition get_message_name :: "ProtocolConfig \<Rightarrow> u32 \<Rightarrow> string res" where
  "get_message_name cfg i =
     (case bimap_left (message_map cfg) i of None \<Rightarrow> Inl (BadSignalId (to_string_word i))
      | Some n \<Rightarrow> Inr n)"

text \<open>The loop over a parent's sub data items in \<open>get_data_item_id\<close>.\<close>

fun sub_id_of_name :: "SubDataItem list \<Rightarrow> string \<Rightarrow> u32 option" where
  "sub_id_of_name [] name = None"
| "sub_id_of_name (sdi # sdis) name =
     (if sdi_name sdi = name \<and> sdi_id sdi \<noteq> IdUndefined then Some (sdi_id sdi)
      else sub_id_of_name sdis name)"

definition get_data_item_id ::
    "ProtocolConfig \<Rightarrow> string \<Rightarrow> DataItemInfo option \<Rightarrow> u32 res" where
  "get_data_item_id cfg name parent_di_info =
     (case (case parent_di_info of None \<Rightarrow> None
            | Some p \<Rightarrow> sub_id_of_name (dii_sub_data_items p) name) of
        Some i \<Rightarrow> Inr i
      | None \<Rightarrow>
          (case bimap_right (data_item_map cfg) name of
             None \<Rightarrow> Inl (BadDataItemName name)
           | Some i \<Rightarrow> Inr i))"

text \<open>The loop over a parent's sub data items in \<open>get_data_item_name\<close>.\<close>

fun sub_name_of_id :: "SubDataItem list \<Rightarrow> u32 \<Rightarrow> string option" where
  "sub_name_of_id [] i = None"
| "sub_name_of_id (sdi # sdis) i =
     (if sdi_id sdi = i then Some (sdi_name sdi) else sub_name_of_id sdis i)"

definition get_data_item_name ::
    "ProtocolConfig \<Rightarrow> u32 \<Rightarrow> DataItemInfo option \<Rightarrow> string res" where
  "get_data_item_name cfg i parent_di_info =
     (case (case parent_di_info of None \<Rightarrow> None
            | Some p \<Rightarrow> sub_name_of_id (dii_sub_data_items p) i) of
        Some n \<Rightarrow> Inr n
      | None \<Rightarrow>
          (case bimap_left (data_item_map cfg) i of
             None \<Rightarrow> Inl (BadDataItemId (to_string_word i))
           | Some n \<Rightarrow> Inr n))"

definition get_status_code_id :: "ProtocolConfig \<Rightarrow> string \<Rightarrow> u32 res" where
  "get_status_code_id cfg name =
     (case bimap_right (status_code_map cfg) name of None \<Rightarrow> Inl (BadStatusCodeName name)
      | Some i \<Rightarrow> Inr i)"

definition get_status_code_name :: "ProtocolConfig \<Rightarrow> u32 \<Rightarrow> string res" where
  "get_status_code_name cfg i =
     (case bimap_left (status_code_map cfg) i of None \<Rightarrow> Inl (BadStatusCodeId (to_string_word i))
      | Some n \<Rightarrow> Inr n)"

definition get_data_item_value_type :: "ProtocolConfig \<Rightarrow> string \<Rightarrow> DataItemValueType res" where
  "get_data_item_value_type cfg name =
     (case smap_find (data_item_info_map cfg) name of None \<Rightarrow> Inl (BadDataItemName name)
      | Some info \<Rightarrow> Inr (dii_value_type info))"

text \<open>An empty list of names selects every data item.\<close>

definition get_data_item_info_list :: "ProtocolConfig \<Rightarrow> string list \<Rightarrow> DataItemInfo list" where
  "get_data_item_info_list cfg di_names =
     (if di_names = [] then map snd (data_item_info_map cfg)
      else filter (\<lambda>info. list_ex (\<lambda>n. n = dii_name info) di_names)
             (map snd (data_item_info_map cfg)))"

definition get_data_item_info_by_name :: "ProtocolConfig \<Rightarrow> string \<Rightarrow> DataItemInfo res" where
  "get_data_item_info_by_name cfg di_name =
     (case get_data_item_info_list cfg [di_name] of [] \<Rightarrow> Inl (BadDataItemName di_name)
      | info # _ \<Rightarrow> Inr info)"

definition get_data_item_info ::
    "ProtocolConfig \<Rightarrow> u32 \<Rightarrow> DataItemInfo option \<Rightarrow> DataItemInfo res" where
  "get_data_item_info cfg i parent_di_info =
     rbind (get_data_item_name cfg i parent_di_info) (get_data_item_info_by_name cfg)"

definition get_signal_info_list :: "ProtocolConfig \<Rightarrow> string list \<Rightarrow> SignalInfo list" where
  "get_signal_info_list cfg sig_names =
     (let select = (\<lambda>infos. if sig_names = [] then infos
            else filter (\<lambda>info. list_ex (\<lambda>n. n = si_name info) sig_names) infos)
      in select (map snd (signal_info_map cfg)) @ select (map snd (message_info_map cfg)))"

definition get_signal_info :: "ProtocolConfig \<Rightarrow> string \<Rightarrow> SignalInfo res" where
  "get_signal_info cfg sig_name =
     (case get_signal_info_list cfg [sig_name] of [] \<Rightarrow> Inl (BadSignalName sig_name)
      | info # _ \<Rightarrow> Inr info)"

definition get_message_response_name :: "ProtocolConfig \<Rightarrow> string \<Rightarrow> string res" where
  "get_message_response_name cfg msg_name =
     rbind (get_signal_info cfg msg_name) (\<lambda>siginfo.
       if si_response_id siginfo = 0 then Inr ''''
       else if si_flags siginfo AND flag_message \<noteq> 0
       then get_message_name cfg (si_response_id siginfo)
       else get_signal_name cfg (si_response_id siginfo))"

definition get_status_code_info_list :: "ProtocolConfig \<Rightarrow> string list \<Rightarrow> StatusCodeInfo list" where
  "get_status_code_info_list cfg sc_names =
     (if sc_names = [] then map snd (status_code_info_map cfg)
      else filter (\<lambda>info. list_ex (\<lambda>n. n = sc_name info) sc_names)
             (map snd (status_code_info_map cfg)))"

text \<open>An unknown status code throws \<open>BadSignalName\<close>, as the source does.\<close>

definition get_status_code_info :: "ProtocolConfig \<Rightarrow> string \<Rightarrow> StatusCodeInfo res" where
  "get_status_code_info cfg name =
     (case get_status_code_info_list cfg [name] of [] \<Rightarrow> Inl (BadSignalName name)
      | info # _ \<Rightarrow> Inr info)"

definition get_module_info_list :: "ProtocolConfig \<Rightarrow> string list \<Rightarrow> ModuleInfo list" where
  "get_module_info_list cfg module_names =
     (if module_names = [] then map snd (module_info_map cfg)
      else filter (\<lambda>info. list_ex (\<lambda>n. n = mi_name info) module_names)
             (map snd (module_info_map cfg)))"

definition get_module_info :: "ProtocolConfig \<Rightarrow> string \<Rightarrow> ModuleInfo res" where
  "get_module_info cfg name =
     (case get_module_info_list cfg [name] of [] \<Rightarrow> Inl (BadModuleName name)
      | info # _ \<Rightarrow> Inr info)"

definition get_extension_ids :: "ProtocolConfig \<Rightarrow> u32 list" where
  "get_extension_ids cfg =
     filter (\<lambda>x. x \<noteq> 0) (map (\<lambda>kv. mi_extension_id (snd kv)) (module_info_map cfg))"

definition get_experiment_names :: "ProtocolConfig \<Rightarrow> string list" where
  "get_experiment_names cfg =
     filter (\<lambda>s. length s \<noteq> 0) (map (\<lambda>kv. mi_experiment_name (snd kv)) (module_info_map cfg))"

definition is_metric :: "ProtocolConfig \<Rightarrow> u32 \<Rightarrow> DataItemInfo option \<Rightarrow> bool res" where
  "is_metric cfg i parent_di_info =
     (if i = IdUndefined then Inr False
      else rbind (get_data_item_info cfg i parent_di_info)
             (\<lambda>di_info. Inr (dii_flags di_info AND flag_metric \<noteq> 0)))"

definition is_ipaddr :: "ProtocolConfig \<Rightarrow> u32 \<Rightarrow> DataItemInfo option \<Rightarrow> bool res" where
  "is_ipaddr cfg i parent_di_info =
     (if i = IdUndefined then Inr False
      else rbind (get_data_item_info cfg i parent_di_info)
             (\<lambda>di_info. Inr (dii_value_type di_info \<in>
                {T_u8_ipv4, T_u8_ipv6, T_u8_ipv4_u16, T_u8_ipv6_u16, T_u8_ipv4_u8, T_u8_ipv6_u8})))"

section \<open>Well-formed configurations\<close>

definition bimap_ok :: "('i \<times> 'n) list \<Rightarrow> bool" where
  "bimap_ok m = (distinct (map fst m) \<and> distinct (map snd m))"

definition field_size_ok :: "nat \<Rightarrow> bool" where
  "field_size_ok n = (1 \<le> n \<and> n \<le> 8)"

text \<open>Every reference to a data item names a defined one and has an id.\<close>

definition refs_ok :: "ProtocolConfig \<Rightarrow> SubDataItem list \<Rightarrow> bool" where
  "refs_ok cfg = list_all (\<lambda>sdi. smap_find (data_item_info_map cfg) (sdi_name sdi) \<noteq> None
                               \<and> sdi_id sdi \<noteq> IdUndefined)"

definition signals_ok :: "u32 bimap \<Rightarrow> (u32, SignalInfo) smap \<Rightarrow> bool" where
  "signals_ok m infos =
     (list_all (\<lambda>(i, n). map_option si_name (smap_find infos i) = Some n) m
      \<and> list_all (\<lambda>(i, info). bimap_left m i = Some (si_name info)) infos)"

definition config_ok :: "ProtocolConfig \<Rightarrow> bool" where
  "config_ok cfg \<longleftrightarrow>
     field_size_ok (signal_length_size cfg) \<and> field_size_ok (signal_id_size cfg) \<and>
     field_size_ok (data_item_length_size cfg) \<and> field_size_ok (data_item_id_size cfg) \<and>
     field_size_ok (extension_id_size cfg) \<and> field_size_ok (status_code_size cfg) \<and>
     smap_ok (data_item_info_map cfg) \<and>
     list_all (\<lambda>(k, info). dii_name info = k \<and> refs_ok cfg (dii_sub_data_items info))
       (data_item_info_map cfg) \<and>
     bimap_ok (data_item_map cfg) \<and>
     list_all (\<lambda>(i, n). smap_find (data_item_info_map cfg) n \<noteq> None) (data_item_map cfg) \<and>
     bimap_ok (status_code_map cfg) \<and>
     bimap_ok (signal_map cfg) \<and> bimap_ok (message_map cfg) \<and>
     smap_ok (signal_info_map cfg) \<and> smap_ok (message_info_map cfg) \<and>
     signals_ok (signal_map cfg) (signal_info_map cfg) \<and>
     signals_ok (message_map cfg) (message_info_map cfg)"

lemma bimap_left_set: "bimap_left m i = Some n \<Longrightarrow> (i, n) \<in> set m"
  by (induction m i rule: bimap_left.induct) (auto split: if_splits)

lemma bimap_right_set: "bimap_right m n = Some i \<Longrightarrow> (i, n) \<in> set m"
  by (induction m n rule: bimap_right.induct) (auto split: if_splits)

lemma bimap_left_iff: "distinct (map fst m) \<Longrightarrow> bimap_left m i = Some n \<longleftrightarrow> (i, n) \<in> set m"
  by (induction m i rule: bimap_left.induct) (auto simp: image_iff)

lemma bimap_right_iff: "distinct (map snd m) \<Longrightarrow> bimap_right m n = Some i \<longleftrightarrow> (i, n) \<in> set m"
  by (induction m n rule: bimap_right.induct) (auto simp: image_iff)

lemma bimap_left_None: "bimap_left m i = None \<longleftrightarrow> i \<notin> fst ` set m"
  by (induction m i rule: bimap_left.induct) auto

lemma bimap_right_None: "bimap_right m n = None \<longleftrightarrow> n \<notin> snd ` set m"
  by (induction m n rule: bimap_right.induct) auto

lemma bimap_left_right: "bimap_ok m \<Longrightarrow> bimap_left m i = Some n \<longleftrightarrow> bimap_right m n = Some i"
  by (simp add: bimap_ok_def bimap_left_iff bimap_right_iff)

lemma bimap_ok_insert: "bimap_ok m \<Longrightarrow> bimap_ok (bimap_insert i n m)"
  by (auto simp: bimap_ok_def bimap_insert_def bimap_left_None bimap_right_None)

text \<open>
  A table of ids and names as the queries expose it: each direction is the inverse of the
  other wherever it answers.
\<close>

locale id_name_table =
  fixes name_of :: "'c \<Rightarrow> 'i \<Rightarrow> string res"
    and id_of :: "'c \<Rightarrow> string \<Rightarrow> 'i res"
    and ok :: "'c \<Rightarrow> bool"
  assumes name_id: "ok c \<Longrightarrow> name_of c i = Inr n \<longleftrightarrow> id_of c n = Inr i"
begin

lemma name_inj: "ok c \<Longrightarrow> name_of c i = Inr n \<Longrightarrow> name_of c j = Inr n \<Longrightarrow> i = j"
  using name_id by (metis sum.inject(2))

lemma id_inj: "ok c \<Longrightarrow> id_of c n = Inr i \<Longrightarrow> id_of c m = Inr i \<Longrightarrow> n = m"
  using name_id by (metis sum.inject(2))

end

lemma option_res_eq_Inr:
  "(case x of None \<Rightarrow> Inl e | Some y \<Rightarrow> Inr y) = Inr z \<longleftrightarrow> x = Some z"
  by (cases x) auto

interpretation data_item_table: id_name_table
    "\<lambda>cfg i. get_data_item_name cfg i None" "\<lambda>cfg n. get_data_item_id cfg n None" config_ok
  by unfold_locales
    (simp add: get_data_item_name_def get_data_item_id_def option_res_eq_Inr bimap_left_right config_ok_def)

interpretation status_code_table: id_name_table
    get_status_code_name get_status_code_id config_ok
  by unfold_locales
    (simp add: get_status_code_name_def get_status_code_id_def option_res_eq_Inr bimap_left_right config_ok_def)

lemma data_item_info_lookup:
  assumes "smap_ok m" and "list_all (\<lambda>(k, info). dii_name info = k) m"
  shows "(case filter (\<lambda>info. n = dii_name info) (map snd m) of [] \<Rightarrow> Inl e | info # _ \<Rightarrow> Inr info)
       = (case smap_find m n of None \<Rightarrow> Inl e | Some info \<Rightarrow> Inr info)"
  using assms
proof (induction m)
  case (Cons kv m)
  then show ?case by (cases kv) (auto simp: smap_ok_Cons)
qed simp

lemma get_data_item_info_by_name_find:
  "config_ok cfg \<Longrightarrow> get_data_item_info_by_name cfg n =
     (case smap_find (data_item_info_map cfg) n of None \<Rightarrow> Inl (BadDataItemName n)
      | Some info \<Rightarrow> Inr info)"
  unfolding get_data_item_info_by_name_def get_data_item_info_list_def
  by (subst data_item_info_lookup[symmetric]) (auto simp: config_ok_def list_all_iff)

lemma config_ok_info:
  assumes "config_ok cfg" and "smap_find (data_item_info_map cfg) n = Some info"
  shows "dii_name info = n \<and> refs_ok cfg (dii_sub_data_items info)"
proof -
  have "(n, info) \<in> set (data_item_info_map cfg)"
    using assms by (simp add: config_ok_def smap_find_set)
  with assms(1) show ?thesis by (auto simp: config_ok_def list_all_iff)
qed

lemma sub_name_of_id_set:
  "sub_name_of_id sdis i = Some n \<Longrightarrow> \<exists>sdi\<in>set sdis. sdi_id sdi = i \<and> sdi_name sdi = n"
  by (induction sdis i rule: sub_name_of_id.induct) (auto split: if_splits)

text \<open>A name found by id is the name of a defined data item.\<close>

definition parent_ok :: "ProtocolConfig \<Rightarrow> DataItemInfo option \<Rightarrow> bool" where
  "parent_ok cfg parent = (case parent of None \<Rightarrow> True | Some p \<Rightarrow> refs_ok cfg (dii_sub_data_items p))"

lemma get_data_item_name_defined:
  assumes "config_ok cfg" and "parent_ok cfg parent" and "get_data_item_name cfg i parent = Inr n"
  shows "smap_find (data_item_info_map cfg) n \<noteq> None"
proof (cases "case parent of None \<Rightarrow> None | Some p \<Rightarrow> sub_name_of_id (dii_sub_data_items p) i")
  case None
  with assms(3) have "bimap_left (data_item_map cfg) i = Some n"
    by (simp add: get_data_item_name_def option_res_eq_Inr)
  then have "(i, n) \<in> set (data_item_map cfg)" by (rule bimap_left_set)
  with assms(1) show ?thesis by (auto simp: config_ok_def list_all_iff)
next
  case (Some n')
  with assms(3) have "n' = n" by (simp add: get_data_item_name_def)
  with Some assms(2) show ?thesis
    by (auto split: option.splits simp: parent_ok_def refs_ok_def list_all_iff
        dest!: sub_name_of_id_set)
qed

lemma mapvals_inverse: "(t, s) \<in> set mapvals \<longleftrightarrow> value_type_from_string s = Inr t"
proof -
  have "distinct (map snd mapvals)" by code_simp
  then show ?thesis
    by (simp add: value_type_from_string_def option_res_eq_Inr bimap_right_iff)
qed

lemma mapvals_left: "(t, s) \<in> set mapvals \<longleftrightarrow> value_type_to_string t = Inr s"
proof -
  have "distinct (map fst mapvals)" by code_simp
  then show ?thesis
    by (simp add: value_type_to_string_def option_res_eq_Inr bimap_left_iff)
qed

lemma insert_mapping_Inl:
  "insert_id_name_mapping m i name mapname = Inl e \<Longrightarrow> (\<exists>s. e = BadProtocolConfig s) \<and>
     ((\<exists>old. bimap_left m i = Some old \<and> old \<noteq> name) \<or> (\<exists>i'. bimap_right m name = Some i' \<and> i' \<noteq> i))"
  by (auto simp: insert_id_name_mapping_def res_simps split: option.splits if_splits)

lemma bimap_append:
  "bimap_left m i = None \<Longrightarrow> bimap_left (m @ [(i, n)]) = (bimap_left m)(i \<mapsto> n)"
  "bimap_right m n = None \<Longrightarrow> bimap_right (m @ [(i, n)]) = (bimap_right m)(n \<mapsto> i)"
  by (induction m) (auto simp: fun_eq_iff split: if_splits)

lemma insert_mapping_Inr:
  assumes "bimap_ok m" and "insert_id_name_mapping m i name mapname = Inr m'"
  shows "bimap_ok m' \<and> bimap_left m' = (bimap_left m)(i \<mapsto> name) \<and> bimap_right m' = (bimap_right m)(name \<mapsto> i)
    \<and> set m' = insert (i, name) (set m)"
proof -
  from assms(2) have no_conflict: "bimap_left m i \<in> {None, Some name}" "bimap_right m name \<in> {None, Some i}"
    and m': "m' = bimap_insert i name m"
    by (auto simp: insert_id_name_mapping_def res_simps split: option.splits if_splits)
  show ?thesis
  proof (cases "bimap_left m i = Some name")
    case True
    then have right: "bimap_right m name = Some i" using assms(1) by (simp add: bimap_left_right)
    with True have "m' = m" by (simp add: m' bimap_insert_def)
    with True right assms(1) bimap_left_set[OF True] show ?thesis by (auto simp: fun_eq_iff)
  next
    case False
    then have "bimap_left m i = None" "bimap_right m name = None"
      using no_conflict assms(1) by (auto simp: bimap_left_right)
    with bimap_ok_insert[OF assms(1), of i name] show ?thesis
      by (simp add: m' bimap_insert_def bimap_append)
  qed
qed

section \<open>Properties\<close>

text \<open>
  Every value type has a name in the configuration files, and \<open>to_string\<close> and
  \<open>from_string\<close> on value types are inverses of each other.
\<close>

lemma value_type_strings:
  "(\<exists>s. value_type_to_string t = Inr s)
   \<and> (value_type_to_string t = Inr s \<longleftrightarrow> value_type_from_string s = Inr t)"
proof
  show "\<exists>s. value_type_to_string t = Inr s"
    by (cases t) (simp_all add: value_type_to_string_def mapvals_def)
  show "value_type_to_string t = Inr s \<longleftrightarrow> value_type_from_string s = Inr t"
    using mapvals_inverse mapvals_left by blast
qed

text \<open>
  \<open>insert_id_name_mapping\<close> keeps each id table one-to-one: it throws exactly when the id
  already has another name or the name another id; otherwise the pair can be looked up both
  ways afterwards, and every other lookup is unchanged.
\<close>

lemma insert_id_name_mapping_correct:
  assumes "bimap_ok m"
  shows "case insert_id_name_mapping m i name mapname of
           Inl e \<Rightarrow> (\<exists>s. e = BadProtocolConfig s) \<and>
             ((\<exists>old. bimap_left m i = Some old \<and> old \<noteq> name) \<or> (\<exists>i'. bimap_right m name = Some i' \<and> i' \<noteq> i))
         | Inr m' \<Rightarrow> bimap_ok m' \<and> bimap_left m' = (bimap_left m)(i \<mapsto> name)
             \<and> bimap_right m' = (bimap_right m)(name \<mapsto> i)"
  using insert_mapping_Inl insert_mapping_Inr[OF assms] by (fastforce split: sum.splits)

end
