(* ===== verification/DataItem.thy ===== *)
theory DataItem
  imports ProtocolConfig
begin

text \<open>
  \<open>src/DataItem.h\<close> and the wire-format half of \<open>src/DataItem.cpp\<close>: the 23 value types
  of a data item, its default values, serialization and deserialization. A data item value
  may contain data items, so both directions are mutually recursive. IP addresses are the
  \<open>bytes_type\<close> arrays Boost converts them to and from (an IPv6 address also carries the
  scope id, which never goes on the wire). A position in a buffer is the list of the bytes
  from it to the end of the enclosing data item.
\<close>

unbundle bit_operations_syntax

section \<open>Data\<close>

datatype address_v4 = AddressV4 (v4_bytes: bytes)

datatype address_v6 = AddressV6 (v6_bytes: bytes) (v6_scope_id: u64)

datatype DataItemValue =
    Div_blank
  | Div_u8 u8
  | Div_u16 u16
  | Div_u32 u32
  | Div_u64 u64
  | Div_v_u8 "u8 list"
  | Div_v_u32 "u32 list"
  | Div_a2_u16 u16 u16
  | Div_string string
  | Div_dlepmac DlepMac
  | Div_u8_string u8 string
  | Div_u8_ipv4 u8 address_v4
  | Div_u8_ipv6 u8 address_v6
  | Div_u16_vu8 u16 "u8 list"
  | Div_v_extid "u32 list"
  | Div_u8_ipv4_u16 u8 address_v4 u16
  | Div_u8_ipv6_u16 u8 address_v6 u16
  | Div_u8_ipv4_u8 u8 address_v4 u8
  | Div_u8_ipv6_u8 u8 address_v6 u8
  | Div_u8_u8 u8 u8
  | Div_u64_u64 u64 u64
  | Div_sub_data_items "DataItem list"
  | Div_u16_sub_data_items u16 "DataItem list"
and DataItem = DataItem (di_id: u32) (di_value: DataItemValue)

text \<open>\<open>value.which()\<close>: the position of the alternative in the variant.\<close>

fun value_type :: "DataItemValue \<Rightarrow> DataItemValueType" where
  "value_type Div_blank = T_blank"
| "value_type (Div_u8 _) = T_u8"
| "value_type (Div_u16 _) = T_u16"
| "value_type (Div_u32 _) = T_u32"
| "value_type (Div_u64 _) = T_u64"
| "value_type (Div_v_u8 _) = T_v_u8"
| "value_type (Div_v_u32 _) = T_v_u32"
| "value_type (Div_a2_u16 _ _) = T_a2_u16"
| "value_type (Div_string _) = T_string"
| "value_type (Div_dlepmac _) = T_dlepmac"
| "value_type (Div_u8_string _ _) = T_u8_string"
| "value_type (Div_u8_ipv4 _ _) = T_u8_ipv4"
| "value_type (Div_u8_ipv6 _ _) = T_u8_ipv6"
| "value_type (Div_u16_vu8 _ _) = T_u16_vu8"
| "value_type (Div_v_extid _) = T_v_extid"
| "value_type (Div_u8_ipv4_u16 _ _ _) = T_u8_ipv4_u16"
| "value_type (Div_u8_ipv6_u16 _ _ _) = T_u8_ipv6_u16"
| "value_type (Div_u8_ipv4_u8 _ _ _) = T_u8_ipv4_u8"
| "value_type (Div_u8_ipv6_u8 _ _ _) = T_u8_ipv6_u8"
| "value_type (Div_u8_u8 _ _) = T_u8_u8"
| "value_type (Div_u64_u64 _ _) = T_u64_u64"
| "value_type (Div_sub_data_items _) = T_sub_data_items"
| "value_type (Div_u16_sub_data_items _ _) = T_u16_sub_data_items"

definition get_type :: "DataItem \<Rightarrow> DataItemValueType" where
  "get_type di = value_type (di_value di)"

definition default_v4 :: address_v4 where
  "default_v4 = AddressV4 (replicate 4 0)"

definition default_v6 :: address_v6 where
  "default_v6 = AddressV6 (replicate 16 0) 0"

fun set_default_value :: "DataItemValueType \<Rightarrow> DataItemValue" where
  "set_default_value T_blank = Div_blank"
| "set_default_value T_u8 = Div_u8 0"
| "set_default_value T_u16 = Div_u16 0"
| "set_default_value T_u32 = Div_u32 0"
| "set_default_value T_u64 = Div_u64 0"
| "set_default_value T_v_u8 = Div_v_u8 []"
| "set_default_value T_v_u32 = Div_v_u32 []"
| "set_default_value T_a2_u16 = Div_a2_u16 0 0"
| "set_default_value T_string = Div_string ''''"
| "set_default_value T_dlepmac = Div_dlepmac (DlepMac [])"
| "set_default_value T_u8_string = Div_u8_string 0 ''''"
| "set_default_value T_u8_ipv4 = Div_u8_ipv4 0 default_v4"
| "set_default_value T_u8_ipv6 = Div_u8_ipv6 0 default_v6"
| "set_default_value T_u16_vu8 = Div_u16_vu8 0 []"
| "set_default_value T_v_extid = Div_v_extid []"
| "set_default_value T_u8_ipv4_u16 = Div_u8_ipv4_u16 0 default_v4 0"
| "set_default_value T_u8_ipv6_u16 = Div_u8_ipv6_u16 0 default_v6 0"
| "set_default_value T_u8_ipv4_u8 = Div_u8_ipv4_u8 0 default_v4 0"
| "set_default_value T_u8_ipv6_u8 = Div_u8_ipv6_u8 0 default_v6 0"
| "set_default_value T_u8_u8 = Div_u8_u8 0 0"
| "set_default_value T_u64_u64 = Div_u64_u64 0 0"
| "set_default_value T_sub_data_items = Div_sub_data_items []"
| "set_default_value T_u16_sub_data_items = Div_u16_sub_data_items 0 []"

text \<open>The two constructors that look the id up by name.\<close>

definition make_DataItem ::
    "ProtocolConfig \<Rightarrow> string \<Rightarrow> DataItemValue \<Rightarrow> DataItemInfo option \<Rightarrow> DataItem res" where
  "make_DataItem cfg di_name di_val parent_di_info =
     rbind (get_data_item_id cfg di_name parent_di_info) (\<lambda>i. Inr (DataItem i di_val))"

definition make_default_DataItem ::
    "ProtocolConfig \<Rightarrow> string \<Rightarrow> DataItemInfo option \<Rightarrow> DataItem res" where
  "make_default_DataItem cfg di_name parent_di_info =
     rbind (get_data_item_id cfg di_name parent_di_info) (\<lambda>i.
     rbind (get_data_item_value_type cfg di_name) (\<lambda>t.
     Inr (DataItem i (set_default_value t))))"

section \<open>Serialization\<close>

text \<open>The visitor's loop over a vector or an array of integers.\<close>

fun serialize_vector :: "'a::len word list \<Rightarrow> bytes \<Rightarrow> bytes" where
  "serialize_vector [] buf = buf"
| "serialize_vector (x # xs) buf = serialize_vector xs (serialize x buf)"

fun serialize_extids :: "nat \<Rightarrow> u32 list \<Rightarrow> bytes \<Rightarrow> bytes res" where
  "serialize_extids n [] buf = Inr buf"
| "serialize_extids n (x # xs) buf =
     rbind (serialize_field x n buf) (serialize_extids n xs)"

fun serialize_value :: "ProtocolConfig \<Rightarrow> DataItemValue \<Rightarrow> bytes res"
  and serialize_item :: "ProtocolConfig \<Rightarrow> DataItem \<Rightarrow> bytes res"
  and serialize_sub_data_items :: "ProtocolConfig \<Rightarrow> DataItem list \<Rightarrow> bytes \<Rightarrow> bytes res"
where
  "serialize_value cfg Div_blank = Inr []"
| "serialize_value cfg (Div_u8 x) = Inr (serialize x [])"
| "serialize_value cfg (Div_u16 x) = Inr (serialize x [])"
| "serialize_value cfg (Div_u32 x) = Inr (serialize x [])"
| "serialize_value cfg (Div_u64 x) = Inr (serialize x [])"
| "serialize_value cfg (Div_v_u8 xs) = Inr (serialize_vector xs [])"
| "serialize_value cfg (Div_v_u32 xs) = Inr (serialize_vector xs [])"
| "serialize_value cfg (Div_a2_u16 x y) = Inr (serialize_vector [x, y] [])"
| "serialize_value cfg (Div_string s) = Inr (map byte_of_char s)"
| "serialize_value cfg (Div_dlepmac mac) = Inr (mac_addr mac)"
| "serialize_value cfg (Div_u8_string x s) = Inr (serialize x [] @ map byte_of_char s)"
| "serialize_value cfg (Div_u8_ipv4 x a) = Inr ([x] @ v4_bytes a)"
| "serialize_value cfg (Div_u8_ipv6 x a) = Inr ([x] @ v6_bytes a)"
| "serialize_value cfg (Div_u16_vu8 x xs) =
     rbind (serialize_field (of_nat (length xs) :: u32) 1 (serialize x []))
       (\<lambda>buf. Inr (buf @ xs))"
| "serialize_value cfg (Div_v_extid xs) = serialize_extids (extension_id_size cfg) xs []"
| "serialize_value cfg (Div_u8_ipv4_u16 x a port) =
     Inr (let buf = [x] @ v4_bytes a in if port \<noteq> 0 then serialize port buf else buf)"
| "serialize_value cfg (Div_u8_ipv6_u16 x a port) =
     Inr (let buf = [x] @ v6_bytes a in if port \<noteq> 0 then serialize port buf else buf)"
| "serialize_value cfg (Div_u8_ipv4_u8 x a y) = Inr ([x] @ v4_bytes a @ [y])"
| "serialize_value cfg (Div_u8_ipv6_u8 x a y) = Inr ([x] @ v6_bytes a @ [y])"
| "serialize_value cfg (Div_u8_u8 x y) = Inr (serialize y (serialize x []))"
| "serialize_value cfg (Div_u64_u64 x y) = Inr (serialize y (serialize x []))"
| "serialize_value cfg (Div_sub_data_items sdis) = serialize_sub_data_items cfg sdis []"
| "serialize_value cfg (Div_u16_sub_data_items x sdis) =
     (let num_sdis = (of_nat (length sdis) :: u32) in
      if num_sdis > 255
      then Inl (Out_Of_Range (''number of sub data items is '' @ to_string_word num_sdis @
             '', must be <= 255''))
      else serialize_sub_data_items cfg sdis (serialize x [] @ [ucast num_sdis, 0]))"
| "serialize_item cfg (DataItem i v) =
     rbind (serialize_value cfg v) (\<lambda>valbuf.
     rbind (serialize_field i (data_item_id_size cfg) []) (\<lambda>dibuf.
     rbind (serialize_field (of_nat (length valbuf) :: u64) (data_item_length_size cfg) dibuf) (\<lambda>dibuf.
     Inr (dibuf @ valbuf))))"
| "serialize_sub_data_items cfg [] buf = Inr buf"
| "serialize_sub_data_items cfg (sdi # sdis) buf =
     rbind (serialize_item cfg sdi) (\<lambda>one. serialize_sub_data_items cfg sdis (buf @ one))"

section \<open>Deserialization\<close>

definition deserialize_ipv4 :: "bytes \<Rightarrow> (address_v4 \<times> bytes) res" where
  "deserialize_ipv4 it =
     (if length it < 4 then Inl (Length_Error ''data item has too few bytes for an IPv4 address'')
      else Inr (AddressV4 (take 4 it), drop 4 it))"

definition deserialize_ipv6 :: "bytes \<Rightarrow> (address_v6 \<times> bytes) res" where
  "deserialize_ipv6 it =
     (if length it < 16 then Inl (Length_Error ''data item has too few bytes for an IPv6 address'')
      else Inr (AddressV6 (take 16 it) 0, drop 16 it))"

text \<open>\<open>deserialize_array<uint16_t, 2>\<close>\<close>

definition deserialize_array2_u16 :: "bytes \<Rightarrow> ((u16 \<times> u16) \<times> bytes) res" where
  "deserialize_array2_u16 it =
     rbind (deserialize it) (\<lambda>(x, it). rbind (deserialize it) (\<lambda>(y, it). Inr ((x, y), it)))"

text \<open>The optional port that ends a connection point.\<close>

definition deserialize_port :: "bytes \<Rightarrow> (u16 \<times> bytes) res" where
  "deserialize_port it = (if it \<noteq> [] then deserialize it else Inr (0, it))"

text \<open>
  The \<open>switch\<close> on the value type. \<open>sub\<close> reads the rest of the data item as sub data
  items (\<open>deserialize_sub_data_items\<close> with this data item's information as the parent's).
\<close>

fun deserialize_value ::
    "ProtocolConfig \<Rightarrow> DataItemValueType \<Rightarrow> (bytes \<Rightarrow> DataItem list res) \<Rightarrow> bytes \<Rightarrow>
     (DataItemValue \<times> bytes) res" where
  "deserialize_value cfg T_blank sub it = Inr (Div_blank, it)"
| "deserialize_value cfg T_u8 sub it =
     rbind (deserialize_u8 it) (\<lambda>(x, it). Inr (Div_u8 x, it))"
| "deserialize_value cfg T_u16 sub it =
     rbind (deserialize it) (\<lambda>(x, it). Inr (Div_u16 x, it))"
| "deserialize_value cfg T_u32 sub it =
     rbind (deserialize it) (\<lambda>(x, it). Inr (Div_u32 x, it))"
| "deserialize_value cfg T_u64 sub it =
     rbind (deserialize it) (\<lambda>(x, it). Inr (Div_u64 x, it))"
| "deserialize_value cfg T_v_u8 sub it =
     rbind (read_all deserialize_u8 it) (\<lambda>xs. Inr (Div_v_u8 xs, []))"
| "deserialize_value cfg T_v_u32 sub it =
     rbind (read_all deserialize it) (\<lambda>xs. Inr (Div_v_u32 xs, []))"
| "deserialize_value cfg T_a2_u16 sub it =
     rbind (deserialize_array2_u16 it) (\<lambda>((x, y), it). Inr (Div_a2_u16 x y, it))"
| "deserialize_value cfg T_string sub it = Inr (Div_string (map char_of_byte it), [])"
| "deserialize_value cfg T_dlepmac sub it = Inr (Div_dlepmac (DlepMac it), [])"
| "deserialize_value cfg T_u8_string sub it =
     rbind (deserialize_u8 it) (\<lambda>(x, it). Inr (Div_u8_string x (map char_of_byte it), []))"
| "deserialize_value cfg T_u8_ipv4 sub it =
     rbind (deserialize_u8 it) (\<lambda>(x, it).
     rbind (deserialize_ipv4 it) (\<lambda>(a, it). Inr (Div_u8_ipv4 x a, it)))"
| "deserialize_value cfg T_u8_ipv6 sub it =
     rbind (deserialize_u8 it) (\<lambda>(x, it).
     rbind (deserialize_ipv6 it) (\<lambda>(a, it). Inr (Div_u8_ipv6 x a, it)))"
| "deserialize_value cfg T_u16_vu8 sub it =
     rbind (deserialize it) (\<lambda>(x, it).
     rbind (deserialize_u8 it) (\<lambda>(sz, it).
     if length it \<noteq> unat sz
     then Inl (Length_Error (''expected vector of length '' @ to_string_word sz @
            '', got length '' @ to_string_nat (length it)))
     else Inr (Div_u16_vu8 x it, [])))"
| "deserialize_value cfg T_v_extid sub it =
     rbind (read_all (deserialize_field (extension_id_size cfg)) it) (\<lambda>xs. Inr (Div_v_extid xs, []))"
| "deserialize_value cfg T_u8_ipv4_u16 sub it =
     rbind (deserialize_u8 it) (\<lambda>(x, it).
     rbind (deserialize_ipv4 it) (\<lambda>(a, it).
     rbind (deserialize_port it) (\<lambda>(port, it). Inr (Div_u8_ipv4_u16 x a port, it))))"
| "deserialize_value cfg T_u8_ipv6_u16 sub it =
     rbind (deserialize_u8 it) (\<lambda>(x, it).
     rbind (deserialize_ipv6 it) (\<lambda>(a, it).
     rbind (deserialize_port it) (\<lambda>(port, it). Inr (Div_u8_ipv6_u16 x a port, it))))"
| "deserialize_value cfg T_u8_ipv4_u8 sub it =
     rbind (deserialize_u8 it) (\<lambda>(x, it).
     rbind (deserialize_ipv4 it) (\<lambda>(a, it).
     rbind (deserialize_u8 it) (\<lambda>(y, it). Inr (Div_u8_ipv4_u8 x a y, it))))"
| "deserialize_value cfg T_u8_ipv6_u8 sub it =
     rbind (deserialize_u8 it) (\<lambda>(x, it).
     rbind (deserialize_ipv6 it) (\<lambda>(a, it).
     rbind (deserialize_u8 it) (\<lambda>(y, it). Inr (Div_u8_ipv6_u8 x a y, it))))"
| "deserialize_value cfg T_u8_u8 sub it =
     rbind (deserialize_u8 it) (\<lambda>(x, it).
     rbind (deserialize_u8 it) (\<lambda>(y, it). Inr (Div_u8_u8 x y, it)))"
| "deserialize_value cfg T_u64_u64 sub it =
     rbind (deserialize it) (\<lambda>(x, it).
     rbind (deserialize it) (\<lambda>(y, it). Inr (Div_u64_u64 x y, it)))"
| "deserialize_value cfg T_sub_data_items sub it =
     rbind (sub it) (\<lambda>sdis. Inr (Div_sub_data_items sdis, []))"
| "deserialize_value cfg T_u16_sub_data_items sub it =
     rbind (deserialize it) (\<lambda>(x, it).
     rbind (deserialize_u8 it) (\<lambda>(num_sdis, it).
     rbind (deserialize_u8 it) (\<lambda>(reserved, it).
     if reserved \<noteq> 0
     then Inl (Out_Of_Range (''reserved byte is '' @ to_string_word reserved @ '', must be 0''))
     else rbind (sub it) (\<lambda>sdis.
       if length sdis \<noteq> unat num_sdis
       then Inl (Length_Error (''number of sub data items is '' @ to_string_nat (length sdis) @
              '', expected '' @ to_string_word num_sdis))
       else Inr (Div_u16_sub_data_items x sdis, [])))))"

text \<open>
  The id and length that open a data item: the id, the bytes of its value
  \<open>[it, di_end)\<close>, and the bytes after it.
\<close>

definition deserialize_header :: "ProtocolConfig \<Rightarrow> bytes \<Rightarrow> (u32 \<times> bytes \<times> bytes) res" where
  "deserialize_header cfg it =
     rbind (deserialize_field (data_item_id_size cfg) it) (\<lambda>(i :: u32, it).
     rbind (deserialize_field (data_item_length_size cfg) it) (\<lambda>(di_length :: u64, it).
     if unat di_length > length it
     then Inl (Length_Error (''data item='' @ to_string_word i @ '' length='' @
            to_string_word di_length @ '' extends beyond the end of the message''))
     else Inr (i, take (unat di_length) it, drop (unat di_length) it)))"

text \<open>Each primitive reader returns a suffix of what it was given.\<close>

lemma deserialize_loop_length: "deserialize_loop n v it = (i, w, it') \<Longrightarrow> length it' \<le> length it"
  by (induction n v it rule: deserialize_loop.induct) auto

lemma deserialize_u8_length: "deserialize_u8 it = Inr (x, it') \<Longrightarrow> length it = Suc (length it')"
  by (auto simp: deserialize_u8_def split: list.splits)

lemma deserialize_length: "deserialize it = Inr (x, it') \<Longrightarrow> length it' \<le> length it"
  by (auto simp: deserialize_def split: prod.splits if_splits dest: deserialize_loop_length)

lemma deserialize_field_drop:
  assumes dec: "deserialize_field n it = Inr (x :: 'a::len word, it')"
  shows "n \<le> length it \<and> it' = drop n it"
proof -
  from dec have "n \<le> length it"
    using deserialize_field_short[where 'a = 'a, of it n] by (cases "length it < n") auto
  with dec show ?thesis
    by (auto simp: deserialize_field_def deserialize_loop_enough split: if_splits)
qed

lemma deserialize_value_cong [fundef_cong]:
  assumes "cfg = cfg'" and "vt = vt'" and "it = it'"
    and "\<And>s. length s \<le> length it' \<Longrightarrow> sub s = sub' s"
  shows "deserialize_value cfg vt sub it = deserialize_value cfg' vt' sub' it'"
proof (cases "vt' = T_u16_sub_data_items")
  case True
  then show ?thesis
    using assms by (auto intro!: rbind_cong split: prod.splits
        dest!: deserialize_length deserialize_u8_length)
next
  case False
  then show ?thesis using assms by (cases vt') simp_all
qed

text \<open>The value of a data item is shorter than the data item, unless both are empty.\<close>

lemma deserialize_header_length:
  assumes "deserialize_header cfg it = Inr (i, di, after)"
  shows "di = [] \<or> length di < length it"
    and "length di + length after + data_item_id_size cfg + data_item_length_size cfg = length it"
proof -
  from assms obtain n :: u64 and it1 it2 where
    h: "deserialize_field (data_item_id_size cfg) it = Inr (i, it1)"
       "deserialize_field (data_item_length_size cfg) it1 = Inr (n, it2)"
       "unat n \<le> length it2" "di = take (unat n) it2" "after = drop (unat n) it2"
    by (auto simp: deserialize_header_def res_simps split: if_splits)
  note drops = deserialize_field_drop[OF h(1)] deserialize_field_drop[OF h(2)]
  show "length di + length after + data_item_id_size cfg + data_item_length_size cfg = length it"
    using h drops by auto
  show "di = [] \<or> length di < length it"
  proof (cases "data_item_length_size cfg = 0")
    case True
    with h(2) have "n = 0" by (simp add: deserialize_field_def)
    with h show ?thesis by simp
  next
    case False
    with h drops show ?thesis by auto
  qed
qed

function data_item_deserialize ::
    "ProtocolConfig \<Rightarrow> DataItemInfo option \<Rightarrow> bytes \<Rightarrow> (DataItem \<times> bytes) res"
  and deserialize_sub_data_items ::
    "ProtocolConfig \<Rightarrow> DataItemInfo \<Rightarrow> bytes \<Rightarrow> DataItem list res"
where
  "data_item_deserialize cfg parent_di_info it =
     rbind (deserialize_header cfg it) (\<lambda>(i, di, after).
     rbind (get_data_item_info cfg i parent_di_info) (\<lambda>di_info.
     rbind (deserialize_value cfg (dii_value_type di_info)
              (\<lambda>s. deserialize_sub_data_items cfg di_info s) di) (\<lambda>(v, di').
     if di' \<noteq> []
     then Inl (Length_Error (''data item='' @ to_string_word i @ '' length='' @
            to_string_nat (length di) @ '' deserialized length was only '' @
            to_string_nat (length di')))
     else Inr (DataItem i v, after))))"
| "deserialize_sub_data_items cfg di_info it =
     (if it = [] then Inr []
      else case data_item_deserialize cfg (Some di_info) it of
        Inl e \<Rightarrow> Inl e
      | Inr (sdi, it') \<Rightarrow>
          if length it' < length it
          then rbind (deserialize_sub_data_items cfg di_info it') (\<lambda>sdis. Inr (sdi # sdis))
          else Inl Hang)"
  by pat_completeness auto
termination
proof (relation "measure (\<lambda>x. case x of Inl (cfg, p, it) \<Rightarrow> 2 * length it + 1
                          | Inr (cfg, p, it) \<Rightarrow> if it = [] then 0 else 2 * length it + 2)", goal_cases)
  case (2 cfg parent it x i y di after di_info s)
  then have "di = [] \<or> length di < length it" by (auto dest: deserialize_header_length)
  with 2 show ?case by auto
qed auto

declare data_item_deserialize.simps [simp del] deserialize_sub_data_items.simps [simp del]

section \<open>Well-typed data items\<close>

text \<open>
  \<open>item_ok cfg parent di\<close>: the configuration knows the id of \<open>di\<close> (as a sub data item of
  \<open>parent\<close>, if given), the value has the type it configures, and so for every sub data
  item. The other conjuncts say that the fields are values of their C++ types: addresses of 4
  and 16 bytes, and vectors shorter than the range of the \<open>unsigned int\<close> their size is
  stored in. The scope id of an IPv6 address is not part of the wire format.
\<close>

fun value_ok :: "ProtocolConfig \<Rightarrow> DataItemInfo \<Rightarrow> DataItemValue \<Rightarrow> bool"
  and item_ok :: "ProtocolConfig \<Rightarrow> DataItemInfo option \<Rightarrow> DataItem \<Rightarrow> bool"
  and items_ok :: "ProtocolConfig \<Rightarrow> DataItemInfo option \<Rightarrow> DataItem list \<Rightarrow> bool"
where
  "value_ok cfg info (Div_u8_ipv4 x a) = (length (v4_bytes a) = 4)"
| "value_ok cfg info (Div_u8_ipv6 x a) = (length (v6_bytes a) = 16 \<and> v6_scope_id a = 0)"
| "value_ok cfg info (Div_u16_vu8 x xs) = (length xs < 2 ^ 32)"
| "value_ok cfg info (Div_u8_ipv4_u16 x a p) = (length (v4_bytes a) = 4)"
| "value_ok cfg info (Div_u8_ipv6_u16 x a p) = (length (v6_bytes a) = 16 \<and> v6_scope_id a = 0)"
| "value_ok cfg info (Div_u8_ipv4_u8 x a y) = (length (v4_bytes a) = 4)"
| "value_ok cfg info (Div_u8_ipv6_u8 x a y) = (length (v6_bytes a) = 16 \<and> v6_scope_id a = 0)"
| "value_ok cfg info (Div_sub_data_items sdis) = items_ok cfg (Some info) sdis"
| "value_ok cfg info (Div_u16_sub_data_items x sdis) =
     (length sdis < 2 ^ 32 \<and> items_ok cfg (Some info) sdis)"
| "value_ok cfg info _ = True"
| "item_ok cfg parent (DataItem i v) =
     (case get_data_item_info cfg i parent of
        Inl e \<Rightarrow> False
      | Inr info \<Rightarrow> dii_value_type info = value_type v \<and> value_ok cfg info v)"
| "items_ok cfg parent [] = True"
| "items_ok cfg parent (di # dis) = (item_ok cfg parent di \<and> items_ok cfg parent dis)"

section \<open>Round trip\<close>

lemma serialize_append: "serialize x buf = buf @ serialize x []"
  by (simp add: serialize_def)

lemma length_serialize [simp]: "length (serialize (x :: 'a::len word) buf) = length buf + sizeof TYPE('a word)"
  by (simp add: serialize_def)

lemma serialize_vector_concat: "serialize_vector xs buf = buf @ concat (map (\<lambda>x. serialize x []) xs)"
proof (induction xs arbitrary: buf)
  case (Cons x xs)
  then show ?case by (simp add: serialize_append[of x buf])
qed simp

lemma serialize_field_Inr:
  assumes "serialize_field (v :: 'a::len word) n buf = Inr b" and "8 dvd LENGTH('a)"
  shows "unat v < 256 ^ n \<and> b = buf @ serialize_loop v n"
  using assms serialize_field_error[OF assms(2), of v n buf] serialize_field_ok[of v n buf]
  by (cases "unat v < 256 ^ n") auto

lemma serialize_extids_Inr:
  "serialize_extids n xs buf = Inr b \<Longrightarrow>
   list_all (\<lambda>x. unat x < 256 ^ n) xs \<and> b = buf @ concat (map (\<lambda>x. serialize_loop x n) xs)"
proof (induction xs arbitrary: buf)
  case (Cons x xs)
  then obtain b' where "serialize_field x n buf = Inr b'" and rest: "serialize_extids n xs b' = Inr b"
    by (auto simp: res_simps)
  then have "unat x < 256 ^ n \<and> b' = buf @ serialize_loop x n"
    by (intro serialize_field_Inr) simp_all
  with Cons.IH[OF rest] show ?case by simp
qed simp

lemmas wire_simps =
  deserialize_serialize u16_codec.dec_enc u32_codec.dec_enc u64_codec.dec_enc
  u16_codec.dec_enc_nil u32_codec.dec_enc_nil u64_codec.dec_enc_nil
  serialize_u8 serialize_vector_concat

lemma u8_vector: "concat (map (\<lambda>x. [x]) xs) = xs"
  by (induction xs) auto

fun has_sub_data_items :: "DataItemValueType \<Rightarrow> bool" where
  "has_sub_data_items T_sub_data_items = True"
| "has_sub_data_items T_u16_sub_data_items = True"
| "has_sub_data_items _ = False"

lemma extids_round_trip:
  assumes "config_ok cfg" and "serialize_extids (extension_id_size cfg) xs [] = Inr bs"
  shows "read_all (deserialize_field (extension_id_size cfg)) bs = Inr xs"
proof -
  obtain n where n: "extension_id_size cfg = Suc n"
    using assms(1) by (cases "extension_id_size cfg") (auto simp: config_ok_def field_size_ok_def)
  from serialize_extids_Inr[OF assms(2)]
  have "list_all (\<lambda>x. unat x < 256 ^ Suc n) xs" and "bs = concat (map (\<lambda>x. serialize_loop x (Suc n)) xs)"
    by (simp_all add: n)
  with id_codec.read_all_enc[of n xs] show ?thesis by (simp only: n)
qed

lemma u16_vu8_round_trip:
  assumes "length xs < 2 ^ 32"
    and "serialize_field (of_nat (length xs) :: u32) 1 (serialize (x :: u16) []) = Inr buf"
  shows "length xs < 256 \<and> buf = serialize x [] @ [of_nat (length xs)]"
proof -
  have len: "unat (of_nat (length xs) :: u32) = length xs"
    using assms(1) by (simp add: unat_of_nat)
  have fit: "unat (of_nat (length xs) :: u32) < 256 ^ 1
      \<and> buf = serialize x [] @ serialize_loop (of_nat (length xs) :: u32) 1"
    by (rule serialize_field_Inr[OF assms(2)]) simp
  have "unat (ucast (drop_bit (0 * 8) (of_nat (length xs) :: u32) AND 0xff) :: u8) = length xs"
    using fit len by (simp only: unat_serialize_byte) simp
  then have "ucast (drop_bit (0 * 8) (of_nat (length xs) :: u32) AND 0xff) = (of_nat (length xs) :: u8)"
    by (metis of_nat_unat ucast_id)
  with fit len show ?thesis by simp
qed

lemma plain_value_round_trip:
  assumes "config_ok cfg" and "\<not> has_sub_data_items (value_type v)"
    and "value_ok cfg info v" and "serialize_value cfg v = Inr bs"
  shows "deserialize_value cfg (value_type v) sub bs = Inr (v, [])"
proof (cases v)
  case (Div_v_u8 xs)
  then show ?thesis
    using assms u8_codec.read_all_enc[of xs] by (auto simp: wire_simps u8_vector list_all_iff)
next
  case (Div_v_u32 xs)
  then show ?thesis
    using assms u32_codec.read_all_enc[of xs] by (auto simp: wire_simps list_all_iff)
next
  case (Div_a2_u16 x y)
  then show ?thesis
    using assms by (auto simp: wire_simps deserialize_array2_u16_def)
next
  case (Div_u8_ipv4 x a)
  then show ?thesis using assms by (cases a) (auto simp: deserialize_ipv4_def)
next
  case (Div_u8_ipv6 x a)
  then show ?thesis using assms by (cases a) (auto simp: deserialize_ipv6_def)
next
  case (Div_u16_vu8 x xs)
  with assms obtain buf where
    "serialize_field (of_nat (length xs) :: u32) 1 (serialize x []) = Inr buf" and bs: "bs = buf @ xs"
    by (auto simp: res_simps)
  with assms Div_u16_vu8 have "length xs < 256" and "buf = serialize x [] @ [of_nat (length xs)]"
    using u16_vu8_round_trip by auto
  with Div_u16_vu8 bs show ?thesis by (simp add: wire_simps unat_of_nat)
next
  case (Div_v_extid xs)
  then show ?thesis using assms by (simp add: extids_round_trip)
next
  case (Div_u8_ipv4_u16 x a p)
  then show ?thesis
    using assms serialize_nonempty[of p] by (cases a) (auto simp: deserialize_ipv4_def
        deserialize_port_def serialize_append[of p "x # _"] wire_simps Let_def)
next
  case (Div_u8_ipv6_u16 x a p)
  then show ?thesis
    using assms serialize_nonempty[of p] by (cases a) (auto simp: deserialize_ipv6_def
        deserialize_port_def serialize_append[of p "x # _"] wire_simps Let_def)
next
  case (Div_u8_ipv4_u8 x a y)
  then show ?thesis using assms by (cases a) (auto simp: deserialize_ipv4_def)
next
  case (Div_u8_ipv6_u8 x a y)
  then show ?thesis using assms by (cases a) (auto simp: deserialize_ipv6_def)
next
  case (Div_u64_u64 x y)
  then show ?thesis using assms by (auto simp: serialize_append[of y "serialize x []"] wire_simps)
next
  case (Div_u8_string x s)
  then show ?thesis using assms by (auto simp: wire_simps)
qed (use assms in \<open>auto simp: wire_simps\<close>)

lemma item_header_round_trip:
  assumes "config_ok cfg" and "serialize_field (i :: u32) (data_item_id_size cfg) [] = Inr b1"
    and "serialize_field (of_nat (length valbuf) :: u64) (data_item_length_size cfg) b1 = Inr b2"
    and "length valbuf < 2 ^ 64"
  shows "deserialize_header cfg (b2 @ valbuf @ rest) = Inr (i, valbuf, rest) \<and> b2 \<noteq> []"
proof -
  have i: "unat i < 256 ^ data_item_id_size cfg \<and> b1 = [] @ serialize_loop i (data_item_id_size cfg)"
    by (rule serialize_field_Inr[OF assms(2)]) simp
  have l: "unat (of_nat (length valbuf) :: u64) < 256 ^ data_item_length_size cfg
      \<and> b2 = b1 @ serialize_loop (of_nat (length valbuf) :: u64) (data_item_length_size cfg)"
    by (rule serialize_field_Inr[OF assms(3)]) simp
  have len: "unat (of_nat (length valbuf) :: u64) = length valbuf"
    using assms(4) by (simp add: unat_of_nat)
  have "deserialize_field (data_item_id_size cfg) (b2 @ valbuf @ rest) =
      Inr (i, serialize_loop (of_nat (length valbuf) :: u64) (data_item_length_size cfg) @ valbuf @ rest)"
    using i l by (simp add: deserialize_field_serialize)
  moreover have "deserialize_field (data_item_length_size cfg)
      (serialize_loop (of_nat (length valbuf) :: u64) (data_item_length_size cfg) @ valbuf @ rest)
      = Inr (of_nat (length valbuf) :: u64, valbuf @ rest)"
    using l by (simp add: deserialize_field_serialize)
  moreover have "length b1 > 0"
    using i assms(1) by (simp add: config_ok_def field_size_ok_def)
  ultimately show ?thesis
    using l len by (auto simp: deserialize_header_def)
qed

lemma serialize_sub_data_items_prefix:
  "serialize_sub_data_items cfg sdis buf = Inr b \<Longrightarrow> \<exists>w. b = buf @ w"
  by (induction sdis arbitrary: buf) (auto simp: res_simps, metis append.assoc)

lemma serialize_round_trip:
  shows "config_ok cfg \<Longrightarrow> serialize_value cfg v = Inr bs \<Longrightarrow> length bs < 2 ^ 64 \<Longrightarrow> value_ok cfg info v \<Longrightarrow>
           deserialize_value cfg (value_type v) (deserialize_sub_data_items cfg info) bs = Inr (v, [])"
    and "config_ok cfg \<Longrightarrow> serialize_item cfg di = Inr bs \<Longrightarrow> length bs < 2 ^ 64 \<Longrightarrow> item_ok cfg parent di \<Longrightarrow>
           bs \<noteq> [] \<and> (\<forall>rest. data_item_deserialize cfg parent (bs @ rest) = Inr (di, rest))"
    and "config_ok cfg \<Longrightarrow> serialize_sub_data_items cfg sdis buf = Inr bs \<Longrightarrow> length bs < 2 ^ 64 \<Longrightarrow>
           items_ok cfg (Some info) sdis \<Longrightarrow>
           \<exists>w. bs = buf @ w \<and> deserialize_sub_data_items cfg info w = Inr sdis"
proof (induction cfg v and cfg di and cfg sdis buf arbitrary: bs info and bs parent and bs info
    rule: serialize_value_serialize_item_serialize_sub_data_items.induct)
  case (22 cfg sdis)
  then show ?case by fastforce
next
  case (23 cfg x sdis)
  let ?n = "of_nat (length sdis) :: u32"
  have unat: "unat ?n = length sdis" using 23 by (simp add: unat_of_nat)
  from 23 have le: "\<not> ?n > 255" and ser:
    "serialize_sub_data_items cfg sdis (serialize x [] @ [ucast ?n, 0]) = Inr bs"
    by (auto simp: Let_def split: if_splits)
  from le unat have small: "length sdis \<le> 255" by (simp add: word_less_nat_alt)
  then have "unat (ucast ?n :: u8) = length sdis"
    using unat by (simp add: unsigned_ucast_eq take_bit_eq_mod)
  moreover obtain w where "bs = serialize x [] @ [ucast ?n, 0] @ w"
    and "deserialize_sub_data_items cfg info w = Inr sdis"
    using 23 le ser by fastforce
  ultimately show ?case by (simp add: wire_simps)
next
  case (24 cfg i v)
  then obtain valbuf b1 b2 where ser: "serialize_value cfg v = Inr valbuf"
    "serialize_field i (data_item_id_size cfg) [] = Inr b1"
    "serialize_field (of_nat (length valbuf) :: u64) (data_item_length_size cfg) b1 = Inr b2"
    "bs = b2 @ valbuf"
    by (auto simp: res_simps)
  from 24 obtain info' where info: "get_data_item_info cfg i parent = Inr info'"
    "dii_value_type info' = value_type v" "value_ok cfg info' v"
    by (auto split: sum.splits)
  have hdr: "deserialize_header cfg (b2 @ valbuf @ rest) = Inr (i, valbuf, rest) \<and> b2 \<noteq> []" for rest
    using item_header_round_trip 24 ser by simp
  have "deserialize_value cfg (value_type v) (deserialize_sub_data_items cfg info') valbuf = Inr (v, [])"
    using 24 ser info by simp
  with hdr info ser show ?case by (simp add: data_item_deserialize.simps)
next
  case (25 cfg buf)
  then show ?case by (simp add: deserialize_sub_data_items.simps)
next
  case (26 cfg sdi sdis buf)
  then obtain one where one: "serialize_item cfg sdi = Inr one"
    and rest: "serialize_sub_data_items cfg sdis (buf @ one) = Inr bs"
    by (auto simp: res_simps)
  with 26 obtain w where w: "bs = (buf @ one) @ w" "deserialize_sub_data_items cfg info w = Inr sdis"
    by fastforce
  have "one \<noteq> [] \<and> data_item_deserialize cfg (Some info) (one @ w) = Inr (sdi, w)"
    using "26.IH"(1)[of one "Some info"] "26.prems" one w by simp
  with w show ?case
    by (intro exI[of _ "one @ w"]) (simp add: deserialize_sub_data_items.simps[of cfg info "one @ w"])
qed (rule plain_value_round_trip, assumption, simp, assumption, assumption)+

section \<open>Deserialization returns, and only well-typed data items\<close>

text \<open>An exception a \<open>catch (std::exception &)\<close> handler sees, with a text to report.\<close>

definition reportable :: "exn \<Rightarrow> bool" where
  "reportable e = (is_std_exception e \<and> what e \<noteq> '''')"

lemma reportable_simps [simp]:
  "reportable (Length_Error s) = (s \<noteq> '''')" "reportable (Invalid_Argument s) = (s \<noteq> '''')"
  "reportable (Out_Of_Range s) = (s \<noteq> '''')" "reportable (BadDataItemId s) = (s \<noteq> '''')"
  "reportable (BadDataItemName s) = (s \<noteq> '''')" "reportable (BadSignalId s) = (s \<noteq> '''')"
  "\<not> reportable Hang"
  by (simp_all add: reportable_def)

lemma deserialize_u8_error: "deserialize_u8 it = Inl e \<Longrightarrow> reportable e"
  by (auto simp: deserialize_u8_def split: list.splits)

lemma deserialize_error: "deserialize it = Inl e \<Longrightarrow> reportable e"
  by (auto simp: deserialize_def split: prod.splits if_splits)

lemma deserialize_field_error: "deserialize_field n it = Inl e \<Longrightarrow> reportable e"
  by (auto simp: deserialize_field_def split: prod.splits if_splits)

lemma deserialize_shrinks:
  "0 < sizeof TYPE('a word) \<Longrightarrow> deserialize it = Inr (x :: 'a::len word, it') \<Longrightarrow> length it' < length it"
proof -
  assume size: "0 < sizeof TYPE('a word)" and dec: "deserialize it = Inr (x, it')"
  have "sizeof TYPE('a word) \<le> length it"
    using dec deserialize_loop_short[of it "sizeof TYPE('a word)" "0 :: 'a word"]
    by (cases "length it < sizeof TYPE('a word)") (auto simp: deserialize_def split: prod.splits if_splits)
  with size dec show ?thesis
    by (auto simp: deserialize_def deserialize_loop_enough split: if_splits)
qed

lemma read_all_error:
  assumes "\<And>it x it'. it \<noteq> [] \<Longrightarrow> dec it = Inr (x, it') \<Longrightarrow> length it' < length it"
    and "\<And>it e. dec it = Inl e \<Longrightarrow> reportable e"
  shows "read_all dec it = Inl e \<Longrightarrow> reportable e"
proof (induction it rule: length_induct)
  case (1 it)
  then show ?case
    using assms by (subst (asm) (2) read_all.simps)
      (fastforce simp: res_simps split: if_splits sum.splits prod.splits)
qed

lemma deserialize_ipv4_error: "deserialize_ipv4 it = Inl e \<Longrightarrow> reportable e"
  by (auto simp: deserialize_ipv4_def split: if_splits)

lemma deserialize_ipv6_error: "deserialize_ipv6 it = Inl e \<Longrightarrow> reportable e"
  by (auto simp: deserialize_ipv6_def split: if_splits)

lemma deserialize_port_error: "deserialize_port it = Inl e \<Longrightarrow> reportable e"
  by (auto simp: deserialize_port_def deserialize_error split: if_splits)

lemma read_all_u8_error: "read_all deserialize_u8 it = Inl e \<Longrightarrow> reportable e"
  by (rule read_all_error[where dec = deserialize_u8])
    (auto dest: deserialize_u8_length deserialize_u8_error)

lemma read_all_u32_error: "read_all (deserialize :: bytes \<Rightarrow> (u32 \<times> bytes) res) it = Inl e \<Longrightarrow> reportable e"
  by (rule read_all_error[where dec = "deserialize :: bytes \<Rightarrow> (u32 \<times> bytes) res"])
    (auto intro: deserialize_shrinks[where 'a = 32, simplified] dest: deserialize_error)

lemma read_all_extid_error:
  assumes "0 < n"
  shows "read_all (deserialize_field n :: bytes \<Rightarrow> (u32 \<times> bytes) res) it = Inl e \<Longrightarrow> reportable e"
proof (rule read_all_error[where dec = "deserialize_field n :: bytes \<Rightarrow> (u32 \<times> bytes) res"])
  fix it it' :: bytes and x :: u32
  assume "it \<noteq> []" and "deserialize_field n it = Inr (x, it')"
  with assms deserialize_field_drop[of n it x it'] show "length it' < length it" by auto
qed (auto dest: deserialize_field_error)

lemmas reader_errors =
  deserialize_u8_error deserialize_error deserialize_ipv4_error deserialize_ipv6_error
  deserialize_port_error read_all_u8_error read_all_u32_error

lemma deserialize_value_error:
  assumes "config_ok cfg" and "\<And>s e. length s \<le> length it \<Longrightarrow> sub s = Inl e \<Longrightarrow> reportable e"
    and "deserialize_value cfg vt sub it = Inl e"
  shows "reportable e"
proof -
  have "0 < extension_id_size cfg" using assms(1) by (simp add: config_ok_def field_size_ok_def)
  note readers = reader_errors read_all_extid_error[OF this]
  show ?thesis
  proof (cases "vt = T_u16_sub_data_items")
    case True
    then show ?thesis
      using assms(3) by (auto simp: res_simps split: if_splits intro: readers assms(2)[rotated]
          dest!: deserialize_length deserialize_u8_length)
  next
    case False
    then show ?thesis
      using assms(2,3) by (cases vt) (auto simp: res_simps deserialize_array2_u16_def
          split: if_splits intro: readers)
  qed
qed

lemma get_data_item_info_error:
  assumes "config_ok cfg" and "parent_ok cfg parent"
    and "get_data_item_info cfg i parent = Inl e"
  shows "reportable e"
proof (cases "get_data_item_name cfg i parent")
  case (Inl e')
  then show ?thesis
    using assms by (auto simp: get_data_item_info_def get_data_item_name_def split: option.splits)
next
  case (Inr n)
  with get_data_item_name_defined[OF assms(1,2) Inr] assms show ?thesis
    by (auto simp: get_data_item_info_def get_data_item_info_by_name_find split: option.splits)
qed

lemma get_data_item_info_parent_ok:
  "config_ok cfg \<Longrightarrow> get_data_item_info cfg i parent = Inr info \<Longrightarrow> parent_ok cfg (Some info)"
  by (auto simp: get_data_item_info_def res_simps get_data_item_info_by_name_find parent_ok_def
      split: option.splits dest: config_ok_info)

lemma deserialize_header_error: "deserialize_header cfg it = Inl e \<Longrightarrow> reportable e"
  by (auto simp: deserialize_header_def res_simps split: if_splits intro: deserialize_field_error)

lemma deserialize_consumes:
  assumes "config_ok cfg" and "data_item_deserialize cfg parent it = Inr (di, rest)"
  shows "length rest < length it"
proof -
  from assms(2) obtain i d where "deserialize_header cfg it = Inr (i, d, rest)"
    by (auto simp: data_item_deserialize.simps res_simps split: if_splits)
  from deserialize_header_length(2)[OF this] assms(1) show ?thesis
    by (simp add: config_ok_def field_size_ok_def)
qed

lemma deserialize_errors:
  shows "config_ok cfg \<Longrightarrow> parent_ok cfg parent \<Longrightarrow>
           data_item_deserialize cfg parent it = Inl e \<Longrightarrow> reportable e"
    and "config_ok cfg \<Longrightarrow> parent_ok cfg (Some info) \<Longrightarrow>
           deserialize_sub_data_items cfg info it = Inl e \<Longrightarrow> reportable e"
proof (induction cfg parent it and cfg info it arbitrary: e and e
    rule: data_item_deserialize_deserialize_sub_data_items.induct)
  case (1 cfg parent it)
  from "1.prems"(3) consider "deserialize_header cfg it = Inl e"
    | i d after where "deserialize_header cfg it = Inr (i, d, after)" "get_data_item_info cfg i parent = Inl e"
    | i d after info where "deserialize_header cfg it = Inr (i, d, after)"
        "get_data_item_info cfg i parent = Inr info"
        "deserialize_value cfg (dii_value_type info) (deserialize_sub_data_items cfg info) d = Inl e"
    | "reportable e"
    by (fastforce simp: data_item_deserialize.simps res_simps split: if_splits)
  then show ?case
  proof cases
    case (3 i d after info)
    show ?thesis
      using "1.IH"[OF 3(1) refl refl 3(2)] "1.prems" 3 get_data_item_info_parent_ok
      by (blast intro: deserialize_value_error)
  qed (use "1.prems" in \<open>auto intro: deserialize_header_error get_data_item_info_error\<close>)
next
  case (2 cfg info it)
  show ?case
  proof (cases "it = []")
    case False
    with 2 deserialize_consumes[OF "2.prems"(1), of "Some info" it] show ?thesis
      by (auto simp: deserialize_sub_data_items.simps[of cfg info it] res_simps split: sum.splits prod.splits)
  qed (use 2 in \<open>simp add: deserialize_sub_data_items.simps\<close>)
qed

lemma deserialize_ipv4_ok: "deserialize_ipv4 it = Inr (a, it') \<Longrightarrow> length (v4_bytes a) = 4"
  by (auto simp: deserialize_ipv4_def split: if_splits)

lemma deserialize_ipv6_ok:
  "deserialize_ipv6 it = Inr (a, it') \<Longrightarrow> length (v6_bytes a) = 16 \<and> v6_scope_id a = 0"
  by (auto simp: deserialize_ipv6_def split: if_splits)

lemma unat_u8_less_big: "unat (x :: u8) < 4294967296"
  using unat_u8_less[of x] by linarith

lemma deserialize_value_ok:
  assumes "\<And>s sdis. length s \<le> length it \<Longrightarrow> sub s = Inr sdis \<Longrightarrow> items_ok cfg (Some info) sdis"
    and "deserialize_value cfg vt sub it = Inr (v, it')"
  shows "value_type v = vt \<and> value_ok cfg info v"
proof (cases "vt = T_u16_sub_data_items")
  case True
  with assms(2) obtain x num s it1 it2 sdis where
    "deserialize it = Inr (x, it1)" "deserialize_u8 it1 = Inr (num, it2)"
    "deserialize_u8 it2 = Inr (0, s)" "sub s = Inr sdis" "length sdis = unat num"
    "v = Div_u16_sub_data_items x sdis"
    by (auto simp: res_simps split: if_splits)
  moreover from this have "length s \<le> length it"
    using deserialize_length[of it x it1] by (auto dest!: deserialize_u8_length)
  ultimately show ?thesis using assms(1) True by (auto simp: unat_u8_less_big)
next
  case False
  then show ?thesis
    using assms by (cases vt) (auto simp: res_simps unat_u8_less_big split: if_splits
        intro: assms(1)[OF order_refl] dest!: deserialize_ipv4_ok deserialize_ipv6_ok)
qed

lemma deserialize_ok:
  shows "data_item_deserialize cfg parent it = Inr (di, rest) \<Longrightarrow> item_ok cfg parent di"
    and "deserialize_sub_data_items cfg info it = Inr sdis \<Longrightarrow> items_ok cfg (Some info) sdis"
proof (induction cfg parent it and cfg info it arbitrary: di rest and sdis
    rule: data_item_deserialize_deserialize_sub_data_items.induct)
  case (1 cfg parent it)
  then obtain i d info v where h: "deserialize_header cfg it = Inr (i, d, rest)"
    "get_data_item_info cfg i parent = Inr info"
    "deserialize_value cfg (dii_value_type info) (deserialize_sub_data_items cfg info) d = Inr (v, [])"
    "di = DataItem i v"
    by (auto simp: data_item_deserialize.simps res_simps split: if_splits)
  have "value_type v = dii_value_type info \<and> value_ok cfg info v"
    using "1.IH"[OF h(1) refl refl h(2)] h(3) by (rule deserialize_value_ok)
  with h show ?case by simp
next
  case (2 cfg info it)
  show ?case
  proof (cases "it = []")
    case False
    with "2.prems" obtain sdi it' sdis' where h: "data_item_deserialize cfg (Some info) it = Inr (sdi, it')"
      "length it' < length it" "deserialize_sub_data_items cfg info it' = Inr sdis'" "sdis = sdi # sdis'"
      by (auto simp: deserialize_sub_data_items.simps[of cfg info it] res_simps
          split: if_splits sum.splits prod.splits)
    with False "2.IH" show ?thesis by auto
  qed (use 2 in \<open>simp add: deserialize_sub_data_items.simps\<close>)
qed

section \<open>Properties\<close>

text \<open>
  C2: a data item of the configured type that serializes is read back unchanged by
  \<open>deserialize\<close>, wherever it stands in a message, and the bytes after it are left for the
  next data item; sub data items included, to any depth.
\<close>

theorem data_item_round_trip:
  assumes "config_ok cfg" and "item_ok cfg parent di"
    and "serialize_item cfg di = Inr bs" and "length bs < 2 ^ 64"
  shows "data_item_deserialize cfg parent (bs @ rest) = Inr (di, rest)"
  using serialize_round_trip(2)[OF assms(1,3,4,2)] by blast


text \<open>
  with the field sizes the schema admits, \<open>deserialize\<close> returns on every input, the
  loops over extension ids and over sub data items included: its result is a data item or a
  \<open>std::exception\<close> with a non-empty text, never an endless loop.
\<close>

lemma data_item_deserialize_returns:
  assumes "config_ok cfg" and "parent_ok cfg parent"
  shows "case data_item_deserialize cfg parent it of
           Inl e \<Rightarrow> is_std_exception e \<and> what e \<noteq> ''''
         | Inr (di, rest) \<Rightarrow> length rest < length it"
  using deserialize_errors(1)[OF assms] deserialize_consumes[OF assms(1)]
  by (auto simp: reportable_def split: sum.splits)

text \<open>
  The default value of a type has that type and survives the wire format: a default data
  item of any defined, top-level name is well typed.
\<close>

lemma default_data_item_typed:
  assumes "config_ok cfg" and "make_default_DataItem cfg name None = Inr di"
  shows "item_ok cfg None di"
proof -
  from assms(2) obtain i t where it: "get_data_item_id cfg name None = Inr i"
    "get_data_item_value_type cfg name = Inr t" "di = DataItem i (set_default_value t)"
    by (auto simp: make_default_DataItem_def res_simps)
  have "get_data_item_name cfg i None = Inr name"
    using it(1) data_item_table.name_id[OF assms(1)] by simp
  moreover from it(2) obtain info where "smap_find (data_item_info_map cfg) name = Some info"
    "dii_value_type info = t"
    by (auto simp: get_data_item_value_type_def split: option.splits)
  ultimately have "get_data_item_info cfg i None = Inr info"
    using assms(1) by (simp add: get_data_item_info_def get_data_item_info_by_name_find)
  with it(3) \<open>dii_value_type info = t\<close> show ?thesis
    by (cases t) (simp_all add: default_v4_def default_v6_def)
qed

end
