(* ===== verification/DataItemText.thy ===== *)
theory DataItemText
  imports DataItem
begin

text \<open>
  The \<open>to_string\<close> half of \<open>src/DataItem.cpp\<close>: the text form of data items that log and
  error messages contain. Boost prints the IP addresses; its two functions are the
  parameter \<open>ip_text\<close>. Because \<open>ProtocolMessage::parse\<close> prints each data item it reads
  inside its \<open>try\<close> block, what matters to the protocol is when printing throws.
\<close>

record ip_text =
  v4_to_string :: "address_v4 \<Rightarrow> string"
  v6_to_string :: "address_v6 \<Rightarrow> string"

text \<open>The comma-separated loop over a vector or an array of integers.\<close>

fun words_to_string :: "string \<Rightarrow> 'a::len word list \<Rightarrow> string" where
  "words_to_string comma [] = ''''"
| "words_to_string comma (x # xs) = comma @ to_string_word x @ words_to_string '','' xs"

fun value_to_string_visit ::
    "ip_text \<Rightarrow> ProtocolConfig \<Rightarrow> DataItemInfo option \<Rightarrow> DataItemValue \<Rightarrow> string res"
  and data_item_to_string ::
    "ip_text \<Rightarrow> ProtocolConfig \<Rightarrow> DataItemInfo option \<Rightarrow> DataItem \<Rightarrow> string res"
  and sub_data_items_to_string ::
    "ip_text \<Rightarrow> ProtocolConfig \<Rightarrow> DataItemInfo option \<Rightarrow> DataItem list \<Rightarrow> string res"
where
  "value_to_string_visit ip cfg p Div_blank = Inr ''''"
| "value_to_string_visit ip cfg p (Div_u8 x) = Inr (to_string_word x)"
| "value_to_string_visit ip cfg p (Div_u16 x) = Inr (to_string_word x)"
| "value_to_string_visit ip cfg p (Div_u32 x) = Inr (to_string_word x)"
| "value_to_string_visit ip cfg p (Div_u64 x) = Inr (to_string_word x)"
| "value_to_string_visit ip cfg p (Div_v_u8 xs) = Inr (words_to_string '''' xs)"
| "value_to_string_visit ip cfg p (Div_v_u32 xs) = Inr (words_to_string '''' xs)"
| "value_to_string_visit ip cfg p (Div_a2_u16 x y) = Inr (words_to_string '''' [x, y])"
| "value_to_string_visit ip cfg p (Div_string s) = Inr s"
| "value_to_string_visit ip cfg p (Div_dlepmac mac) = Inr (mac_to_string mac)"
| "value_to_string_visit ip cfg p (Div_u8_string x s) = Inr (to_string_word x @ '';'' @ s)"
| "value_to_string_visit ip cfg p (Div_u8_ipv4 x a) = Inr (to_string_word x @ '';'' @ v4_to_string ip a)"
| "value_to_string_visit ip cfg p (Div_u8_ipv6 x a) = Inr (to_string_word x @ '';'' @ v6_to_string ip a)"
| "value_to_string_visit ip cfg p (Div_u16_vu8 x xs) = Inr (to_string_word x @ '';'' @ words_to_string '''' xs)"
| "value_to_string_visit ip cfg p (Div_v_extid xs) = Inr (words_to_string '''' xs)"
| "value_to_string_visit ip cfg p (Div_u8_ipv4_u16 x a y) =
     Inr (to_string_word x @ '';'' @ v4_to_string ip a @ '';'' @ to_string_word y)"
| "value_to_string_visit ip cfg p (Div_u8_ipv6_u16 x a y) =
     Inr (to_string_word x @ '';'' @ v6_to_string ip a @ '';'' @ to_string_word y)"
| "value_to_string_visit ip cfg p (Div_u8_ipv4_u8 x a y) =
     Inr (to_string_word x @ '';'' @ v4_to_string ip a @ '';'' @ to_string_word y)"
| "value_to_string_visit ip cfg p (Div_u8_ipv6_u8 x a y) =
     Inr (to_string_word x @ '';'' @ v6_to_string ip a @ '';'' @ to_string_word y)"
| "value_to_string_visit ip cfg p (Div_u8_u8 x y) = Inr (to_string_word x @ '';'' @ to_string_word y)"
| "value_to_string_visit ip cfg p (Div_u64_u64 x y) = Inr (to_string_word x @ '';'' @ to_string_word y)"
| "value_to_string_visit ip cfg p (Div_sub_data_items sdis) =
     rbind (sub_data_items_to_string ip cfg p sdis) (\<lambda>s. Inr (''{ '' @ s @ ''} ''))"
| "value_to_string_visit ip cfg p (Div_u16_sub_data_items x sdis) =
     rbind (sub_data_items_to_string ip cfg p sdis)
       (\<lambda>s. Inr (to_string_word x @ '';'' @ ''{ '' @ s @ ''} ''))"
| "data_item_to_string ip cfg p (DataItem i v) =
     rbind (get_data_item_name cfg i p) (\<lambda>di_name.
     rbind (get_data_item_info_by_name cfg di_name) (\<lambda>di_info.
     rbind (value_to_string_visit ip cfg
              (if dii_sub_data_items di_info \<noteq> [] then Some di_info else p) v) (\<lambda>s.
     Inr (di_name @ '' '' @ s))))"
| "sub_data_items_to_string ip cfg p [] = Inr ''''"
| "sub_data_items_to_string ip cfg p (sdi # sdis) =
     rbind (data_item_to_string ip cfg p sdi) (\<lambda>s.
     rbind (sub_data_items_to_string ip cfg p sdis) (\<lambda>t. Inr (s @ '' '' @ t)))"

definition data_item_name :: "ProtocolConfig \<Rightarrow> DataItemInfo option \<Rightarrow> DataItem \<Rightarrow> string res" where
  "data_item_name cfg p di = get_data_item_name cfg (di_id di) p"

definition data_item_value_to_string ::
    "ip_text \<Rightarrow> ProtocolConfig \<Rightarrow> DataItemInfo option \<Rightarrow> DataItem \<Rightarrow> string res" where
  "data_item_value_to_string ip cfg p di = value_to_string_visit ip cfg p (di_value di)"

section \<open>When printing throws\<close>

text \<open>
  Printing a sub data item of a data item whose configuration lists no sub data items looks
  its id up in the enclosing context, while deserialization looks it up at the top level.
  The two agree when every data item whose type has sub data items lists some.
\<close>

definition subs_listed :: "ProtocolConfig \<Rightarrow> bool" where
  "subs_listed cfg =
     list_all (\<lambda>(n, info). has_sub_data_items (dii_value_type info) \<longrightarrow> dii_sub_data_items info \<noteq> [])
       (data_item_info_map cfg)"

lemma get_data_item_info_cases:
  assumes "config_ok cfg" and "get_data_item_info cfg i p = Inr info"
  obtains n where "get_data_item_name cfg i p = Inr n" "get_data_item_info_by_name cfg n = Inr info"
    "(n, info) \<in> set (data_item_info_map cfg)" "parent_ok cfg (Some info)"
proof -
  from assms obtain n where n: "get_data_item_name cfg i p = Inr n"
    "get_data_item_info_by_name cfg n = Inr info"
    by (auto simp: get_data_item_info_def res_simps)
  with assms(1) have "smap_find (data_item_info_map cfg) n = Some info"
    by (auto simp: get_data_item_info_by_name_find split: option.splits)
  with assms(1) have "(n, info) \<in> set (data_item_info_map cfg)"
    by (simp add: smap_find_set config_ok_def)
  with n get_data_item_info_parent_ok[OF assms] show ?thesis by (blast intro: that)
qed

lemma subs_listedD:
  "subs_listed cfg \<Longrightarrow> (n, info) \<in> set (data_item_info_map cfg) \<Longrightarrow>
   has_sub_data_items (dii_value_type info) \<Longrightarrow> dii_sub_data_items info \<noteq> []"
  by (auto simp: subs_listed_def list_all_iff)

lemma to_string_total:
  shows "config_ok cfg \<Longrightarrow> subs_listed cfg \<Longrightarrow> value_ok cfg info v \<Longrightarrow>
           (has_sub_data_items (value_type v) \<longrightarrow> p = Some info) \<Longrightarrow>
           \<exists>s. value_to_string_visit ip cfg p v = Inr s"
    and "config_ok cfg \<Longrightarrow> subs_listed cfg \<Longrightarrow> item_ok cfg p di \<Longrightarrow>
           \<exists>s. data_item_to_string ip cfg p di = Inr s"
    and "config_ok cfg \<Longrightarrow> subs_listed cfg \<Longrightarrow> items_ok cfg p sdis \<Longrightarrow>
           \<exists>s. sub_data_items_to_string ip cfg p sdis = Inr s"
proof (induction ip cfg p v and ip cfg p di and ip cfg p sdis arbitrary: info
    rule: value_to_string_visit_data_item_to_string_sub_data_items_to_string.induct)
  case (24 ip cfg p i v)
  then obtain info where info: "get_data_item_info cfg i p = Inr info"
    "dii_value_type info = value_type v" "value_ok cfg info v"
    by (auto split: sum.splits)
  from get_data_item_info_cases[OF "24.prems"(1) info(1)] obtain n where
    n: "get_data_item_name cfg i p = Inr n" "get_data_item_info_by_name cfg n = Inr info"
    "(n, info) \<in> set (data_item_info_map cfg)" by blast
  have "\<exists>s. value_to_string_visit ip cfg (if dii_sub_data_items info \<noteq> [] then Some info else p) v = Inr s"
    using "24.IH"[OF n(1,2) "24.prems"(1,2) info(3)] subs_listedD[OF "24.prems"(2) n(3)] info(2)
    by simp
  with n show ?case by auto
qed fastforce+

lemma to_string_error:
  shows "config_ok cfg \<Longrightarrow> parent_ok cfg p \<Longrightarrow> value_to_string_visit ip cfg p v = Inl e \<Longrightarrow> reportable e"
    and "config_ok cfg \<Longrightarrow> parent_ok cfg p \<Longrightarrow> data_item_to_string ip cfg p di = Inl e \<Longrightarrow> reportable e"
    and "config_ok cfg \<Longrightarrow> parent_ok cfg p \<Longrightarrow> sub_data_items_to_string ip cfg p sdis = Inl e \<Longrightarrow> reportable e"
proof (induction ip cfg p v and ip cfg p di and ip cfg p sdis
    rule: value_to_string_visit_data_item_to_string_sub_data_items_to_string.induct)
  case (24 ip cfg p i v)
  have "get_data_item_info cfg i p = rbind (get_data_item_name cfg i p) (get_data_item_info_by_name cfg)"
    by (rule get_data_item_info_def)
  with "24.prems"(3) consider "get_data_item_info cfg i p = Inl e"
    | n info where "get_data_item_name cfg i p = Inr n" "get_data_item_info_by_name cfg n = Inr info"
       "get_data_item_info cfg i p = Inr info"
       "value_to_string_visit ip cfg (if dii_sub_data_items info \<noteq> [] then Some info else p) v = Inl e"
    by (auto simp: res_simps)
  then show ?case
  proof cases
    case 1
    with 24 show ?thesis by (blast intro: get_data_item_info_error)
  next
    case (2 n info)
    have "parent_ok cfg (if dii_sub_data_items info \<noteq> [] then Some info else p)"
      using "24.prems" 2 get_data_item_info_parent_ok[of cfg i p info] by simp
    with "24.IH"[OF 2(1,2)] "24.prems"(1) 2(4) show ?thesis by blast
  qed
qed (auto simp: res_simps)

end
