(* ===== verification/DataItemValidate.thy ===== *)
theory DataItemValidate
  imports DataItemText
begin

text \<open>
  The validation half of \<open>src/DataItem.cpp\<close>: the range checks of \<open>validate\<close>, the
  occurrence counts of \<open>validate_occurrences\<close>, and the comparison of IP data items
  (\<open>ip_equal\<close>, \<open>ip_flags\<close>, \<open>find_ip_data_item\<close>). As in the source a validation
  function returns a description of the error it found, the empty string if there is none.
  The reference semantics of the occurrence check is \<open>occurrences_ok\<close>.
\<close>

unbundle bit_operations_syntax

section \<open>Occurrence counts\<close>

text \<open>How many of each data item id there are; the counts are \<open>unsigned int\<close>.\<close>

fun count_occurrences :: "DataItem list \<Rightarrow> (u32, u32) smap \<Rightarrow> (u32, u32) smap" where
  "count_occurrences [] occ = occ"
| "count_occurrences (di # dis) occ =
     (case smap_find occ (di_id di) of
        None \<Rightarrow> count_occurrences dis (smap_insert (di_id di) 1 occ)
      | Some n \<Rightarrow> count_occurrences dis (smap_insert (di_id di) (n + 1) occ))"

text \<open>The check of one reference against its actual count, \<open>""\<close> if it conforms.\<close>

definition check_occurs :: "SubDataItem \<Rightarrow> u32 \<Rightarrow> string res" where
  "check_occurs di_info actual =
     (if sdi_occurs di_info = ''1'' then
        Inr (if actual \<noteq> 1
             then ''exactly one of '' @ sdi_name di_info @ '' required, but got '' @ to_string_word actual
             else '''')
      else if sdi_occurs di_info = ''1+'' then
        Inr (if actual < 1
             then ''at least one of '' @ sdi_name di_info @ '' required, but got none'' else '''')
      else if sdi_occurs di_info = ''0-1'' then
        Inr (if actual > 1
             then ''no more than one of '' @ sdi_name di_info @ '' required, but got '' @ to_string_word actual
             else '''')
      else rbind (assert_that (sdi_occurs di_info = ''0+'') ''occurs'') (\<lambda>_. Inr ''''))"

text \<open>The loop over the allowed data items: the error, and the counts not yet accounted for.\<close>

fun check_occurrences ::
    "SubDataItem list \<Rightarrow> (u32, u32) smap \<Rightarrow> (string \<times> (u32, u32) smap) res" where
  "check_occurrences [] occ = Inr ('''', occ)"
| "check_occurrences (di_info # infos) occ =
     (let actual = (case smap_find occ (sdi_id di_info) of None \<Rightarrow> 0 | Some n \<Rightarrow> n);
          occ' = smap_erase (sdi_id di_info) occ
      in rbind (check_occurs di_info actual) (\<lambda>err.
         if err \<noteq> '''' then Inr (err, occ') else check_occurrences infos occ'))"

fun unexpected_data_items ::
    "ProtocolConfig \<Rightarrow> DataItemInfo option \<Rightarrow> (u32, u32) smap \<Rightarrow> string res" where
  "unexpected_data_items cfg parent [] = Inr ''''"
| "unexpected_data_items cfg parent ((i, n) # occ) =
     rbind (get_data_item_name cfg i parent) (\<lambda>name.
     rbind (unexpected_data_items cfg parent occ) (\<lambda>s.
     Inr (name @ ''('' @ to_string_word n @ '') '' @ s)))"

definition validate_occurrences ::
    "ProtocolConfig \<Rightarrow> DataItem list \<Rightarrow> SubDataItem list \<Rightarrow> DataItemInfo option \<Rightarrow> string res" where
  "validate_occurrences cfg data_items v_di_info parent_di_info =
     rbind (check_occurrences v_di_info (count_occurrences data_items [])) (\<lambda>(err, occ).
     if err = '''' \<and> occ \<noteq> []
     then rbind (unexpected_data_items cfg parent_di_info occ)
            (\<lambda>s. Inr (''unexpected data items: '' @ s))
     else Inr err)"

section \<open>Validation of a data item\<close>

definition validate_add_drop :: "u8 \<Rightarrow> string" where
  "validate_add_drop x =
     (if x > 1 then ''add/drop is '' @ to_string_word x @ '', must be 0 or 1'' else '''')"

definition validate_subnet :: "u8 \<Rightarrow> u8 \<Rightarrow> u8 \<Rightarrow> string \<Rightarrow> string" where
  "validate_subnet x subnet max_subnet max_text =
     (if x > 1 then ''add/drop is '' @ to_string_word x @ '', must be 0 or 1''
      else if subnet > max_subnet
      then ''subnet mask is '' @ to_string_word subnet @ '', must be <= '' @ max_text
      else '''')"

definition validate_status :: "ProtocolConfig \<Rightarrow> u8 \<Rightarrow> string" where
  "validate_status cfg status_id =
     (case get_status_code_name cfg (ucast status_id) of
        Inl _ \<Rightarrow> to_string_word status_id @ '' is invalid''
      | Inr _ \<Rightarrow> '''')"

definition validate_u8 :: "ProtocolConfig \<Rightarrow> DataItemInfo \<Rightarrow> u8 \<Rightarrow> string" where
  "validate_u8 cfg di_info x =
     (if dii_units di_info = ''percentage''
      then (if x > 100 then ''is '' @ to_string_word x @ '', must be <= 100'' else '''')
      else if dii_name di_info = ''Status'' then validate_status cfg x else '''')"

definition type_error :: "string \<Rightarrow> DataItemValueType \<Rightarrow> DataItemValueType \<Rightarrow> string res" where
  "type_error di_name div_type expected =
     rbind (value_type_to_string div_type) (\<lambda>s.
     rbind (value_type_to_string expected) (\<lambda>t.
     Inr (di_name @ '' type is '' @ s @ '', must be '' @ t)))"

fun validate_value :: "ProtocolConfig \<Rightarrow> DataItemInfo \<Rightarrow> DataItemValue \<Rightarrow> string res"
  and validate_item :: "ProtocolConfig \<Rightarrow> DataItemInfo option \<Rightarrow> DataItem \<Rightarrow> string res"
  and validate_items :: "ProtocolConfig \<Rightarrow> DataItemInfo option \<Rightarrow> DataItem list \<Rightarrow> string res"
where
  "validate_value cfg di_info (Div_u8 x) = Inr (validate_u8 cfg di_info x)"
| "validate_value cfg di_info (Div_u8_string x s) =
     Inr (if dii_name di_info = ''Status'' then validate_status cfg x else '''')"
| "validate_value cfg di_info (Div_u8_ipv4 x a) = Inr (validate_add_drop x)"
| "validate_value cfg di_info (Div_u8_ipv6 x a) = Inr (validate_add_drop x)"
| "validate_value cfg di_info (Div_u8_ipv4_u8 x a y) = Inr (validate_subnet x y 32 ''32'')"
| "validate_value cfg di_info (Div_u8_ipv6_u8 x a y) = Inr (validate_subnet x y 128 ''128'')"
| "validate_value cfg di_info (Div_sub_data_items sdis) =
     rbind (validate_items cfg (Some di_info) sdis) (\<lambda>err.
     if err \<noteq> '''' then Inr err
     else validate_occurrences cfg sdis (dii_sub_data_items di_info) (Some di_info))"
| "validate_value cfg di_info (Div_u16_sub_data_items x sdis) =
     rbind (validate_items cfg (Some di_info) sdis) (\<lambda>err.
     if err \<noteq> '''' then Inr err
     else validate_occurrences cfg sdis (dii_sub_data_items di_info) (Some di_info))"
| "validate_value cfg di_info _ = Inr ''''"
| "validate_item cfg parent_di_info (DataItem i v) =
     rbind (get_data_item_name cfg i parent_di_info) (\<lambda>di_name.
     rbind (get_data_item_info_by_name cfg di_name) (\<lambda>di_info.
     if dii_value_type di_info \<noteq> value_type v
     then type_error di_name (value_type v) (dii_value_type di_info)
     else rbind (validate_value cfg di_info v) (\<lambda>err.
       Inr (if err \<noteq> '''' then di_name @ '' '' @ err else err))))"
| "validate_items cfg parent_di_info [] = Inr ''''"
| "validate_items cfg parent_di_info (di # dis) =
     rbind (validate_item cfg parent_di_info di) (\<lambda>err.
     if err \<noteq> '''' then Inr err else validate_items cfg parent_di_info dis)"

section \<open>IP data items\<close>

text \<open>
  \<open>DataItemIpEqualVisitor\<close>: \<open>other\<close> has the type of the visited value, which
  \<open>ip_equal\<close> checked.
\<close>

definition ip_equal_visit :: "DataItemValue \<Rightarrow> DataItemValue \<Rightarrow> bool" where
  "ip_equal_visit other v =
     (case v of
        Div_u8_ipv4 _ a \<Rightarrow> (case other of Div_u8_ipv4 _ b \<Rightarrow> a = b | _ \<Rightarrow> False)
      | Div_u8_ipv6 _ a \<Rightarrow> (case other of Div_u8_ipv6 _ b \<Rightarrow> a = b | _ \<Rightarrow> False)
      | Div_u8_ipv4_u8 _ a m \<Rightarrow>
          (case other of Div_u8_ipv4_u8 _ b n \<Rightarrow> a = b \<and> m = n | _ \<Rightarrow> False)
      | Div_u8_ipv6_u8 _ a m \<Rightarrow>
          (case other of Div_u8_ipv6_u8 _ b n \<Rightarrow> a = b \<and> m = n | _ \<Rightarrow> False)
      | _ \<Rightarrow> False)"

definition ip_equal :: "DataItem \<Rightarrow> DataItem \<Rightarrow> bool" where
  "ip_equal di other =
     (if get_type di \<noteq> get_type other then False
      else ip_equal_visit (di_value other) (di_value di))"

definition ip_flags :: "DataItem \<Rightarrow> u8" where
  "ip_flags di =
     (case di_value di of
        Div_u8_ipv4 x _ \<Rightarrow> x
      | Div_u8_ipv6 x _ \<Rightarrow> x
      | Div_u8_ipv4_u8 x _ _ \<Rightarrow> x
      | Div_u8_ipv6_u8 x _ _ \<Rightarrow> x
      | _ \<Rightarrow> 0)"

text \<open>\<open>ip_flags() & IPFlags::add\<close>\<close>

definition ip_adding :: "DataItem \<Rightarrow> bool" where
  "ip_adding di = (ip_flags di AND 1 \<noteq> 0)"

text \<open>The first equal data item; \<open>None\<close> is the end iterator.\<close>

fun find_ip_data_item :: "DataItem \<Rightarrow> DataItem list \<Rightarrow> DataItem option" where
  "find_ip_data_item di [] = None"
| "find_ip_data_item di (x # xs) = (if ip_equal di x then Some x else find_ip_data_item di xs)"

section \<open>Reference semantics of the occurrence check\<close>

definition count_id :: "u32 \<Rightarrow> DataItem list \<Rightarrow> nat" where
  "count_id i dis = length (filter (\<lambda>di. di_id di = i) dis)"

fun occurs_ok :: "string \<Rightarrow> nat \<Rightarrow> bool" where
  "occurs_ok occurs n =
     (if occurs = ''1'' then n = 1 else if occurs = ''1+'' then 1 \<le> n
      else if occurs = ''0-1'' then n \<le> 1 else occurs = ''0+'')"

definition occurrences_ok :: "SubDataItem list \<Rightarrow> DataItem list \<Rightarrow> bool" where
  "occurrences_ok infos dis =
     (list_all (\<lambda>info. occurs_ok (sdi_occurs info) (count_id (sdi_id info) dis)) infos
      \<and> list_all (\<lambda>di. di_id di \<in> set (map sdi_id infos)) dis)"

text \<open>
  The occurrence specifications a configuration may hold: one entry per data item, with one
  of the four forms the XML schema admits.
\<close>

definition refs_wf :: "SubDataItem list \<Rightarrow> bool" where
  "refs_wf infos = (distinct (map sdi_id infos)
     \<and> list_all (\<lambda>info. sdi_occurs info \<in> {''1'', ''1+'', ''0-1'', ''0+''}) infos)"

definition occurs_wf :: "ProtocolConfig \<Rightarrow> bool" where
  "occurs_wf cfg =
     (list_all (\<lambda>(n, info). refs_wf (dii_sub_data_items info)) (data_item_info_map cfg)
      \<and> list_all (\<lambda>(i, info). refs_wf (si_data_items info)) (signal_info_map cfg)
      \<and> list_all (\<lambda>(i, info). refs_wf (si_data_items info)) (message_info_map cfg))"

lemma smap_ok_count [simp]: "smap_ok occ \<Longrightarrow> smap_ok (count_occurrences dis occ)"
  by (induction dis occ rule: count_occurrences.induct) (auto split: option.splits)

lemma smap_find_count:
  "smap_find (count_occurrences dis occ) i =
     (if count_id i dis = 0 then smap_find occ i
      else Some ((case smap_find occ i of None \<Rightarrow> 0 | Some n \<Rightarrow> n) + of_nat (count_id i dis)))"
  by (induction dis occ rule: count_occurrences.induct)
    (auto simp: count_id_def smap_simps algebra_simps split: option.splits)

lemma count_id_le: "count_id i dis \<le> length dis"
  by (simp add: count_id_def)

lemma check_occurs_iff:
  assumes "n < 2 ^ 32"
  shows "check_occurs info (of_nat n) = Inr '''' \<longleftrightarrow> occurs_ok (sdi_occurs info) n"
proof -
  have "unat (of_nat n :: u32) = n" using assms by (simp add: unat_of_nat)
  then have "(of_nat n :: u32) = 1 \<longleftrightarrow> n = 1" "(of_nat n :: u32) < 1 \<longleftrightarrow> n < 1"
    "1 < (of_nat n :: u32) \<longleftrightarrow> 1 < n"
    by (metis unat_1 of_nat_1, simp_all add: word_less_nat_alt)
  then show ?thesis by (auto simp: check_occurs_def assert_that_def)
qed


lemma check_occurrences_iff:
  assumes "smap_ok occ" and "distinct (map sdi_id infos)"
  shows "check_occurrences infos occ = Inr ('''', occ') \<longleftrightarrow>
     list_all (\<lambda>info. check_occurs info (case smap_find occ (sdi_id info) of None \<Rightarrow> 0 | Some n \<Rightarrow> n)
         = Inr '''') infos
     \<and> occ' = fold smap_erase (map sdi_id infos) occ"
  using assms
proof (induction infos arbitrary: occ)
  case (Cons info infos)
  let ?occ = "smap_erase (sdi_id info) occ"
  have "smap_find ?occ (sdi_id i) = smap_find occ (sdi_id i)" if "i \<in> set infos" for i
    using Cons.prems that by (auto simp: smap_simps image_iff)
  then have "list_all (\<lambda>i. check_occurs i (case smap_find ?occ (sdi_id i) of None \<Rightarrow> 0 | Some n \<Rightarrow> n) = Inr '''') infos
    = list_all (\<lambda>i. check_occurs i (case smap_find occ (sdi_id i) of None \<Rightarrow> 0 | Some n \<Rightarrow> n) = Inr '''') infos"
    by (auto simp: list_all_iff)
  then show ?case
    using Cons.IH[of ?occ] Cons.prems by (auto simp: res_simps Let_def)
qed auto

lemma fold_erase:
  "smap_ok occ \<Longrightarrow> smap_ok (fold smap_erase ks occ) \<and>
   smap_find (fold smap_erase ks occ) = (\<lambda>k. if k \<in> set ks then None else smap_find occ k)"
  by (induction ks arbitrary: occ) (auto simp: smap_simps fun_eq_iff)

lemma smap_empty_iff: "m = [] \<longleftrightarrow> (\<forall>k. smap_find m k = None)"
  by (cases m) (auto simp: smap_find_None)

lemma validate_occurrences_iff:
  assumes "refs_wf infos" and "length dis < 2 ^ 32"
  shows "validate_occurrences cfg dis infos parent = Inr '''' \<longleftrightarrow> occurrences_ok infos dis"
proof -
  let ?occ = "count_occurrences dis []"
  have distinct: "distinct (map sdi_id infos)" using assms(1) by (simp add: refs_wf_def)
  have actual: "(case smap_find ?occ i of None \<Rightarrow> 0 | Some n \<Rightarrow> n) = of_nat (count_id i dis)" for i
    by (simp add: smap_find_count)
  have "validate_occurrences cfg dis infos parent = Inr '''' \<longleftrightarrow> check_occurrences infos ?occ = Inr ('''', [])"
    by (auto simp: validate_occurrences_def res_simps split: if_splits)
  also have "\<dots> \<longleftrightarrow> list_all (\<lambda>info. occurs_ok (sdi_occurs info) (count_id (sdi_id info) dis)) infos
      \<and> fold smap_erase (map sdi_id infos) ?occ = []"
    using check_occurs_iff le_less_trans[OF count_id_le assms(2)]
    by (auto simp: check_occurrences_iff[OF _ distinct] actual simp del: occurs_ok.simps)
  also have "fold smap_erase (map sdi_id infos) ?occ = [] \<longleftrightarrow>
      (\<forall>k. k \<notin> set (map sdi_id infos) \<longrightarrow> count_id k dis = 0)"
    using fold_erase[of ?occ "map sdi_id infos"]
    by (auto simp: smap_empty_iff smap_find_count simp del: set_map)
  also have "\<dots> \<longleftrightarrow> list_all (\<lambda>di. di_id di \<in> set (map sdi_id infos)) dis"
    by (auto simp: count_id_def list_all_iff filter_empty_conv simp del: set_map)
  finally show ?thesis by (simp only: occurrences_ok_def)
qed

section \<open>Reference semantics of item validation\<close>

definition status_known :: "ProtocolConfig \<Rightarrow> u8 \<Rightarrow> bool" where
  "status_known cfg x = (bimap_left (status_code_map cfg) (ucast x) \<noteq> None)"

text \<open>The admissible values, given the definition of their data item.\<close>

fun value_valid :: "ProtocolConfig \<Rightarrow> DataItemInfo \<Rightarrow> DataItemValue \<Rightarrow> bool"
  and item_valid :: "ProtocolConfig \<Rightarrow> DataItemInfo option \<Rightarrow> DataItem \<Rightarrow> bool"
  and items_valid :: "ProtocolConfig \<Rightarrow> DataItemInfo option \<Rightarrow> DataItem list \<Rightarrow> bool"
where
  "value_valid cfg info (Div_u8 x) =
     ((dii_units info = ''percentage'' \<longrightarrow> unat x \<le> 100) \<and>
      (dii_units info \<noteq> ''percentage'' \<and> dii_name info = ''Status'' \<longrightarrow> status_known cfg x))"
| "value_valid cfg info (Div_u8_string x s) = (dii_name info = ''Status'' \<longrightarrow> status_known cfg x)"
| "value_valid cfg info (Div_u8_ipv4 x a) = (x \<in> {0, 1})"
| "value_valid cfg info (Div_u8_ipv6 x a) = (x \<in> {0, 1})"
| "value_valid cfg info (Div_u8_ipv4_u8 x a y) = (x \<in> {0, 1} \<and> unat y \<le> 32)"
| "value_valid cfg info (Div_u8_ipv6_u8 x a y) = (x \<in> {0, 1} \<and> unat y \<le> 128)"
| "value_valid cfg info (Div_sub_data_items sdis) =
     (items_valid cfg (Some info) sdis \<and> occurrences_ok (dii_sub_data_items info) sdis)"
| "value_valid cfg info (Div_u16_sub_data_items x sdis) =
     (items_valid cfg (Some info) sdis \<and> occurrences_ok (dii_sub_data_items info) sdis)"
| "value_valid cfg info _ = True"
| "item_valid cfg parent (DataItem i v) =
     (case get_data_item_info cfg i parent of
        Inl e \<Rightarrow> False
      | Inr info \<Rightarrow> dii_value_type info = value_type v \<and> value_valid cfg info v)"
| "items_valid cfg parent [] = True"
| "items_valid cfg parent (di # dis) = (item_valid cfg parent di \<and> items_valid cfg parent dis)"

lemma flag_values: "\<not> 1 < (x :: u8) \<longleftrightarrow> x \<in> {0, 1}"
proof -
  have "unat x = 0 \<longleftrightarrow> x = 0" by (simp add: unat_eq_0)
  moreover have "unat x = 1 \<longleftrightarrow> x = 1" by (metis unat_1 unsigned_word_eqI)
  ultimately show ?thesis by (auto simp: word_less_nat_alt)
qed

lemma type_error_nonempty: "type_error n s t \<noteq> Inr ''''"
  by (auto simp: type_error_def res_simps)

lemma validate_status_iff: "validate_status cfg x = '''' \<longleftrightarrow> status_known cfg x"
  by (auto simp: validate_status_def status_known_def get_status_code_name_def split: option.splits)

lemma validate_subnet_iff:
  "validate_subnet x y m t = '''' \<longleftrightarrow> x \<in> {0, 1} \<and> unat y \<le> unat m"
  using flag_values[of x] by (auto simp: validate_subnet_def word_less_nat_alt)

lemma validate_add_drop_iff: "validate_add_drop x = '''' \<longleftrightarrow> x \<in> {0, 1}"
  using flag_values[of x] by (auto simp: validate_add_drop_def)

lemma validate_u8_iff:
  "validate_u8 cfg info x = '''' \<longleftrightarrow> value_valid cfg info (Div_u8 x)"
  by (simp add: validate_u8_def validate_status_iff word_less_nat_alt not_less)

lemma validate_items_Inr_iff:
  assumes "\<And>di. di \<in> set dis \<Longrightarrow> validate_item cfg p di = Inr '''' \<longleftrightarrow> item_valid cfg p di"
  shows "validate_items cfg p dis = Inr '''' \<longleftrightarrow> items_valid cfg p dis"
  using assms by (induction dis) (auto simp: res_simps)

lemma occurs_wf_info:
  assumes "config_ok cfg" and "occurs_wf cfg" and "get_data_item_info cfg i p = Inr info"
  shows "refs_wf (dii_sub_data_items info)"
proof -
  from get_data_item_info_cases[OF assms(1,3)] obtain n where
    "(n, info) \<in> set (data_item_info_map cfg)" by blast
  with assms(2) show ?thesis by (auto simp: occurs_wf_def list_all_iff)
qed

lemma length_le_size_list: "length xs \<le> size_list f xs"
  by (induction xs) auto

lemma validate_iff:
  shows "config_ok cfg \<Longrightarrow> occurs_wf cfg \<Longrightarrow> refs_wf (dii_sub_data_items info) \<Longrightarrow> size v < 2 ^ 32 \<Longrightarrow>
           validate_value cfg info v = Inr '''' \<longleftrightarrow> value_valid cfg info v"
    and "config_ok cfg \<Longrightarrow> occurs_wf cfg \<Longrightarrow> size di < 2 ^ 32 \<Longrightarrow>
           validate_item cfg p di = Inr '''' \<longleftrightarrow> item_valid cfg p di"
    and "config_ok cfg \<Longrightarrow> occurs_wf cfg \<Longrightarrow> size_list size dis < 2 ^ 32 \<Longrightarrow>
           validate_items cfg p dis = Inr '''' \<longleftrightarrow> items_valid cfg p dis"
proof (induction cfg info v and cfg p di and cfg p dis
    rule: validate_value_validate_item_validate_items.induct)
  case (7 cfg info sdis)
  then have "length sdis < 2 ^ 32" using length_le_size_list[of sdis size] by simp
  with 7 show ?case
    by (auto simp: res_simps validate_occurrences_iff)
next
  case (8 cfg info x sdis)
  then have "length sdis < 2 ^ 32" using length_le_size_list[of sdis size] by simp
  with 8 show ?case
    by (auto simp: res_simps validate_occurrences_iff)
next
  case (10 cfg p i v)
  show ?case
  proof (cases "get_data_item_info cfg i p")
    case (Inl e)
    then show ?thesis by (auto simp: get_data_item_info_def res_simps)
  next
    case (Inr info)
    from get_data_item_info_cases[OF "10.prems"(1) Inr] obtain n where
      n: "get_data_item_name cfg i p = Inr n" "get_data_item_info_by_name cfg n = Inr info" by blast
    have "refs_wf (dii_sub_data_items info)" using "10.prems"(1,2) Inr by (rule occurs_wf_info)
    with "10.IH"[OF n(1,2)] "10.prems" Inr n show ?thesis
      by (auto simp: res_simps type_error_nonempty)
  qed
qed (auto simp: res_simps validate_u8_iff validate_status_iff validate_subnet_iff
    validate_add_drop_iff simp del: value_valid.simps(1))

section \<open>What an IP data item identifies\<close>

text \<open>The address or subnet a data item adds or drops, without the flags.\<close>

datatype ip_key =
    Addr4 address_v4 | Addr6 address_v6 | Subnet4 address_v4 u8 | Subnet6 address_v6 u8

fun ip_key_of_value :: "DataItemValue \<Rightarrow> ip_key option" where
  "ip_key_of_value (Div_u8_ipv4 x a) = Some (Addr4 a)"
| "ip_key_of_value (Div_u8_ipv6 x a) = Some (Addr6 a)"
| "ip_key_of_value (Div_u8_ipv4_u8 x a y) = Some (Subnet4 a y)"
| "ip_key_of_value (Div_u8_ipv6_u8 x a y) = Some (Subnet6 a y)"
| "ip_key_of_value _ = None"

definition ip_key_of :: "DataItem \<Rightarrow> ip_key option" where
  "ip_key_of di = ip_key_of_value (di_value di)"

lemma ip_equal_key: "ip_equal di other \<longleftrightarrow> ip_key_of di \<noteq> None \<and> ip_key_of di = ip_key_of other"
proof (cases "value_type (di_value di) = value_type (di_value other)")
  case True
  then show ?thesis
    by (cases "di_value di"; cases "di_value other")
      (simp_all add: ip_equal_def get_type_def ip_equal_visit_def ip_key_of_def)
next
  case False
  then show ?thesis
    by (cases "di_value di"; cases "di_value other")
      (simp_all add: ip_equal_def get_type_def ip_key_of_def)
qed

lemma find_ip_data_item_find:
  "find_ip_data_item di dis = find (\<lambda>x. ip_key_of di \<noteq> None \<and> ip_key_of di = ip_key_of x) dis"
  by (induction dis) (auto simp: ip_equal_key)

lemma find_ip_data_item_None:
  "find_ip_data_item di dis = None \<longleftrightarrow> (ip_key_of di = None \<or> ip_key_of di \<notin> set (map ip_key_of dis))"
  by (auto simp: find_ip_data_item_find find_None_iff)

lemma ip_flags_other: "ip_key_of di = None \<Longrightarrow> ip_flags di = 0"
  by (cases "di_value di") (auto simp: ip_key_of_def ip_flags_def)

section \<open>Properties\<close>

text \<open>
  C20: \<open>validate\<close> returns no error exactly for the admissible data items: the id is known in
  its context, the value has the configured type, percentages are at most 100, status codes
  are configured, add/drop flags are 0 or 1, subnet masks are at most 32 or 128 bits, and sub
  data items are themselves admissible and occur as often as configured.
\<close>

theorem validate_item_correct:
  assumes "config_ok cfg" and "occurs_wf cfg" and "size di < 2 ^ 32"
  shows "validate_item cfg parent di = Inr '''' \<longleftrightarrow> item_valid cfg parent di"
  using assms by (rule validate_iff(2))

text \<open>
  \<open>validate_occurrences\<close> returns no error exactly when every allowed data item occurs as
  often as its \<open>occurs\<close> attribute says (1, 1+, 0-1, 0+) and no other data item is there.
\<close>

lemma validate_occurrences_correct:
  assumes "refs_wf infos" and "length dis < 2 ^ 32"
  shows "validate_occurrences cfg dis infos parent = Inr '''' \<longleftrightarrow> occurrences_ok infos dis"
  using assms by (rule validate_occurrences_iff)

text \<open>
  \<open>ip_equal\<close> compares what two IP data items identify, an address or a subnet of the
  same family, and ignores the add/drop flags; on data items that identify neither it is
  false, and \<open>find_ip_data_item\<close> finds the first data item with the same address or subnet.
\<close>

lemma ip_equal_correct:
  "(ip_equal di other \<longleftrightarrow> ip_key_of di \<noteq> None \<and> ip_key_of di = ip_key_of other)
   \<and> find_ip_data_item di dis = (if ip_key_of di = None then None
         else find (\<lambda>x. ip_key_of x = ip_key_of di) dis)"
  by (auto simp: ip_equal_key find_ip_data_item_find find_None_iff eq_commute[of "ip_key_of di"])

end
