(* ===== verification/ProtocolMessage.thy ===== *)
theory ProtocolMessage
  imports DataItemValidate
begin

text \<open>
  \<open>src/ProtocolMessage.h\<close>, \<open>src/ProtocolMessage.cpp\<close>: building a signal or message in a
  byte buffer, recognising a complete message in a received stream, parsing, validation and
  the typed accessors. The object is a record that each operation takes and returns; an
  operation that throws returns the exception, and no caller goes on using the object it
  left behind. The client's \<open>get_config_parameter\<close> is the parameter \<open>client_config\<close>.
  The lemmas show that the length field always tells the truth, that a built message parses
  back to what went into it, that \<open>is_complete_message\<close> cuts a stream at the message
  boundaries, and that validation accepts exactly what the configuration allows.
\<close>

unbundle bit_operations_syntax

section \<open>Data\<close>

record ProtocolMessage =
  msg_len_index :: nat
  header_length :: nat
  msgbuf :: bytes
  signal_id :: u32
  signal_id_initialized :: bool
  is_signal :: bool
  data_items :: "DataItem list"

definition new_ProtocolMessage :: ProtocolMessage where
  "new_ProtocolMessage = \<lparr>msg_len_index = 0, header_length = 0, msgbuf = [], signal_id = 0,
     signal_id_initialized = False, is_signal = False, data_items = []\<rparr>"

text \<open>\<open>DlepClient::get_config_parameter\<close>, one function per type of parameter.\<close>

record client_config =
  cp_bool :: "string \<Rightarrow> bool res"
  cp_unsigned :: "string \<Rightarrow> u32 res"
  cp_string :: "string \<Rightarrow> string res"

section \<open>Building a message\<close>

definition pm_get_signal_id :: "ProtocolMessage \<Rightarrow> u32 res" where
  "pm_get_signal_id pm =
     (if \<not> signal_id_initialized pm
      then Inl (SignalIdNotInitialized (to_string_word (signal_id pm)))
      else Inr (signal_id pm))"

definition pm_get_signal_name :: "ProtocolConfig \<Rightarrow> ProtocolMessage \<Rightarrow> string res" where
  "pm_get_signal_name cfg pm =
     (if \<not> signal_id_initialized pm
      then Inl (SignalIdNotInitialized (to_string_word (signal_id pm)))
      else if is_signal pm then get_signal_name cfg (signal_id pm)
      else get_message_name cfg (signal_id pm))"

definition get_length :: "ProtocolMessage \<Rightarrow> nat" where
  "get_length pm = length (msgbuf pm)"

definition add_header :: "ProtocolConfig \<Rightarrow> string \<Rightarrow> ProtocolMessage \<Rightarrow> ProtocolMessage res" where
  "add_header cfg msg_name pm =
     rbind (get_signal_id cfg msg_name) (\<lambda>(sid, is_sig).
     let buf = (if is_sig \<and> length (signal_prefix cfg) > 0
                then msgbuf pm @ map byte_of_char (signal_prefix cfg) else msgbuf pm)
     in rbind (serialize_field sid (signal_id_size cfg) buf) (\<lambda>buf'.
        rbind (serialize_field (0 :: u32) (signal_length_size cfg) buf') (\<lambda>buf''.
        Inr (pm\<lparr>msg_len_index := length buf', header_length := length buf'', msgbuf := buf'',
                signal_id := sid, signal_id_initialized := True, is_signal := is_sig\<rparr>))))"

definition update_message_length :: "ProtocolConfig \<Rightarrow> ProtocolMessage \<Rightarrow> ProtocolMessage res" where
  "update_message_length cfg pm =
     rbind (assert_that (length (msgbuf pm) \<ge> header_length pm) ''msgbuf.size() >= header_length'') (\<lambda>_.
     rbind (assert_that (msg_len_index pm < length (msgbuf pm)) ''msg_len_index'') (\<lambda>_.
     rbind (serialize_at (of_nat (length (msgbuf pm) - header_length pm) :: u64)
              (signal_length_size cfg) (msgbuf pm) (msg_len_index pm)) (\<lambda>buf.
     Inr (pm\<lparr>msgbuf := buf\<rparr>))))"

text \<open>The names in the log message are looked up whether it is logged or not.\<close>

definition add_data_item :: "ProtocolConfig \<Rightarrow> DataItem \<Rightarrow> ProtocolMessage \<Rightarrow> ProtocolMessage res" where
  "add_data_item cfg di pm =
     rbind (serialize_item cfg di) (\<lambda>dibuf.
     rbind (update_message_length cfg (pm\<lparr>msgbuf := msgbuf pm @ dibuf\<rparr>)) (\<lambda>pm'.
     rbind (get_data_item_name cfg (di_id di) None) (\<lambda>_.
     rbind (pm_get_signal_name cfg pm') (\<lambda>_.
     Inr pm'))))"

fun add_data_items :: "ProtocolConfig \<Rightarrow> DataItem list \<Rightarrow> ProtocolMessage \<Rightarrow> ProtocolMessage res" where
  "add_data_items cfg [] pm = Inr pm"
| "add_data_items cfg (di # dis) pm = rbind (add_data_item cfg di pm) (add_data_items cfg dis)"

text \<open>The inner loop looks for the first allowed data item with the id.\<close>

fun add_allowed_loop ::
    "ProtocolConfig \<Rightarrow> SubDataItem list \<Rightarrow> DataItem list \<Rightarrow> ProtocolMessage \<Rightarrow> ProtocolMessage res" where
  "add_allowed_loop cfg allowed [] pm = Inr pm"
| "add_allowed_loop cfg allowed (di # dis) pm =
     rbind (if list_ex (\<lambda>difs. sdi_id difs = di_id di) allowed then add_data_item cfg di pm else Inr pm)
       (add_allowed_loop cfg allowed dis)"

definition add_allowed_data_items ::
    "ProtocolConfig \<Rightarrow> DataItem list \<Rightarrow> ProtocolMessage \<Rightarrow> ProtocolMessage res" where
  "add_allowed_data_items cfg dis pm =
     rbind (pm_get_signal_name cfg pm) (\<lambda>name.
     rbind (get_signal_info cfg name) (\<lambda>siginfo.
     add_allowed_loop cfg (si_data_items siginfo) dis pm))"

text \<open>\<open>DataItem di {name, div, protocfg}; add_data_item(di);\<close>\<close>

definition add_named ::
    "ProtocolConfig \<Rightarrow> string \<Rightarrow> DataItemValue \<Rightarrow> ProtocolMessage \<Rightarrow> ProtocolMessage res" where
  "add_named cfg name v pm =
     rbind (make_DataItem cfg name v None) (\<lambda>di. add_data_item cfg di pm)"

definition add_version :: "ProtocolConfig \<Rightarrow> ProtocolMessage \<Rightarrow> ProtocolMessage res" where
  "add_version cfg pm =
     add_named cfg ''Version'' (Div_a2_u16 (fst (version cfg)) (snd (version cfg))) pm"

text \<open>Unknown units leave the value in seconds; an unknown value type adds nothing.\<close>

definition heartbeat_in_units :: "string \<Rightarrow> u32 \<Rightarrow> u32" where
  "heartbeat_in_units units seconds =
     (if units = ''milliseconds'' then seconds * 1000
      else if units = ''microseconds'' then seconds * 1000000 else seconds)"

definition add_heartbeat_interval ::
    "ProtocolConfig \<Rightarrow> client_config \<Rightarrow> ProtocolMessage \<Rightarrow> ProtocolMessage res" where
  "add_heartbeat_interval cfg client pm =
     rbind (cp_unsigned client ''heartbeat-interval'') (\<lambda>seconds.
     rbind (get_data_item_info_by_name cfg ''Heartbeat_Interval'') (\<lambda>di_info.
     let heartbeat_interval = heartbeat_in_units (dii_units di_info) seconds
     in if dii_value_type di_info = T_u16
        then add_named cfg ''Heartbeat_Interval'' (Div_u16 (ucast heartbeat_interval)) pm
        else if dii_value_type di_info = T_u32
        then add_named cfg ''Heartbeat_Interval'' (Div_u32 heartbeat_interval) pm
        else rbind (value_type_to_string (dii_value_type di_info)) (\<lambda>_. Inr pm)))"

fun peer_type_optional :: "u32 \<Rightarrow> SubDataItem list \<Rightarrow> bool" where
  "peer_type_optional i [] = False"
| "peer_type_optional i (difs # rest) =
     (if sdi_id difs = i then (case sdi_occurs difs of [] \<Rightarrow> False | c # _ \<Rightarrow> c = CHR ''0'')
      else peer_type_optional i rest)"

text \<open>The rest of \<open>add_peer_type\<close>, once the text is known.\<close>

definition add_peer_type_value ::
    "ProtocolConfig \<Rightarrow> client_config \<Rightarrow> string \<Rightarrow> ProtocolMessage \<Rightarrow> ProtocolMessage res" where
  "add_peer_type_value cfg client peer_type pm =
     rbind (get_data_item_value_type cfg ''Peer_Type'') (\<lambda>div_type.
     if div_type = T_string then add_named cfg ''Peer_Type'' (Div_string peer_type) pm
     else rbind (try_catch (cp_unsigned client ''peer-flags'') is_BadParameterName (Inr 0)) (\<lambda>peer_flags.
       add_named cfg ''Peer_Type'' (Div_u8_string (ucast peer_flags) peer_type) pm))"

definition add_peer_type ::
    "ProtocolConfig \<Rightarrow> client_config \<Rightarrow> ProtocolMessage \<Rightarrow> ProtocolMessage res" where
  "add_peer_type cfg client pm =
     (case cp_string client ''peer-type'' of
        Inr peer_type \<Rightarrow> add_peer_type_value cfg client peer_type pm
      | Inl e \<Rightarrow>
          if is_BadParameterName e
          then rbind (pm_get_signal_name cfg pm) (\<lambda>name.
               rbind (get_signal_info cfg name) (\<lambda>siginfo.
               rbind (get_data_item_id cfg ''Peer_Type'' None) (\<lambda>i.
               if peer_type_optional i (si_data_items siginfo) then Inr pm
               else add_peer_type_value cfg client '''' pm)))
          else Inl e)"

fun add_experiment_loop ::
    "ProtocolConfig \<Rightarrow> string list \<Rightarrow> ProtocolMessage \<Rightarrow> ProtocolMessage res" where
  "add_experiment_loop cfg [] pm = Inr pm"
| "add_experiment_loop cfg (en # ens) pm =
     rbind (add_named cfg ''Experimental_Definition'' (Div_string en) pm) (add_experiment_loop cfg ens)"

definition add_experiment_names :: "ProtocolConfig \<Rightarrow> ProtocolMessage \<Rightarrow> ProtocolMessage res" where
  "add_experiment_names cfg pm = add_experiment_loop cfg (get_experiment_names cfg) pm"

text \<open>
  The status code the source tries next when \<open>status_name\<close> is not configured. The loop
  around it may run for ever; \<open>find_status_code\<close> returns \<open>Hang\<close> when its fuel runs out,
  and four rounds are enough to tell (lemma \<open>find_status_code_fuel\<close>).
\<close>

definition remap_status :: "string \<Rightarrow> string" where
  "remap_status status_name =
     (if status_name = ''Invalid_Message'' then ''Invalid_Data''
      else if status_name = ''Invalid_Destination'' \<or> status_name = ''Inconsistent_Data''
      then ''Invalid_Message''
      else if status_name = ''Invalid_Data'' then ''Invalid_Message''
      else if status_name = ''Not_Interested'' then ''Request_Denied''
      else ''Unknown_Message'')"

fun find_status_code :: "nat \<Rightarrow> ProtocolConfig \<Rightarrow> string \<Rightarrow> u32 res" where
  "find_status_code 0 cfg status_name = Inl Hang"
| "find_status_code (Suc fuel) cfg status_name =
     (case get_status_code_id cfg status_name of
        Inr i \<Rightarrow> Inr i
      | Inl _ \<Rightarrow> find_status_code fuel cfg (remap_status status_name))"

definition add_status ::
    "ProtocolConfig \<Rightarrow> string \<Rightarrow> string \<Rightarrow> ProtocolMessage \<Rightarrow> ProtocolMessage res" where
  "add_status cfg status_name reason pm =
     rbind (find_status_code 4 cfg status_name) (\<lambda>i.
     rbind (get_data_item_value_type cfg ''Status'') (\<lambda>div_type.
     add_named cfg ''Status''
       (if div_type = T_u8 then Div_u8 (ucast i) else Div_u8_string (ucast i) reason) pm))"

definition add_extensions :: "ProtocolConfig \<Rightarrow> u32 list \<Rightarrow> ProtocolMessage \<Rightarrow> ProtocolMessage res" where
  "add_extensions cfg extensions pm = add_named cfg ''Extensions_Supported'' (Div_v_extid extensions) pm"

definition add_mac :: "ProtocolConfig \<Rightarrow> DlepMac \<Rightarrow> ProtocolMessage \<Rightarrow> ProtocolMessage res" where
  "add_mac cfg mac pm = add_named cfg ''MAC_Address'' (Div_dlepmac mac) pm"

fun add_common_loop ::
    "ProtocolConfig \<Rightarrow> client_config \<Rightarrow> SubDataItem list \<Rightarrow> ProtocolMessage \<Rightarrow> ProtocolMessage res" where
  "add_common_loop cfg client [] pm = Inr pm"
| "add_common_loop cfg client (difs # rest) pm =
     rbind (get_data_item_name cfg (sdi_id difs) None) (\<lambda>di_name.
     rbind (if di_name = ''Version'' then add_version cfg pm
            else if di_name = ''Heartbeat_Interval'' then add_heartbeat_interval cfg client pm
            else if di_name = ''Peer_Type'' then add_peer_type cfg client pm
            else if di_name = ''Experimental_Definition'' then add_experiment_names cfg pm
            else if di_name = ''Status'' then add_status cfg ''Success'' '''' pm
            else Inr pm)
       (add_common_loop cfg client rest))"

definition add_common_data_items ::
    "ProtocolConfig \<Rightarrow> client_config \<Rightarrow> ProtocolMessage \<Rightarrow> ProtocolMessage res" where
  "add_common_data_items cfg client pm =
     rbind (pm_get_signal_name cfg pm) (\<lambda>name.
     rbind (get_signal_info cfg name) (\<lambda>siginfo.
     add_common_loop cfg client (si_data_items siginfo) pm))"

text \<open>\<open>resize\<close> to more than the current size appends zeros.\<close>

definition resize :: "nat \<Rightarrow> bytes \<Rightarrow> bytes" where
  "resize n buf = take n buf @ replicate (n - length buf) 0"

definition clear_data_items :: "ProtocolConfig \<Rightarrow> ProtocolMessage \<Rightarrow> ProtocolMessage res" where
  "clear_data_items cfg pm =
     rbind (assert_that (header_length pm > 0) ''header_length > 0'') (\<lambda>_.
     rbind (update_message_length cfg (pm\<lparr>msgbuf := resize (header_length pm) (msgbuf pm)\<rparr>)) (\<lambda>pm'.
     Inr (pm'\<lparr>data_items := []\<rparr>)))"

section \<open>Receiving a message\<close>

text \<open>The result and the output parameter \<open>msg_size\<close>, a \<open>std::size_t\<close>.\<close>

definition is_complete_message :: "ProtocolConfig \<Rightarrow> bytes \<Rightarrow> u64 \<Rightarrow> (bool \<times> u64) res" where
  "is_complete_message cfg buf msg_size =
     (let header_size = signal_id_size cfg + signal_length_size cfg
      in if length buf < header_size then Inr (False, msg_size)
         else rbind (deserialize_field (signal_id_size cfg) buf) (\<lambda>(sid :: u32, buf').
              rbind (deserialize_field (signal_length_size cfg) buf') (\<lambda>(signal_len :: u64, _).
              let msg_size' = of_nat header_size + signal_len
              in Inr (length buf \<ge> unat msg_size', msg_size'))))"

text \<open>The bytes after the prefix, or the text of the mismatch.\<close>

fun match_prefix :: "string \<Rightarrow> string \<Rightarrow> bytes \<Rightarrow> string + bytes" where
  "match_prefix pre [] it = Inr it"
| "match_prefix pre (ch # chs) (b # it) =
     (if b \<noteq> byte_of_char ch
      then Inl (''signal prefix '' @ pre @ '' mismatch: '' @ [char_of_byte b] @ '' != '' @ [ch])
      else match_prefix pre chs it)"
| "match_prefix pre (ch # chs) [] = Inl ''''"

text \<open>One round of the loop: the id and length for the log, then the data item itself.\<close>

definition parse_data_item ::
    "ip_text \<Rightarrow> ProtocolConfig \<Rightarrow> bytes \<Rightarrow> (DataItem \<times> bytes) res" where
  "parse_data_item ip cfg it =
     rbind (deserialize_field (data_item_id_size cfg) it) (\<lambda>(di_id :: u32, it1).
     rbind (deserialize_field (data_item_length_size cfg) it1) (\<lambda>(di_len :: u64, _).
     rbind (data_item_deserialize cfg None it) (\<lambda>(di, it').
     rbind (data_item_to_string ip cfg None di) (\<lambda>_. Inr (di, it')))))"

text \<open>The data items read before the end, or before an exception.\<close>

function parse_data_items ::
    "ip_text \<Rightarrow> ProtocolConfig \<Rightarrow> bytes \<Rightarrow> DataItem list \<times> exn option" where
  "parse_data_items ip cfg it =
     (if it = [] then ([], None)
      else case parse_data_item ip cfg it of
             Inl e \<Rightarrow> ([], Some e)
           | Inr (di, it') \<Rightarrow>
               if length it' < length it
               then let (dis, e) = parse_data_items ip cfg it' in (di # dis, e)
               else ([], Some Hang))"
  by auto
termination
  by (relation "measure (\<lambda>(ip, cfg, it). length it)") auto

declare parse_data_items.simps [simp del]

text \<open>The \<open>try\<close> block: the object as it is at the end or at the exception.\<close>

definition parse_body ::
    "ip_text \<Rightarrow> ProtocolConfig \<Rightarrow> bytes \<Rightarrow> ProtocolMessage \<Rightarrow> ProtocolMessage \<times> exn option" where
  "parse_body ip cfg it pm =
     (case deserialize_field (signal_id_size cfg) it of
        Inl e \<Rightarrow> (pm, Some e)
      | Inr (sid, it1) \<Rightarrow>
          (let pm1 = pm\<lparr>signal_id := sid, signal_id_initialized := True\<rparr>
           in case rbind (deserialize_field (signal_length_size cfg) it1) (\<lambda>(signal_len :: u64, it2).
                   rbind (pm_get_signal_name cfg pm1) (\<lambda>_. Inr it2)) of
                Inl e \<Rightarrow> (pm1, Some e)
              | Inr it2 \<Rightarrow>
                  (let (dis, e) = parse_data_items ip cfg it2 in (pm1\<lparr>data_items := dis\<rparr>, e))))"

definition parse_bailout :: "string \<Rightarrow> string \<Rightarrow> string" where
  "parse_bailout log_prefix err = (if err \<noteq> '''' then err @ '' '' @ log_prefix else err)"

definition parse_finish ::
    "string \<Rightarrow> ProtocolMessage \<times> exn option \<Rightarrow> (ProtocolMessage \<times> string) res" where
  "parse_finish log_prefix r =
     (case r of
        (pm, None) \<Rightarrow> Inr (pm, '''')
      | (pm, Some e) \<Rightarrow>
          if is_std_exception e then Inr (pm, parse_bailout log_prefix (what e)) else Inl e)"

definition parse ::
    "ip_text \<Rightarrow> ProtocolConfig \<Rightarrow> string \<Rightarrow> ProtocolMessage \<Rightarrow> (ProtocolMessage \<times> string) res" where
  "parse ip cfg log_prefix pm =
     (let pm0 = pm\<lparr>data_items := []\<rparr>
      in if is_signal pm then
           if length (msgbuf pm) \<le> length (signal_prefix cfg)
           then Inr (pm0, parse_bailout log_prefix
                  (''signal is too short to have expected prefix '' @ signal_prefix cfg))
           else (case match_prefix (signal_prefix cfg) (signal_prefix cfg) (msgbuf pm) of
                   Inl err \<Rightarrow> Inr (pm0, parse_bailout log_prefix err)
                 | Inr it \<Rightarrow> parse_finish log_prefix (parse_body ip cfg it pm0))
         else parse_finish log_prefix (parse_body ip cfg (msgbuf pm) pm0))"

definition parse_buffer ::
    "ip_text \<Rightarrow> ProtocolConfig \<Rightarrow> bytes \<Rightarrow> bool \<Rightarrow> string \<Rightarrow> ProtocolMessage
     \<Rightarrow> (ProtocolMessage \<times> string) res" where
  "parse_buffer ip cfg buf is_sig log_prefix pm =
     parse ip cfg log_prefix (pm\<lparr>msgbuf := buf, is_signal := is_sig\<rparr>)"

definition validate_sender :: "SignalInfo \<Rightarrow> bool \<Rightarrow> string" where
  "validate_sender siginfo modem_sender =
     (if si_flags siginfo AND (if modem_sender then flag_modem_sends else flag_router_sends) = 0
      then ''cannot be sent by '' @ (if modem_sender then ''modem'' else ''router'')
      else '''')"

definition validate :: "ProtocolConfig \<Rightarrow> bool \<Rightarrow> ProtocolMessage \<Rightarrow> string res" where
  "validate cfg modem_sender pm =
     rbind (pm_get_signal_name cfg pm) (\<lambda>signal_name.
     rbind (get_signal_info cfg signal_name) (\<lambda>siginfo.
     rbind (let err = validate_sender siginfo modem_sender
            in if err = ''''
               then validate_occurrences cfg (data_items pm) (si_data_items siginfo) None
               else Inr err) (\<lambda>err.
     rbind (if err = '''' then validate_items cfg None (data_items pm) else Inr err) (\<lambda>err.
     Inr (if err \<noteq> '''' then signal_name @ '' '' @ err else err)))))"

definition parse_and_validate_buffer ::
    "ip_text \<Rightarrow> ProtocolConfig \<Rightarrow> bytes \<Rightarrow> bool \<Rightarrow> bool \<Rightarrow> string \<Rightarrow> ProtocolMessage
     \<Rightarrow> (ProtocolMessage \<times> string) res" where
  "parse_and_validate_buffer ip cfg buf is_sig modem_sender log_prefix pm =
     rbind (parse_buffer ip cfg buf is_sig log_prefix pm) (\<lambda>(pm', err).
     if err \<noteq> '''' then Inr (pm', err)
     else rbind (validate cfg modem_sender pm') (\<lambda>err. Inr (pm', err)))"

definition parse_and_validate ::
    "ip_text \<Rightarrow> ProtocolConfig \<Rightarrow> bool \<Rightarrow> string \<Rightarrow> ProtocolMessage \<Rightarrow> (ProtocolMessage \<times> string) res" where
  "parse_and_validate ip cfg modem_sender log_prefix pm =
     rbind (parse ip cfg log_prefix pm) (\<lambda>(pm', err).
     if err \<noteq> '''' then Inr (pm', err)
     else rbind (validate cfg modem_sender pm') (\<lambda>err. Inr (pm', err)))"

definition rebuild_from_data_items ::
    "ip_text \<Rightarrow> ProtocolConfig \<Rightarrow> bool \<Rightarrow> DataItem list \<Rightarrow> ProtocolMessage
     \<Rightarrow> (ProtocolMessage \<times> string) res" where
  "rebuild_from_data_items ip cfg modem_sender rebuild_data_items pm =
     (if \<not> signal_id_initialized pm
      then Inl (SignalIdNotInitialized (to_string_word (signal_id pm)))
      else rbind (clear_data_items cfg pm) (\<lambda>pm1.
           rbind (add_data_items cfg rebuild_data_items pm1) (\<lambda>pm2.
           parse_and_validate ip cfg modem_sender ''rebuild_from_data_items'' pm2)))"

section \<open>Accessors\<close>

text \<open>
  \<open>get_data_item_value<T>\<close>: \<open>get\<close> is \<open>boost::get<T>\<close>, \<open>None\<close> when the variant holds
  another type.
\<close>

fun find_value :: "string \<Rightarrow> (DataItemValue \<Rightarrow> 'a option) \<Rightarrow> u32 \<Rightarrow> DataItem list \<Rightarrow> 'a res" where
  "find_value name get i [] = Inl (DataItemNotPresent name)"
| "find_value name get i (di # dis) =
     (if di_id di = i
      then (case get (di_value di) of None \<Rightarrow> Inl (DataItemWrongType name) | Some v \<Rightarrow> Inr v)
      else find_value name get i dis)"

definition get_data_item_value ::
    "ProtocolConfig \<Rightarrow> (DataItemValue \<Rightarrow> 'a option) \<Rightarrow> string \<Rightarrow> ProtocolMessage \<Rightarrow> 'a res" where
  "get_data_item_value cfg get name pm =
     rbind (get_data_item_id cfg name None)
       (\<lambda>i. find_value name get i (data_items pm))"

fun find_values :: "string \<Rightarrow> (DataItemValue \<Rightarrow> 'a option) \<Rightarrow> u32 \<Rightarrow> DataItem list \<Rightarrow> 'a list res" where
  "find_values name get i [] = Inr []"
| "find_values name get i (di # dis) =
     (if di_id di = i
      then (case get (di_value di) of
              None \<Rightarrow> Inl (DataItemWrongType name)
            | Some v \<Rightarrow> rbind (find_values name get i dis) (\<lambda>vs. Inr (v # vs)))
      else find_values name get i dis)"

definition get_data_item_values ::
    "ProtocolConfig \<Rightarrow> (DataItemValue \<Rightarrow> 'a option) \<Rightarrow> string \<Rightarrow> ProtocolMessage \<Rightarrow> 'a list res" where
  "get_data_item_values cfg get name pm =
     rbind (get_data_item_id cfg name None)
       (\<lambda>i. find_values name get i (data_items pm))"

definition get_data_item_exists :: "ProtocolConfig \<Rightarrow> string \<Rightarrow> ProtocolMessage \<Rightarrow> bool res" where
  "get_data_item_exists cfg name pm =
     rbind (get_data_item_id cfg name None)
       (\<lambda>i. Inr (list_ex (\<lambda>di. di_id di = i) (data_items pm)))"

text \<open>\<open>boost::get<T>\<close> for the types the accessors ask for.\<close>

definition as_u8 :: "DataItemValue \<Rightarrow> u8 option" where
  "as_u8 v = (case v of Div_u8 x \<Rightarrow> Some x | _ \<Rightarrow> None)"

definition as_u16 :: "DataItemValue \<Rightarrow> u16 option" where
  "as_u16 v = (case v of Div_u16 x \<Rightarrow> Some x | _ \<Rightarrow> None)"

definition as_u32 :: "DataItemValue \<Rightarrow> u32 option" where
  "as_u32 v = (case v of Div_u32 x \<Rightarrow> Some x | _ \<Rightarrow> None)"

definition as_string :: "DataItemValue \<Rightarrow> string option" where
  "as_string v = (case v of Div_string s \<Rightarrow> Some s | _ \<Rightarrow> None)"

definition as_u8_string :: "DataItemValue \<Rightarrow> (u8 \<times> string) option" where
  "as_u8_string v = (case v of Div_u8_string x s \<Rightarrow> Some (x, s) | _ \<Rightarrow> None)"

definition as_dlepmac :: "DataItemValue \<Rightarrow> DlepMac option" where
  "as_dlepmac v = (case v of Div_dlepmac m \<Rightarrow> Some m | _ \<Rightarrow> None)"

definition as_extids :: "DataItemValue \<Rightarrow> u32 list option" where
  "as_extids v = (case v of Div_v_extid xs \<Rightarrow> Some xs | _ \<Rightarrow> None)"

definition as_ipv4 :: "DataItemValue \<Rightarrow> (u8 \<times> address_v4) option" where
  "as_ipv4 v = (case v of Div_u8_ipv4 x a \<Rightarrow> Some (x, a) | _ \<Rightarrow> None)"

definition as_ipv6 :: "DataItemValue \<Rightarrow> (u8 \<times> address_v6) option" where
  "as_ipv6 v = (case v of Div_u8_ipv6 x a \<Rightarrow> Some (x, a) | _ \<Rightarrow> None)"

definition as_ipv4_u16 :: "DataItemValue \<Rightarrow> (u8 \<times> address_v4 \<times> u16) option" where
  "as_ipv4_u16 v = (case v of Div_u8_ipv4_u16 x a p \<Rightarrow> Some (x, a, p) | _ \<Rightarrow> None)"

definition as_ipv6_u16 :: "DataItemValue \<Rightarrow> (u8 \<times> address_v6 \<times> u16) option" where
  "as_ipv6_u16 v = (case v of Div_u8_ipv6_u16 x a p \<Rightarrow> Some (x, a, p) | _ \<Rightarrow> None)"

definition get_mac :: "ProtocolConfig \<Rightarrow> ProtocolMessage \<Rightarrow> DlepMac res" where
  "get_mac cfg pm = get_data_item_value cfg as_dlepmac ''MAC_Address'' pm"

definition get_peer_type :: "ProtocolConfig \<Rightarrow> ProtocolMessage \<Rightarrow> string res" where
  "get_peer_type cfg pm =
     rbind (get_data_item_value_type cfg ''Peer_Type'') (\<lambda>div_type.
     if div_type = T_string then get_data_item_value cfg as_string ''Peer_Type'' pm
     else rbind (get_data_item_value cfg as_u8_string ''Peer_Type'' pm) (\<lambda>(flags, s). Inr s))"

definition get_status :: "ProtocolConfig \<Rightarrow> ProtocolMessage \<Rightarrow> string res" where
  "get_status cfg pm =
     rbind (get_data_item_value_type cfg ''Status'') (\<lambda>div_type.
     rbind (if div_type = T_u8 then get_data_item_value cfg as_u8 ''Status'' pm
            else rbind (get_data_item_value cfg as_u8_string ''Status'' pm) (\<lambda>(x, s). Inr x))
       (\<lambda>x. get_status_code_name cfg (ucast x)))"

definition pm_get_experiment_names :: "ProtocolConfig \<Rightarrow> ProtocolMessage \<Rightarrow> string list res" where
  "pm_get_experiment_names cfg pm = get_data_item_values cfg as_string ''Experimental_Definition'' pm"

definition get_heartbeat_interval :: "ProtocolConfig \<Rightarrow> ProtocolMessage \<Rightarrow> u32 res" where
  "get_heartbeat_interval cfg pm =
     rbind (get_data_item_value_type cfg ''Heartbeat_Interval'') (\<lambda>div_type.
     if div_type = T_u16
     then rbind (get_data_item_value cfg as_u16 ''Heartbeat_Interval'' pm) (\<lambda>v. Inr (ucast v))
     else if div_type = T_u32 then get_data_item_value cfg as_u32 ''Heartbeat_Interval'' pm
     else Inl (DataItemWrongType ''Heartbeat_Interval''))"

definition get_extensions :: "ProtocolConfig \<Rightarrow> ProtocolMessage \<Rightarrow> u32 list res" where
  "get_extensions cfg pm = get_data_item_value cfg as_extids ''Extensions_Supported'' pm"

definition get_port :: "ProtocolConfig \<Rightarrow> ProtocolMessage \<Rightarrow> u16 res" where
  "get_port cfg pm = get_data_item_value cfg as_u16 ''Port'' pm"

definition get_ipv4_address :: "ProtocolConfig \<Rightarrow> ProtocolMessage \<Rightarrow> (u8 \<times> address_v4) res" where
  "get_ipv4_address cfg pm = get_data_item_value cfg as_ipv4 ''IPv4_Address'' pm"

definition get_ipv6_address :: "ProtocolConfig \<Rightarrow> ProtocolMessage \<Rightarrow> (u8 \<times> address_v6) res" where
  "get_ipv6_address cfg pm = get_data_item_value cfg as_ipv6 ''IPv6_Address'' pm"

definition get_ipv4_conn_point ::
    "ProtocolConfig \<Rightarrow> ProtocolMessage \<Rightarrow> (u8 \<times> address_v4 \<times> u16) res" where
  "get_ipv4_conn_point cfg pm = get_data_item_value cfg as_ipv4_u16 ''IPv4_Connection_Point'' pm"

definition get_ipv6_conn_point ::
    "ProtocolConfig \<Rightarrow> ProtocolMessage \<Rightarrow> (u8 \<times> address_v6 \<times> u16) res" where
  "get_ipv6_conn_point cfg pm = get_data_item_value cfg as_ipv6_u16 ''IPv6_Connection_Point'' pm"

fun metrics_and_ipaddrs :: "ProtocolConfig \<Rightarrow> DataItem list \<Rightarrow> DataItem list res" where
  "metrics_and_ipaddrs cfg [] = Inr []"
| "metrics_and_ipaddrs cfg (di # dis) =
     rbind (is_metric cfg (di_id di) None) (\<lambda>m.
     rbind (if m then Inr True else is_ipaddr cfg (di_id di) None) (\<lambda>keep.
     rbind (metrics_and_ipaddrs cfg dis) (\<lambda>rest. Inr (if keep then di # rest else rest))))"

definition get_metrics_and_ipaddrs :: "ProtocolConfig \<Rightarrow> ProtocolMessage \<Rightarrow> DataItem list res" where
  "get_metrics_and_ipaddrs cfg pm = metrics_and_ipaddrs cfg (data_items pm)"

definition get_data_items_no_mac :: "ProtocolConfig \<Rightarrow> ProtocolMessage \<Rightarrow> DataItem list res" where
  "get_data_items_no_mac cfg pm =
     rbind (get_data_item_id cfg ''MAC_Address'' None)
       (\<lambda>mac_id. Inr (filter (\<lambda>di. di_id di \<noteq> mac_id) (data_items pm)))"

section \<open>The layout of a built message\<close>

text \<open>The data items one after the other, as a message carries them.\<close>

fun encode_items :: "ProtocolConfig \<Rightarrow> DataItem list \<Rightarrow> bytes res" where
  "encode_items cfg [] = Inr []"
| "encode_items cfg (di # dis) =
     rbind (serialize_item cfg di) (\<lambda>b. rbind (encode_items cfg dis) (\<lambda>bs. Inr (b @ bs)))"

definition header_bytes :: "ProtocolConfig \<Rightarrow> ProtocolMessage \<Rightarrow> bytes" where
  "header_bytes cfg pm =
     (if is_signal pm then map byte_of_char (signal_prefix cfg) else [])
     @ serialize_loop (signal_id pm) (signal_id_size cfg)"

text \<open>Prefix and id, the length of the data items in the length field, the data items.\<close>

definition built :: "ProtocolConfig \<Rightarrow> ProtocolMessage \<Rightarrow> bytes \<Rightarrow> bool" where
  "built cfg pm body \<longleftrightarrow>
     signal_id_initialized pm \<and>
     unat (signal_id pm) < 256 ^ signal_id_size cfg \<and>
     length body < 256 ^ signal_length_size cfg \<and>
     msg_len_index pm = length (header_bytes cfg pm) \<and>
     header_length pm = length (header_bytes cfg pm) + signal_length_size cfg \<and>
     msgbuf pm = header_bytes cfg pm
       @ serialize_loop (of_nat (length body) :: u64) (signal_length_size cfg) @ body"

lemma serialize_loop_zero: "serialize_loop (0 :: 'a::len word) n = replicate n 0"
  by (induction n) auto

lemma field_bound_64: "field_size_ok n \<Longrightarrow> (256::nat) ^ n \<le> 2 ^ 64"
proof -
  assume "field_size_ok n"
  then have "(256::nat) ^ n \<le> 256 ^ 8" by (intro power_increasing) (simp_all add: field_size_ok_def)
  then show ?thesis by simp
qed

lemma config_ok_sizes:
  assumes "config_ok cfg"
  shows "field_size_ok (signal_length_size cfg)" "field_size_ok (signal_id_size cfg)"
    "field_size_ok (data_item_length_size cfg)" "field_size_ok (data_item_id_size cfg)"
  using assms by (simp_all add: config_ok_def)

lemma new_ProtocolMessage_simps [simp]:
  "msgbuf new_ProtocolMessage = []" "data_items new_ProtocolMessage = []"
  by (simp_all add: new_ProtocolMessage_def)

lemma add_header_built:
  assumes "add_header cfg name new_ProtocolMessage = Inr pm"
  shows "built cfg pm [] \<and> data_items pm = [] \<and> get_signal_id cfg name = Inr (signal_id pm, is_signal pm)"
proof -
  from assms obtain sid is_sig buf' buf'' where h:
    "get_signal_id cfg name = Inr (sid, is_sig)"
    "serialize_field sid (signal_id_size cfg)
       (if is_sig \<and> length (signal_prefix cfg) > 0 then map byte_of_char (signal_prefix cfg) else []) = Inr buf'"
    "serialize_field (0 :: u32) (signal_length_size cfg) buf' = Inr buf''"
    "pm = new_ProtocolMessage\<lparr>msg_len_index := length buf', header_length := length buf'', msgbuf := buf'',
                signal_id := sid, signal_id_initialized := True, is_signal := is_sig\<rparr>"
    by (auto simp: add_header_def res_simps Let_def split: prod.splits cong: if_cong)
  note fields = serialize_field_Inr[OF h(2)] serialize_field_Inr[OF h(3)]
  have pm: "msg_len_index pm = length buf'" "header_length pm = length buf''" "msgbuf pm = buf''"
    "signal_id pm = sid" "signal_id_initialized pm" "is_signal pm = is_sig" "data_items pm = []"
    by (simp_all add: h(4))
  have "header_bytes cfg pm = buf'"
    using fields(1) pm by (auto simp: header_bytes_def)
  with fields h(1) pm show ?thesis
    by (simp add: built_def serialize_loop_zero)
qed

lemma serialize_at_error:
  assumes "8 dvd LENGTH('a)" and "\<not> unat (v :: 'a::len word) < 256 ^ n"
  shows "\<exists>s. serialize_at v n buf it = Inl (Invalid_Argument s)"
  using assms word_and_serialize_mask[of v n] unat_less_sizeof[OF assms(1), of n v]
  by (cases "sizeof TYPE('a word) \<le> n") (auto simp: serialize_at_def)

text \<open>\<open>update_message_length\<close> on a buffer of header, length field and body.\<close>

lemma update_message_length_layout:
  assumes "config_ok cfg" and "length l = signal_length_size cfg" and "length body < 2 ^ 64"
    and "msgbuf pm = h @ l @ body" and "msg_len_index pm = length h"
    and "header_length pm = length h + signal_length_size cfg"
  shows "\<exists>s. update_message_length cfg pm =
     (if length body < 256 ^ signal_length_size cfg
      then Inr (pm\<lparr>msgbuf := h @ serialize_loop (of_nat (length body) :: u64) (signal_length_size cfg) @ body\<rparr>)
      else Inl (Invalid_Argument s))"
proof -
  let ?n = "signal_length_size cfg" and ?len = "of_nat (length body) :: u64"
  have n: "0 < ?n" using config_ok_sizes(1)[OF assms(1)] by (simp add: field_size_ok_def)
  have unat: "unat ?len = length body"
    using assms(3) by (simp only: unat_of_nat) simp
  have upd: "update_message_length cfg pm =
      rbind (serialize_at ?len ?n (h @ l @ body) (length h)) (\<lambda>buf. Inr (pm\<lparr>msgbuf := buf\<rparr>))"
    using n assms(2) by (simp add: update_message_length_def assms(4-6) assert_that_def)
  show ?thesis
  proof (cases "length body < 256 ^ ?n")
    case True
    have "serialize_at ?len ?n (h @ l @ body) (length h)
        = Inr (take (length h) (h @ l @ body) @ serialize_loop ?len ?n @ drop (length h + ?n) (h @ l @ body))"
      using True unat n assms(2) by (intro serialize_at_overwrite) simp_all
    then have "serialize_at ?len ?n (h @ l @ body) (length h) = Inr (h @ serialize_loop ?len ?n @ body)"
      by (simp add: assms(2))
    with True show ?thesis by (simp only: upd if_True rbind_Inr) simp
  next
    case False
    with unat obtain s where "serialize_at ?len ?n (h @ l @ body) (length h) = Inl (Invalid_Argument s)"
      using serialize_at_error[of ?len ?n] by auto
    with False show ?thesis by (simp only: upd if_False rbind_Inl) blast
  qed
qed

lemma overwrite_loop_length: "overwrite_loop buf it bs = Inr buf' \<Longrightarrow> length buf' = length buf"
  by (induction buf it bs rule: overwrite_loop.induct) (auto split: if_splits)

lemma update_message_length_length:
  assumes "update_message_length cfg pm = Inr pm'"
  shows "length (msgbuf pm') = length (msgbuf pm)"
proof -
  from assms obtain v :: u64 and buf where "msg_len_index pm < length (msgbuf pm)"
    "serialize_at v (signal_length_size cfg) (msgbuf pm) (msg_len_index pm) = Inr buf"
    "pm' = pm\<lparr>msgbuf := buf\<rparr>"
    by (auto simp: update_message_length_def res_simps)
  then show ?thesis
    by (auto simp: serialize_at_def split: if_splits dest: overwrite_loop_length)
qed

lemma add_data_item_built:
  assumes "config_ok cfg" and "built cfg pm body" and "add_data_item cfg di pm = Inr pm'"
    and "length (msgbuf pm') < 2 ^ 64"
  obtains b where "serialize_item cfg di = Inr b" "built cfg pm' (body @ b)"
    "signal_id pm' = signal_id pm" "is_signal pm' = is_signal pm" "data_items pm' = data_items pm"
    "length (msgbuf pm) \<le> length (msgbuf pm')"
proof -
  from assms(3) obtain b where b: "serialize_item cfg di = Inr b"
    "update_message_length cfg (pm\<lparr>msgbuf := msgbuf pm @ b\<rparr>) = Inr pm'"
    by (auto simp: add_data_item_def res_simps)
  have len: "length (msgbuf pm') = length (msgbuf pm @ b)"
    using update_message_length_length[OF b(2)] by simp
  moreover have "length body \<le> length (msgbuf pm)" using assms(2) by (simp add: built_def)
  ultimately have "length (body @ b) < 2 ^ 64" using assms(4) by simp
  let ?pm = "pm\<lparr>msgbuf := msgbuf pm @ b\<rparr>"
  have "\<exists>s. update_message_length cfg ?pm =
     (if length (body @ b) < 256 ^ signal_length_size cfg
      then Inr (?pm\<lparr>msgbuf := header_bytes cfg pm
             @ serialize_loop (of_nat (length (body @ b)) :: u64) (signal_length_size cfg) @ body @ b\<rparr>)
      else Inl (Invalid_Argument s))"
    by (rule update_message_length_layout[OF assms(1) _ \<open>length (body @ b) < 2 ^ 64\<close>,
          of "serialize_loop (of_nat (length body) :: u64) (signal_length_size cfg)"])
      (use assms(2) in \<open>simp_all add: built_def\<close>)
  then have small: "length (body @ b) < 256 ^ signal_length_size cfg"
    and pm': "pm' = ?pm\<lparr>msgbuf := header_bytes cfg pm
      @ serialize_loop (of_nat (length (body @ b)) :: u64) (signal_length_size cfg) @ body @ b\<rparr>"
    unfolding b(2) by (metis sum.distinct(1), metis sum.distinct(1) sum.inject(2))
  have fields: "msg_len_index pm' = msg_len_index pm" "header_length pm' = header_length pm"
    "signal_id pm' = signal_id pm" "signal_id_initialized pm' = signal_id_initialized pm"
    "is_signal pm' = is_signal pm" "data_items pm' = data_items pm"
    "header_bytes cfg pm' = header_bytes cfg pm"
    by (simp_all add: pm' header_bytes_def)
  have buf: "msgbuf pm' = header_bytes cfg pm
      @ serialize_loop (of_nat (length (body @ b)) :: u64) (signal_length_size cfg) @ body @ b"
    by (simp add: pm')
  have "built cfg pm' (body @ b)"
    using small assms(2) unfolding built_def fields buf by blast
  with b(1) fields len show ?thesis by (intro that[of b]) simp_all
qed


lemma add_data_item_length:
  "add_data_item cfg di pm = Inr pm' \<Longrightarrow> length (msgbuf pm) \<le> length (msgbuf pm')"
  by (auto simp: add_data_item_def res_simps dest!: update_message_length_length)

lemma add_data_items_length:
  "add_data_items cfg dis pm = Inr pm' \<Longrightarrow> length (msgbuf pm) \<le> length (msgbuf pm')"
  by (induction cfg dis pm rule: add_data_items.induct)
    (fastforce simp: res_simps dest: add_data_item_length order_trans)+

lemma add_data_items_built:
  assumes "config_ok cfg" and "built cfg pm body" and "add_data_items cfg dis pm = Inr pm'"
    and "length (msgbuf pm') < 2 ^ 64"
  shows "\<exists>b. encode_items cfg dis = Inr b \<and> built cfg pm' (body @ b) \<and> signal_id pm' = signal_id pm
    \<and> is_signal pm' = is_signal pm \<and> data_items pm' = data_items pm"
  using assms(2,3)
proof (induction dis arbitrary: pm body)
  case (Cons di dis)
  then obtain pm1 where pm1: "add_data_item cfg di pm = Inr pm1" "add_data_items cfg dis pm1 = Inr pm'"
    by (auto simp: res_simps)
  with assms(4) have "length (msgbuf pm1) < 2 ^ 64"
    using add_data_items_length[OF pm1(2)] by linarith
  from add_data_item_built[OF assms(1) Cons.prems(1) pm1(1) this] obtain b where
    b: "serialize_item cfg di = Inr b" "built cfg pm1 (body @ b)" "signal_id pm1 = signal_id pm"
      "is_signal pm1 = is_signal pm" "data_items pm1 = data_items pm" by blast
  from Cons.IH[OF b(2) pm1(2)] obtain c where "encode_items cfg dis = Inr c"
    "built cfg pm' ((body @ b) @ c)" "signal_id pm' = signal_id pm1"
    "is_signal pm' = is_signal pm1" "data_items pm' = data_items pm1" by blast
  with b show ?case by simp
qed simp

lemma add_data_items_append:
  "add_data_items cfg (xs @ ys) pm = rbind (add_data_items cfg xs pm) (add_data_items cfg ys)"
  by (induction xs arbitrary: pm) (auto simp: rbind_assoc intro: rbind_cong)

section \<open>Every way of adding to a message adds data items\<close>

text \<open>\<open>pm'\<close> is \<open>pm\<close> with some data items added.\<close>

definition extends :: "ProtocolConfig \<Rightarrow> ProtocolMessage \<Rightarrow> ProtocolMessage \<Rightarrow> bool" where
  "extends cfg pm pm' = (\<exists>dis. add_data_items cfg dis pm = Inr pm')"

named_theorems extends_intros "operations that extend a message"

lemma extends_refl [extends_intros]: "extends cfg pm pm"
  unfolding extends_def by (rule exI[of _ "[]"]) simp

lemma extends_trans: "extends cfg pm pm1 \<Longrightarrow> extends cfg pm1 pm2 \<Longrightarrow> extends cfg pm pm2"
  unfolding extends_def by (metis add_data_items_append rbind_Inr)

lemma extends_data_item [extends_intros]: "add_data_item cfg di pm = Inr pm' \<Longrightarrow> extends cfg pm pm'"
  unfolding extends_def by (rule exI[of _ "[di]"]) simp

lemma extends_data_items [extends_intros]: "add_data_items cfg dis pm = Inr pm' \<Longrightarrow> extends cfg pm pm'"
  unfolding extends_def by blast

lemma extends_named [extends_intros]: "add_named cfg n v pm = Inr pm' \<Longrightarrow> extends cfg pm pm'"
  by (auto simp: add_named_def res_simps intro: extends_intros)

lemma extends_allowed_loop:
  "add_allowed_loop cfg allowed dis pm = Inr pm' \<Longrightarrow> extends cfg pm pm'"
proof (induction cfg allowed dis pm rule: add_allowed_loop.induct)
  case (2 cfg allowed di dis pm)
  then show ?case
    by (auto simp: res_simps split: if_splits intro: extends_trans extends_intros)
qed (simp add: extends_refl)

lemma extends_allowed [extends_intros]:
  "add_allowed_data_items cfg dis pm = Inr pm' \<Longrightarrow> extends cfg pm pm'"
  by (auto simp: add_allowed_data_items_def res_simps intro: extends_allowed_loop)

lemma extends_heartbeat [extends_intros]:
  "add_heartbeat_interval cfg client pm = Inr pm' \<Longrightarrow> extends cfg pm pm'"
  by (auto simp: add_heartbeat_interval_def res_simps Let_def split: if_splits intro: extends_intros)

lemma extends_peer_type_value:
  "add_peer_type_value cfg client s pm = Inr pm' \<Longrightarrow> extends cfg pm pm'"
  by (auto simp: add_peer_type_value_def res_simps split: if_splits intro: extends_intros)

lemma extends_peer_type [extends_intros]: "add_peer_type cfg client pm = Inr pm' \<Longrightarrow> extends cfg pm pm'"
  by (auto simp: add_peer_type_def res_simps split: sum.splits if_splits
      intro: extends_peer_type_value extends_refl)

lemma extends_experiment_loop:
  "add_experiment_loop cfg ens pm = Inr pm' \<Longrightarrow> extends cfg pm pm'"
  by (induction cfg ens pm rule: add_experiment_loop.induct)
    (auto simp: res_simps intro: extends_trans extends_intros)

lemma extends_experiment_names [extends_intros]:
  "add_experiment_names cfg pm = Inr pm' \<Longrightarrow> extends cfg pm pm'"
  unfolding add_experiment_names_def by (rule extends_experiment_loop)

lemma extends_version [extends_intros]: "add_version cfg pm = Inr pm' \<Longrightarrow> extends cfg pm pm'"
  by (auto simp: add_version_def intro: extends_intros)

lemma extends_status [extends_intros]: "add_status cfg s r pm = Inr pm' \<Longrightarrow> extends cfg pm pm'"
  by (auto simp: add_status_def res_simps intro: extends_intros)

lemma extends_extensions [extends_intros]: "add_extensions cfg xs pm = Inr pm' \<Longrightarrow> extends cfg pm pm'"
  by (auto simp: add_extensions_def intro: extends_intros)

lemma extends_mac [extends_intros]: "add_mac cfg mac pm = Inr pm' \<Longrightarrow> extends cfg pm pm'"
  by (auto simp: add_mac_def intro: extends_intros)

lemma extends_common_loop: "add_common_loop cfg client difs pm = Inr pm' \<Longrightarrow> extends cfg pm pm'"
proof (induction cfg client difs pm rule: add_common_loop.induct)
  case (2 cfg client difs rest pm)
  from "2.prems" obtain n pm1 where n: "get_data_item_name cfg (sdi_id difs) None = Inr n"
    and step: "(if n = ''Version'' then add_version cfg pm
            else if n = ''Heartbeat_Interval'' then add_heartbeat_interval cfg client pm
            else if n = ''Peer_Type'' then add_peer_type cfg client pm
            else if n = ''Experimental_Definition'' then add_experiment_names cfg pm
            else if n = ''Status'' then add_status cfg ''Success'' '''' pm
            else Inr pm) = Inr pm1" and rest: "add_common_loop cfg client rest pm1 = Inr pm'"
    by (auto simp only: res_simps add_common_loop.simps)
  from step have "extends cfg pm pm1" by (auto split: if_splits intro: extends_intros)
  with "2.IH"[OF n step rest] show ?case by (blast intro: extends_trans)
qed (simp add: extends_refl)

lemma extends_common [extends_intros]:
  "add_common_data_items cfg client pm = Inr pm' \<Longrightarrow> extends cfg pm pm'"
  by (auto simp: add_common_data_items_def res_simps intro: extends_common_loop)

section \<open>Parsing\<close>

text \<open>The id and length read for the log message are read again by the data item.\<close>

lemma parse_data_item_eq:
  "parse_data_item ip cfg it =
     rbind (data_item_deserialize cfg None it) (\<lambda>(di, it').
     rbind (data_item_to_string ip cfg None di) (\<lambda>_. Inr (di, it')))"
proof (cases "deserialize_field (data_item_id_size cfg) it :: (u32 \<times> bytes) res")
  case (Inr a)
  obtain i it1 where a: "a = (i, it1)" by (cases a)
  then show ?thesis
  proof (cases "deserialize_field (data_item_length_size cfg) it1 :: (u64 \<times> bytes) res")
    case (Inr b)
    then show ?thesis
      using \<open>_ = Inr a\<close> by (cases b) (simp add: parse_data_item_def a)
  qed (use Inr in \<open>simp add: parse_data_item_def a data_item_deserialize.simps deserialize_header_def\<close>)
qed (simp add: parse_data_item_def data_item_deserialize.simps deserialize_header_def)

lemma parse_data_items_encode:
  assumes "config_ok cfg" and "subs_listed cfg"
  shows "items_ok cfg None dis \<Longrightarrow> encode_items cfg dis = Inr b \<Longrightarrow> length b < 2 ^ 64 \<Longrightarrow>
         parse_data_items ip cfg b = (dis, None)"
proof (induction dis arbitrary: b)
  case Nil
  then show ?case by (simp add: parse_data_items.simps)
next
  case (Cons di dis)
  then obtain b1 b2 where b: "serialize_item cfg di = Inr b1" "encode_items cfg dis = Inr b2" "b = b1 @ b2"
    by (auto simp: res_simps)
  have "b1 \<noteq> []" and "data_item_deserialize cfg None (b1 @ b2) = Inr (di, b2)"
    using serialize_round_trip(2)[OF assms(1) b(1), of None] Cons.prems b(3) by auto
  moreover obtain s where "data_item_to_string ip cfg None di = Inr s"
    using to_string_total(2)[OF assms] Cons.prems(1) by fastforce
  ultimately show ?case
    using Cons b by (subst parse_data_items.simps) (simp add: parse_data_item_eq)
qed

lemma match_prefix_prefix: "match_prefix p s (map byte_of_char s @ rest) = Inr rest"
  by (induction p s "map byte_of_char s @ rest" rule: match_prefix.induct) auto

lemma signal_name_id:
  assumes "config_ok cfg" and "get_signal_id cfg name = Inr (i, s)"
  shows "(if s then get_signal_name cfg i else get_message_name cfg i) = Inr name"
  using assms by (auto simp: get_signal_id_def get_signal_name_def get_message_name_def config_ok_def
      bimap_left_right[symmetric] split: option.splits)

lemma length_header_bytes:
  "length (header_bytes cfg pm) = (if is_signal pm then length (signal_prefix cfg) else 0) + signal_id_size cfg"
  by (simp add: header_bytes_def)

lemma parse_built:
  assumes "config_ok cfg" and "subs_listed cfg" and "built cfg pm b" and "pm_get_signal_name cfg pm = Inr name"
    and "encode_items cfg dis = Inr b" and "items_ok cfg None dis"
    and "msgbuf pm0 = msgbuf pm" and "is_signal pm0 = is_signal pm"
  shows "parse ip cfg log_prefix pm0 = Inr (pm0\<lparr>signal_id := signal_id pm,
           signal_id_initialized := True, data_items := dis\<rparr>, '''')"
proof -
  let ?len = "of_nat (length b) :: u64" and ?pm1 = "pm0\<lparr>data_items := []\<rparr>"
  let ?it = "serialize_loop (signal_id pm) (signal_id_size cfg) @ serialize_loop ?len (signal_length_size cfg) @ b"
  have lens: "length b < 256 ^ signal_length_size cfg" "unat (signal_id pm) < 256 ^ signal_id_size cfg"
    and buf: "msgbuf pm = header_bytes cfg pm @ serialize_loop ?len (signal_length_size cfg) @ b"
    using assms(3) by (simp_all add: built_def)
  have len64: "length b < 2 ^ 64"
    using lens(1) field_bound_64[OF config_ok_sizes(1)[OF assms(1)]] by linarith
  have unat: "unat ?len = length b" using len64 by (simp only: unat_of_nat) simp
  have name: "pm_get_signal_name cfg (?pm1\<lparr>signal_id := signal_id pm, signal_id_initialized := True\<rparr>) = Inr name"
    using assms(3,4,8) by (simp add: pm_get_signal_name_def built_def split: if_splits)
  have body: "parse_body ip cfg ?it ?pm1 = (pm0\<lparr>signal_id := signal_id pm,
      signal_id_initialized := True, data_items := dis\<rparr>, None)"
    using lens unat name parse_data_items_encode[OF assms(1,2,6,5) len64]
    by (simp add: parse_body_def deserialize_field_serialize)
  have "signal_id_size cfg > 0" using config_ok_sizes(2)[OF assms(1)] by (simp add: field_size_ok_def)
  with body show ?thesis
    using assms(7,8) buf match_prefix_prefix[of _ "signal_prefix cfg" ?it]
    by (simp add: parse_def Let_def parse_finish_def header_bytes_def)
qed

lemma parse_data_items_ok: "parse_data_items ip cfg it = (dis, e) \<Longrightarrow> items_ok cfg None dis"
proof (induction ip cfg it arbitrary: dis e rule: parse_data_items.induct)
  case (1 ip cfg it)
  show ?case
  proof (cases "it = []")
    case False
    then show ?thesis
    proof (cases "parse_data_item ip cfg it")
      case (Inr r)
      obtain di it' where r: "r = (di, it')" by (cases r)
      obtain dis' e' where rest: "parse_data_items ip cfg it' = (dis', e')" by (cases "parse_data_items ip cfg it'")
      have "item_ok cfg None di"
        using Inr r deserialize_ok(1)[of cfg None it di it']
        by (auto simp: parse_data_item_eq res_simps)
      with "1.IH"[OF False Inr r[symmetric] _ rest] "1.prems" False Inr r rest show ?thesis
        by (auto simp: parse_data_items.simps[of ip cfg it] split: if_splits)
    qed (use 1 False in \<open>simp add: parse_data_items.simps\<close>)
  qed (use 1 in \<open>simp add: parse_data_items.simps\<close>)
qed

lemma parse_data_items_error:
  "config_ok cfg \<Longrightarrow> parse_data_items ip cfg it = (dis, Some e) \<Longrightarrow> reportable e"
proof (induction ip cfg it arbitrary: dis e rule: parse_data_items.induct)
  case (1 ip cfg it)
  have top: "parent_ok cfg None" by (simp add: parent_ok_def)
  show ?case
  proof (cases "parse_data_item ip cfg it")
    case (Inl e')
    then have "reportable e'"
      using deserialize_errors(1)[OF "1.prems"(1) top] to_string_error(2)[OF "1.prems"(1) top]
      by (auto simp: parse_data_item_eq res_simps)
    with 1 Inl show ?thesis by (simp add: parse_data_items.simps[of ip cfg it] split: if_splits)
  next
    case (Inr r)
    obtain di it' where r: "r = (di, it')" by (cases r)
    obtain dis' e' where rest: "parse_data_items ip cfg it' = (dis', e')" by (cases "parse_data_items ip cfg it'")
    have "length it' < length it"
      using Inr r deserialize_consumes[OF "1.prems"(1), of None it di it'] by (auto simp: parse_data_item_eq res_simps)
    with "1.IH"[OF _ Inr r[symmetric] _ "1.prems"(1)] "1.prems" Inr r rest show ?thesis
      by (auto simp: parse_data_items.simps[of ip cfg it] split: if_splits)
  qed
qed

lemma clear_data_items_built:
  assumes "config_ok cfg" and "built cfg pm body"
  obtains pm' where "clear_data_items cfg pm = Inr pm'" "built cfg pm' []"
    "signal_id pm' = signal_id pm" "is_signal pm' = is_signal pm" "data_items pm' = []"
proof -
  let ?l = "serialize_loop (of_nat (length body) :: u64) (signal_length_size cfg)"
  let ?pm = "pm\<lparr>msgbuf := resize (header_length pm) (msgbuf pm)\<rparr>"
  have n: "0 < signal_length_size cfg" using config_ok_sizes(1)[OF assms(1)] by (simp add: field_size_ok_def)
  have fields: "msg_len_index pm = length (header_bytes cfg pm)"
    "header_length pm = length (header_bytes cfg pm) + signal_length_size cfg"
    using assms(2) by (simp_all add: built_def)
  have "msgbuf ?pm = header_bytes cfg pm @ ?l @ []"
    using assms(2) by (simp add: built_def resize_def)
  from update_message_length_layout[OF assms(1) _ _ this] fields
  have "update_message_length cfg ?pm = Inr (?pm\<lparr>msgbuf := header_bytes cfg pm
      @ serialize_loop (0 :: u64) (signal_length_size cfg)\<rparr>)" by simp
  then have clear: "clear_data_items cfg pm = Inr (pm\<lparr>msgbuf := header_bytes cfg pm
      @ serialize_loop (0 :: u64) (signal_length_size cfg), data_items := []\<rparr>)"
    using n by (simp add: clear_data_items_def fields)
  have "header_bytes cfg (pm\<lparr>msgbuf := b, data_items := []\<rparr>) = header_bytes cfg pm" for b
    by (simp add: header_bytes_def)
  then have "built cfg (pm\<lparr>msgbuf := header_bytes cfg pm
      @ serialize_loop (0 :: u64) (signal_length_size cfg), data_items := []\<rparr>) []"
    using assms(2) by (simp add: built_def)
  with clear show ?thesis by (rule that) simp_all
qed

section \<open>Messages under construction\<close>

text \<open>
  What a caller can do to a message it builds, one operation after the other. Clearing is
  the only one that shortens the buffer, which never outgrows the address space.
\<close>

inductive building :: "ProtocolConfig \<Rightarrow> client_config \<Rightarrow> string \<Rightarrow> ProtocolMessage \<Rightarrow> bool"
  for cfg client name where
  header: "add_header cfg name new_ProtocolMessage = Inr pm \<Longrightarrow> building cfg client name pm"
| item: "building cfg client name pm \<Longrightarrow> add_data_item cfg di pm = Inr pm' \<Longrightarrow> building cfg client name pm'"
| items: "building cfg client name pm \<Longrightarrow> add_data_items cfg dis pm = Inr pm' \<Longrightarrow> building cfg client name pm'"
| allowed: "building cfg client name pm \<Longrightarrow> add_allowed_data_items cfg dis pm = Inr pm' \<Longrightarrow>
    building cfg client name pm'"
| version: "building cfg client name pm \<Longrightarrow> add_version cfg pm = Inr pm' \<Longrightarrow> building cfg client name pm'"
| heartbeat: "building cfg client name pm \<Longrightarrow> add_heartbeat_interval cfg client pm = Inr pm' \<Longrightarrow>
    building cfg client name pm'"
| peer_type: "building cfg client name pm \<Longrightarrow> add_peer_type cfg client pm = Inr pm' \<Longrightarrow>
    building cfg client name pm'"
| experiments: "building cfg client name pm \<Longrightarrow> add_experiment_names cfg pm = Inr pm' \<Longrightarrow>
    building cfg client name pm'"
| status: "building cfg client name pm \<Longrightarrow> add_status cfg s r pm = Inr pm' \<Longrightarrow> building cfg client name pm'"
| extensions: "building cfg client name pm \<Longrightarrow> add_extensions cfg xs pm = Inr pm' \<Longrightarrow>
    building cfg client name pm'"
| mac: "building cfg client name pm \<Longrightarrow> add_mac cfg m pm = Inr pm' \<Longrightarrow> building cfg client name pm'"
| common: "building cfg client name pm \<Longrightarrow> add_common_data_items cfg client pm = Inr pm' \<Longrightarrow>
    building cfg client name pm'"
| clear: "building cfg client name pm \<Longrightarrow> length (msgbuf pm) < 2 ^ 64 \<Longrightarrow>
    clear_data_items cfg pm = Inr pm' \<Longrightarrow> building cfg client name pm'"

definition layout_ok :: "ProtocolConfig \<Rightarrow> string \<Rightarrow> ProtocolMessage \<Rightarrow> bool" where
  "layout_ok cfg name pm = (\<exists>dis body. encode_items cfg dis = Inr body \<and> built cfg pm body
     \<and> get_signal_id cfg name = Inr (signal_id pm, is_signal pm))"

lemma encode_items_append:
  "encode_items cfg xs = Inr b \<Longrightarrow> encode_items cfg ys = Inr c \<Longrightarrow> encode_items cfg (xs @ ys) = Inr (b @ c)"
  by (induction xs arbitrary: b) (auto simp: res_simps)

lemma layout_ok_extends:
  assumes "config_ok cfg" and "layout_ok cfg name pm" and "extends cfg pm pm'" and "length (msgbuf pm') < 2 ^ 64"
  shows "layout_ok cfg name pm'"
proof -
  from assms(2) obtain dis body where d: "encode_items cfg dis = Inr body" "built cfg pm body"
    "get_signal_id cfg name = Inr (signal_id pm, is_signal pm)" by (auto simp: layout_ok_def)
  from assms(3) obtain new where new: "add_data_items cfg new pm = Inr pm'" by (auto simp: extends_def)
  from add_data_items_built[OF assms(1) d(2) new assms(4)] obtain b where
    b: "encode_items cfg new = Inr b" "built cfg pm' (body @ b)" "signal_id pm' = signal_id pm"
      "is_signal pm' = is_signal pm" by blast
  with d show ?thesis
    unfolding layout_ok_def
    by (intro exI[of _ "dis @ new"] exI[of _ "body @ b"]) (simp add: encode_items_append)
qed

lemma extends_length: "extends cfg pm pm' \<Longrightarrow> length (msgbuf pm) \<le> length (msgbuf pm')"
  by (auto simp: extends_def dest: add_data_items_length)


lemma layout_ok_clear:
  assumes "config_ok cfg" and "layout_ok cfg name pm" and "clear_data_items cfg pm = Inr pm'"
  shows "layout_ok cfg name pm'"
proof -
  from assms(2) obtain body where b: "built cfg pm body"
    "get_signal_id cfg name = Inr (signal_id pm, is_signal pm)" by (auto simp: layout_ok_def)
  from clear_data_items_built[OF assms(1) b(1)] obtain pm1 where
    "clear_data_items cfg pm = Inr pm1" "built cfg pm1 []" "signal_id pm1 = signal_id pm"
    "is_signal pm1 = is_signal pm" by blast
  with assms(3) b(2) show ?thesis
    unfolding layout_ok_def by (intro exI[of _ "[]"]) simp
qed


lemma building_layout:
  assumes "config_ok cfg" and "building cfg client name pm" and "length (msgbuf pm) < 2 ^ 64"
  shows "layout_ok cfg name pm"
  using assms(2,3)
proof (induction rule: building.induct)
  case (header pm)
  from add_header_built[OF header(1)] show ?case
    unfolding layout_ok_def by (intro exI[of _ "[]"]) simp
next
  case (clear pm pm')
  then show ?case by (blast intro: layout_ok_clear[OF assms(1)])
qed (meson layout_ok_extends[OF assms(1)] extends_length order_le_less_trans extends_intros)+

section \<open>Cutting the stream into messages\<close>

lemma is_complete_built:
  assumes "config_ok cfg" and "built cfg pm body" and "\<not> is_signal pm" and "length (msgbuf pm) < 2 ^ 64"
  shows "is_complete_message cfg (msgbuf pm @ rest) n = Inr (True, of_nat (length (msgbuf pm)))"
    and "k < length (msgbuf pm) \<Longrightarrow> \<exists>m. is_complete_message cfg (take k (msgbuf pm)) n = Inr (False, m)"
proof -
  let ?i = "signal_id_size cfg" and ?l = "signal_length_size cfg" and ?len = "of_nat (length body) :: u64"
  have b: "unat (signal_id pm) < 256 ^ ?i" "length body < 256 ^ ?l"
    "msgbuf pm = serialize_loop (signal_id pm) ?i @ serialize_loop ?len ?l @ body"
    using assms(2,3) by (simp_all add: built_def header_bytes_def)
  have total: "length (msgbuf pm) = ?i + ?l + length body" by (simp add: b(3))
  have unat: "unat ?len < 256 ^ ?l"
    using assms(4) b(2) total by (simp only: unat_of_nat) simp
  have size: "of_nat (?i + ?l) + ?len = (of_nat (length (msgbuf pm)) :: u64)"
    by (simp only: total of_nat_add)
  have unat_size: "unat (of_nat (length (msgbuf pm)) :: u64) = length (msgbuf pm)"
    using assms(4) by (simp only: unat_of_nat) simp
  note read = deserialize_field_serialize[of "signal_id pm" ?i] deserialize_field_serialize[of ?len ?l]
  have complete: "is_complete_message cfg (serialize_loop (signal_id pm) ?i @ serialize_loop ?len ?l @ xs) n
      = Inr (length (msgbuf pm) \<le> ?i + ?l + length xs, of_nat (length (msgbuf pm)))" for xs
    using b(1) unat read size unat_size by (simp add: is_complete_message_def Let_def add.assoc)
  show "is_complete_message cfg (msgbuf pm @ rest) n = Inr (True, of_nat (length (msgbuf pm)))"
    using complete[of "body @ rest"] by (simp add: b(3) total)
  assume k: "k < length (msgbuf pm)"
  show "\<exists>m. is_complete_message cfg (take k (msgbuf pm)) n = Inr (False, m)"
  proof (cases "k < ?i + ?l")
    case True
    then show ?thesis by (simp add: is_complete_message_def Let_def total)
  next
    case False
    then have "take k (msgbuf pm) = serialize_loop (signal_id pm) ?i @ serialize_loop ?len ?l @ take (k - (?i + ?l)) body"
      by (simp add: b(3))
    with complete[of "take (k - (?i + ?l)) body"] k False show ?thesis by (simp add: total)
  qed
qed

section \<open>Validation\<close>

definition message_valid :: "ProtocolConfig \<Rightarrow> bool \<Rightarrow> ProtocolMessage \<Rightarrow> bool" where
  "message_valid cfg modem_sender pm =
     (case rbind (pm_get_signal_name cfg pm) (get_signal_info cfg) of
        Inl e \<Rightarrow> False
      | Inr siginfo \<Rightarrow>
          si_flags siginfo AND (if modem_sender then flag_modem_sends else flag_router_sends) \<noteq> 0
          \<and> occurrences_ok (si_data_items siginfo) (data_items pm)
          \<and> items_valid cfg None (data_items pm))"

lemma get_signal_info_refs_wf:
  assumes "occurs_wf cfg" and "get_signal_info cfg name = Inr siginfo"
  shows "refs_wf (si_data_items siginfo)"
proof -
  from assms(2) have "siginfo \<in> set (get_signal_info_list cfg [name])"
    by (auto simp: get_signal_info_def split: list.splits)
  then have "siginfo \<in> set (map snd (signal_info_map cfg)) \<union> set (map snd (message_info_map cfg))"
    by (auto simp: get_signal_info_list_def Let_def)
  with assms(1) show ?thesis by (auto simp: occurs_wf_def list_all_iff)
qed

lemma validate_message_iff:
  assumes "config_ok cfg" and "occurs_wf cfg" and "size_list size (data_items pm) < 2 ^ 32"
  shows "validate cfg modem_sender pm = Inr '''' \<longleftrightarrow> message_valid cfg modem_sender pm"
proof (cases "rbind (pm_get_signal_name cfg pm) (get_signal_info cfg)")
  case (Inl e)
  then show ?thesis
    by (auto simp: message_valid_def validate_def res_simps)
next
  case (Inr siginfo)
  then obtain name where name: "pm_get_signal_name cfg pm = Inr name" "get_signal_info cfg name = Inr siginfo"
    by (auto simp: res_simps)
  have "length (data_items pm) < 2 ^ 32"
    using assms(3) length_le_size_list[of "data_items pm" size] by linarith
  then have occ: "validate_occurrences cfg (data_items pm) (si_data_items siginfo) None = Inr ''''
      \<longleftrightarrow> occurrences_ok (si_data_items siginfo) (data_items pm)"
    by (rule validate_occurrences_iff[OF get_signal_info_refs_wf[OF assms(2) name(2)]])
  have sender: "validate_sender siginfo modem_sender = '''' \<longleftrightarrow>
      si_flags siginfo AND (if modem_sender then flag_modem_sends else flag_router_sends) \<noteq> 0"
    by (simp add: validate_sender_def)
  show ?thesis
    using occ sender validate_iff(3)[OF assms]
    by (auto simp: message_valid_def validate_def name res_simps Let_def split: if_splits)
qed

section \<open>Choosing a status code\<close>

definition status_or :: "ProtocolConfig \<Rightarrow> string \<Rightarrow> u32 res \<Rightarrow> u32 res" where
  "status_or cfg s d = (case get_status_code_id cfg s of Inr i \<Rightarrow> Inr i | Inl _ \<Rightarrow> d)"

lemma find_status_code_Suc:
  "find_status_code (Suc n) cfg s = status_or cfg s (find_status_code n cfg (remap_status s))"
  by (simp add: status_or_def)

lemma remap_simps:
  "remap_status ''Unknown_Message'' = ''Unknown_Message''" "remap_status ''Request_Denied'' = ''Unknown_Message''"
  "remap_status ''Invalid_Message'' = ''Invalid_Data''" "remap_status ''Invalid_Data'' = ''Invalid_Message''"
  by (simp_all add: remap_status_def)

lemma remap_range:
  "remap_status s \<in> {''Unknown_Message'', ''Request_Denied'', ''Invalid_Message'', ''Invalid_Data''}"
  by (simp add: remap_status_def)

lemma find_unknown: "find_status_code (Suc n) cfg ''Unknown_Message'' = status_or cfg ''Unknown_Message'' (Inl Hang)"
  by (induction n) (simp_all only: find_status_code_Suc remap_simps find_status_code.simps(1),
      simp add: status_or_def split: sum.split)

lemma find_invalid:
  "find_status_code (Suc (Suc n)) cfg ''Invalid_Message'' =
     status_or cfg ''Invalid_Message'' (status_or cfg ''Invalid_Data'' (Inl Hang))
   \<and> find_status_code (Suc (Suc n)) cfg ''Invalid_Data'' =
     status_or cfg ''Invalid_Data'' (status_or cfg ''Invalid_Message'' (Inl Hang))"
proof (induction n)
  case (Suc n)
  then show ?case
    by (simp only: find_status_code_Suc[of "Suc (Suc n)"] remap_simps) (simp add: status_or_def split: sum.split)
qed (simp only: find_status_code_Suc remap_simps find_status_code.simps(1))

lemmas find_closed = find_unknown find_invalid[THEN conjunct1] find_invalid[THEN conjunct2]

lemma find_after_remap:
  "find_status_code (Suc (Suc (Suc n))) cfg (remap_status s) = find_status_code 3 cfg (remap_status s)"
proof -
  have "find_status_code (Suc (Suc (Suc n))) cfg ''Request_Denied''
      = status_or cfg ''Request_Denied'' (status_or cfg ''Unknown_Message'' (Inl Hang))" for n
    by (simp only: find_status_code_Suc[of "Suc (Suc n)"] remap_simps find_unknown)
  then show ?thesis
    using remap_range[of s] by (auto simp: numeral_3_eq_3 find_closed simp del: find_status_code.simps)
qed

lemma find_status_code_fuel: "4 \<le> n \<Longrightarrow> find_status_code n cfg s = find_status_code 4 cfg s"
proof -
  assume "4 \<le> n"
  then obtain m where "n = 4 + m" using le_Suc_ex by blast
  then have n: "n = Suc (Suc (Suc (Suc m)))" by simp
  have four: "(4::nat) = Suc (Suc (Suc (Suc 0)))" by simp
  show ?thesis
    by (simp only: n four find_status_code_Suc[of _ _ s] find_after_remap)
qed

section \<open>Properties\<close>

text \<open>
  C15: whatever sequence of \<open>add_...\<close> calls and clears built a message, its buffer is the
  signal prefix (for signals), the id, the length field and the serialized data items, and
  the length field holds the number of bytes of the data items, never a stale or truncated
  value: a data item that would overflow the field makes the call throw instead.
\<close>

theorem message_layout_invariant:
  assumes "config_ok cfg" and "building cfg client name pm" and "length (msgbuf pm) < 2 ^ 64"
  shows "\<exists>dis body. encode_items cfg dis = Inr body
    \<and> msgbuf pm = (if is_signal pm then map byte_of_char (signal_prefix cfg) else [])
        @ serialize_loop (signal_id pm) (signal_id_size cfg)
        @ serialize_loop (of_nat (length body) :: u64) (signal_length_size cfg) @ body
    \<and> length body < 256 ^ signal_length_size cfg
    \<and> get_signal_id cfg name = Inr (signal_id pm, is_signal pm)"
proof -
  from building_layout[OF assms] obtain dis body where "encode_items cfg dis = Inr body" "built cfg pm body"
    "get_signal_id cfg name = Inr (signal_id pm, is_signal pm)" by (auto simp: layout_ok_def)
  then show ?thesis
    by (intro exI[of _ dis] exI[of _ body]) (simp add: built_def header_bytes_def)
qed

lemma built_message_parses:
  assumes "config_ok cfg" and "subs_listed cfg"
    and "add_header cfg name new_ProtocolMessage = Inr pm0" and "add_data_items cfg dis pm0 = Inr pm"
    and "items_ok cfg None dis" and "length (msgbuf pm) < 2 ^ 64"
  shows "\<exists>pm'. parse_buffer ip cfg (msgbuf pm) (is_signal pm) log_prefix new_ProtocolMessage = Inr (pm', '''')
    \<and> data_items pm' = dis \<and> pm_get_signal_name cfg pm' = Inr name"
proof -
  note header = add_header_built[OF assms(3)]
  from add_data_items_built[OF assms(1) conjunct1[OF header] assms(4,6)] obtain b where
    b: "encode_items cfg dis = Inr b" "built cfg pm b" "signal_id pm = signal_id pm0"
      "is_signal pm = is_signal pm0" by auto
  have name: "pm_get_signal_name cfg pm = Inr name"
    using signal_name_id[OF assms(1)] header b(2-4) by (fastforce simp: pm_get_signal_name_def built_def)
  from parse_built[OF assms(1,2) b(2) name b(1) assms(5)] name b(2) show ?thesis
    by (simp add: parse_buffer_def pm_get_signal_name_def built_def split: if_splits)
qed

text \<open>
  C1: a signal or message built from a name and well-typed data items is parsed by the
  receiver, without error, into a message of that name with exactly those data items in that
  order.
\<close>

theorem message_round_trip:
  assumes "config_ok cfg" and "subs_listed cfg"
    and "add_header cfg name new_ProtocolMessage = Inr pm0" and "add_data_items cfg dis pm0 = Inr pm"
    and "items_ok cfg None dis" and "length (msgbuf pm) < 2 ^ 64"
  shows "\<exists>pm'. parse_buffer ip cfg (msgbuf pm) (is_signal pm) log_prefix new_ProtocolMessage = Inr (pm', '''')
    \<and> data_items pm' = dis \<and> pm_get_signal_name cfg pm' = Inr name"
  by (rule built_message_parses[OF assms])

text \<open>
  \<open>is_complete_message\<close> finds the end of a built message in a stream of bytes: with the
  whole message at the front of the buffer it reports it complete, with its exact size
  whatever follows, and with any shorter part of it it asks for more.
\<close>

lemma stream_framing:
  assumes "config_ok cfg" and "building cfg client name pm" and "\<not> is_signal pm"
    and "length (msgbuf pm) < 2 ^ 64"
  shows "is_complete_message cfg (msgbuf pm @ rest) n = Inr (True, of_nat (length (msgbuf pm)))
    \<and> (k < length (msgbuf pm) \<longrightarrow> (\<exists>m. is_complete_message cfg (take k (msgbuf pm)) n = Inr (False, m)))"
proof -
  from building_layout[OF assms(1,2,4)] obtain body where "built cfg pm body" by (auto simp: layout_ok_def)
  from is_complete_built[OF assms(1) this assms(3,4)] show ?thesis by blast
qed

lemma match_prefix_error: "length s \<le> length it \<Longrightarrow> match_prefix p s it = Inl err \<Longrightarrow> err \<noteq> ''''"
  by (induction p s it rule: match_prefix.induct) (auto split: if_splits)

lemma parse_bailout_empty [simp]: "parse_bailout p err = '''' \<longleftrightarrow> err = ''''"
  by (simp add: parse_bailout_def)

lemma get_signal_name_error: "pm_get_signal_name cfg pm = Inl e \<Longrightarrow> signal_id_initialized pm \<Longrightarrow> reportable e"
  by (auto simp: pm_get_signal_name_def get_signal_name_def get_message_name_def split: if_splits option.splits)

lemma parse_body_result:
  assumes "config_ok cfg" and "parse_body ip cfg it pm = (pm', e)" and "data_items pm = []"
  shows "(case e of Some x \<Rightarrow> reportable x | None \<Rightarrow> \<exists>name. pm_get_signal_name cfg pm' = Inr name)
    \<and> items_ok cfg None (data_items pm')"
proof (cases "deserialize_field (signal_id_size cfg) it :: (u32 \<times> bytes) res")
  case (Inl x)
  then show ?thesis
    using assms deserialize_field_error[OF Inl] by (auto simp: parse_body_def)
next
  case (Inr r)
  obtain sid it1 where r: "r = (sid, it1)" by (cases r)
  let ?pm1 = "pm\<lparr>signal_id := sid, signal_id_initialized := True\<rparr>"
  let ?rest = "rbind (deserialize_field (signal_length_size cfg) it1) (\<lambda>(signal_len :: u64, it2).
                   rbind (pm_get_signal_name cfg ?pm1) (\<lambda>_. Inr it2))"
  show ?thesis
  proof (cases ?rest)
    case (Inl x)
    then have "reportable x"
      by (auto simp: res_simps intro: deserialize_field_error get_signal_name_error)
    with assms Inr r Inl show ?thesis by (auto simp: parse_body_def Let_def)
  next
    case (Inr it2)
    then have name: "\<exists>name. pm_get_signal_name cfg ?pm1 = Inr name" by (auto simp: res_simps)
    obtain dis x where items: "parse_data_items ip cfg it2 = (dis, x)" by (cases "parse_data_items ip cfg it2")
    then have "pm' = ?pm1\<lparr>data_items := dis\<rparr>" "e = x"
      using assms(2) \<open>_ = Inr r\<close> r Inr by (auto simp: parse_body_def Let_def)
    with name items parse_data_items_ok[OF items] parse_data_items_error[OF assms(1)] show ?thesis
      by (auto simp: pm_get_signal_name_def split: option.splits)
  qed
qed

text \<open>
  C19: \<open>parse\<close> returns on every buffer, an error text or success, and keeps only well-typed
  data items; when it reports success the id in the header is that of a configured signal or
  message.
\<close>

theorem parse_returns:
  assumes "config_ok cfg"
  shows "\<exists>pm' err. parse ip cfg log_prefix pm = Inr (pm', err) \<and> items_ok cfg None (data_items pm')
    \<and> (err = '''' \<longrightarrow> (\<exists>name. pm_get_signal_name cfg pm' = Inr name))"
proof -
  have body: "\<exists>pm' err. parse_finish log_prefix (parse_body ip cfg it (pm\<lparr>data_items := []\<rparr>)) = Inr (pm', err)
    \<and> items_ok cfg None (data_items pm') \<and> (err = '''' \<longrightarrow> (\<exists>name. pm_get_signal_name cfg pm' = Inr name))" for it
  proof -
    obtain pm' e where r: "parse_body ip cfg it (pm\<lparr>data_items := []\<rparr>) = (pm', e)"
      by (cases "parse_body ip cfg it (pm\<lparr>data_items := []\<rparr>)")
    with parse_body_result[OF assms r] show ?thesis
      by (cases e) (auto simp: parse_finish_def reportable_def)
  qed
  then show ?thesis
    using match_prefix_error[of "signal_prefix cfg" "msgbuf pm"]
    by (auto simp: parse_def Let_def split: sum.splits)
qed

text \<open>
  C17: \<open>validate\<close> accepts a message exactly when its name is configured, its sender (modem or
  router) may send it, every data item occurs as often as the message's definition says and
  no other is there, and every data item is admissible.
\<close>

theorem validate_message_correct:
  assumes "config_ok cfg" and "occurs_wf cfg" and "size_list size (data_items pm) < 2 ^ 32"
  shows "validate cfg modem_sender pm = Inr '''' \<longleftrightarrow> message_valid cfg modem_sender pm"
  using assms by (rule validate_message_iff)

definition status_configured :: "ProtocolConfig \<Rightarrow> string \<Rightarrow> bool" where
  "status_configured cfg s = (bimap_right (status_code_map cfg) s \<noteq> None)"

lemma status_or_configured:
  "status_or cfg s d = (if status_configured cfg s then get_status_code_id cfg s else d)"
  by (auto simp: status_or_def status_configured_def get_status_code_id_def split: option.splits)

lemma status_configured_id: "status_configured cfg s \<Longrightarrow> \<exists>i. get_status_code_id cfg s = Inr i"
  by (auto simp: status_configured_def get_status_code_id_def)

text \<open>
  C33: the search of \<open>add_status\<close> for a configured status code ends, within four rounds,
  whenever the configuration has \<open>Unknown_Message\<close> and one of \<open>Invalid_Message\<close> and
  \<open>Invalid_Data\<close>; with neither of the two, asking for \<open>Invalid_Data\<close> never ends, as the
  comment in the code warns.
\<close>

theorem add_status_search:
  "(status_configured cfg ''Unknown_Message''
      \<and> (status_configured cfg ''Invalid_Message'' \<or> status_configured cfg ''Invalid_Data'')
    \<longrightarrow> (\<exists>i. \<forall>n\<ge>4. find_status_code n cfg s = Inr i))
   \<and> (\<not> status_configured cfg ''Invalid_Message'' \<and> \<not> status_configured cfg ''Invalid_Data''
    \<longrightarrow> (\<forall>n. find_status_code n cfg ''Invalid_Data'' = Inl Hang))"
proof (intro conjI impI)
  assume conf: "status_configured cfg ''Unknown_Message''
      \<and> (status_configured cfg ''Invalid_Message'' \<or> status_configured cfg ''Invalid_Data'')"
  have rd: "find_status_code 3 cfg ''Request_Denied''
      = status_or cfg ''Request_Denied'' (status_or cfg ''Unknown_Message'' (Inl Hang))"
    by (simp only: numeral_3_eq_3 find_status_code_Suc[of "Suc (Suc 0)"] remap_simps find_unknown)
  have "\<exists>i. find_status_code 3 cfg (remap_status s) = Inr i"
    using remap_range[of s] conf rd
    by (auto simp: numeral_3_eq_3 find_closed status_or_configured dest: status_configured_id
        simp del: find_status_code.simps)
  then have "\<exists>i. find_status_code 4 cfg s = Inr i"
    using status_configured_id[of cfg s]
    by (auto simp: eval_nat_numeral find_status_code_Suc[of _ _ s] status_or_configured
        simp del: find_status_code.simps)
  then show "\<exists>i. \<forall>n\<ge>4. find_status_code n cfg s = Inr i"
    by (metis find_status_code_fuel)
next
  assume "\<not> status_configured cfg ''Invalid_Message'' \<and> \<not> status_configured cfg ''Invalid_Data''"
  then have two: "find_status_code (Suc (Suc n)) cfg ''Invalid_Data'' = Inl Hang" for n
    by (simp add: find_closed status_or_configured del: find_status_code.simps)
  have one: "find_status_code (Suc 0) cfg ''Invalid_Data'' = Inl Hang"
    using \<open>_ \<and> _\<close> by (simp add: find_status_code_Suc status_or_configured del: find_status_code.simps(2))
  show "\<forall>n. find_status_code n cfg ''Invalid_Data'' = Inl Hang"
  proof
    fix n
    show "find_status_code n cfg ''Invalid_Data'' = Inl Hang"
      by (cases n; cases "n - 1") (use one two in \<open>auto simp del: find_status_code.simps(2)\<close>)
  qed
qed

end
