(* ===== verification/InfoBase.thy ===== *)
theory InfoBase
  imports ProtocolMessage
begin

text \<open>
  \<open>src/InfoBaseMgr.h\<close>, \<open>src/InfoBaseMgr.cpp\<close>: what is known about the peers and their
  destinations. A shared pointer to a \<open>DestinationData\<close> or \<open>PeerData\<close> is the record
  itself, held in the map that owns it. An operation called with \<open>tell_peers\<close> also calls
  an operation of every peer, in the order of the map of peers; the calls it makes are
  returned as a list for the component that owns the peers to carry out. Log messages are
  left out: the texts they build never throw for data items whose ids are configured.
\<close>

unbundle bit_operations_syntax

section \<open>Data\<close>

record DestinationData =
  dd_mac_address :: DlepMac
  dd_metric_data_items :: "(u32, DataItem) smap"
  dd_ip_data_items :: "DataItem list"
  dd_needs_response :: string

record PeerData =
  pd_peer_id :: string
  pd_destination_data :: "(DlepMac, DestinationData) smap"
  pd_metric_data_items :: "(u32, DataItem) smap"
  pd_ip_data_items :: "DataItem list"
  pd_other_data_items :: "DataItem list"

type_synonym InfoBaseMgr = "(string, PeerData) smap"

text \<open>The calls \<open>p->destination_up(mac, data_items)\<close> and so on, for a peer \<open>p\<close>.\<close>

datatype peer_call =
    Call_destination_up DlepMac "DataItem list"
  | Call_destination_update DlepMac "DataItem list"
  | Call_destination_down DlepMac "DataItem list"
  | Call_peer_update "DataItem list"

definition tell :: "bool \<Rightarrow> string list \<Rightarrow> peer_call \<Rightarrow> (string \<times> peer_call) list" where
  "tell tell_peers peers c = (if tell_peers then map (\<lambda>p. (p, c)) peers else [])"

section \<open>IP addresses and subnets\<close>

text \<open>\<open>ip_data_items.erase(it)\<close> at the first equal data item.\<close>

fun erase_ip :: "DataItem \<Rightarrow> DataItem list \<Rightarrow> DataItem list" where
  "erase_ip new [] = []"
| "erase_ip new (di # dis) = (if ip_equal di new then dis else di # erase_ip new dis)"

definition update_ip_data_items :: "DataItem list \<Rightarrow> DataItem \<Rightarrow> DataItem list" where
  "update_ip_data_items ip_data_items new =
     (if list_ex (\<lambda>di. ip_equal di new) ip_data_items
      then (if \<not> ip_adding new then erase_ip new ip_data_items else ip_data_items)
      else if ip_adding new then ip_data_items @ [new] else ip_data_items)"

section \<open>Destinations\<close>

fun destination_items ::
    "ProtocolConfig \<Rightarrow> DataItem list \<Rightarrow> DestinationData \<Rightarrow> u32 \<Rightarrow> (DestinationData \<times> u32) res" where
  "destination_items cfg [] dd num_updates = Inr (dd, num_updates)"
| "destination_items cfg (di # dis) dd num_updates =
     rbind (is_metric cfg (di_id di) None) (\<lambda>m.
     if m
     then destination_items cfg dis
            (dd\<lparr>dd_metric_data_items := smap_insert (di_id di) di (dd_metric_data_items dd)\<rparr>) (num_updates + 1)
     else rbind (is_ipaddr cfg (di_id di) None) (\<lambda>ip.
       if ip
       then destination_items cfg dis
              (dd\<lparr>dd_ip_data_items := update_ip_data_items (dd_ip_data_items dd) di\<rparr>) (num_updates + 1)
       else destination_items cfg dis dd num_updates))"

definition new_DestinationData ::
    "ProtocolConfig \<Rightarrow> DlepMac \<Rightarrow> DataItem list \<Rightarrow> DestinationData res" where
  "new_DestinationData cfg mac initial_data_items =
     rbind (destination_items cfg initial_data_items
              \<lparr>dd_mac_address = mac, dd_metric_data_items = [], dd_ip_data_items = [],
               dd_needs_response = ''''\<rparr> 0) (\<lambda>(dd, _). Inr dd)"

definition destination_update ::
    "ProtocolConfig \<Rightarrow> string list \<Rightarrow> DataItem list \<Rightarrow> bool \<Rightarrow> DestinationData
     \<Rightarrow> (DestinationData \<times> u32 \<times> (string \<times> peer_call) list) res" where
  "destination_update cfg peers updates tell_peers dd =
     rbind (destination_items cfg updates dd 0) (\<lambda>(dd', num_updates).
     Inr (dd', num_updates, tell tell_peers peers (Call_destination_update (dd_mac_address dd) updates)))"

definition get_all_data_items :: "DestinationData \<Rightarrow> DataItem list" where
  "get_all_data_items dd = map snd (dd_metric_data_items dd) @ dd_ip_data_items dd"

definition destination_find_ip :: "DataItem \<Rightarrow> DestinationData \<Rightarrow> string" where
  "destination_find_ip ip_data_item dd =
     (if find_ip_data_item ip_data_item (dd_ip_data_items dd) \<noteq> None
      then ''destination='' @ mac_to_string (dd_mac_address dd) else '''')"

section \<open>Peers\<close>

fun update_data_items_helper ::
    "ProtocolConfig \<Rightarrow> u32 \<Rightarrow> DataItem list \<Rightarrow> PeerData \<Rightarrow> (PeerData \<times> DataItem list) res" where
  "update_data_items_helper cfg status_id [] pd = Inr (pd, [])"
| "update_data_items_helper cfg status_id (di # dis) pd =
     rbind (is_metric cfg (di_id di) None) (\<lambda>m.
     if m
     then rbind (update_data_items_helper cfg status_id dis
              (pd\<lparr>pd_metric_data_items := smap_insert (di_id di) di (pd_metric_data_items pd)\<rparr>))
            (\<lambda>(pd', ups). Inr (pd', di # ups))
     else rbind (is_ipaddr cfg (di_id di) None) (\<lambda>ip.
       if ip
       then update_data_items_helper cfg status_id dis
              (pd\<lparr>pd_ip_data_items := update_ip_data_items (pd_ip_data_items pd) di\<rparr>)
       else if di_id di \<noteq> status_id
       then update_data_items_helper cfg status_id dis
              (pd\<lparr>pd_other_data_items := pd_other_data_items pd @ [di]\<rparr>)
       else update_data_items_helper cfg status_id dis pd))"

definition new_PeerData :: "ProtocolConfig \<Rightarrow> string \<Rightarrow> DataItem list \<Rightarrow> PeerData res" where
  "new_PeerData cfg i initial_data_items =
     rbind (get_data_item_id cfg ''Status'' None) (\<lambda>status_id.
     rbind (update_data_items_helper cfg status_id initial_data_items
              \<lparr>pd_peer_id = i, pd_destination_data = [], pd_metric_data_items = [],
               pd_ip_data_items = [], pd_other_data_items = []\<rparr>) (\<lambda>(pd, _). Inr pd))"

definition addDestination ::
    "ProtocolConfig \<Rightarrow> string list \<Rightarrow> DlepMac \<Rightarrow> DataItem list \<Rightarrow> bool \<Rightarrow> PeerData
     \<Rightarrow> (PeerData \<times> bool \<times> (string \<times> peer_call) list) res" where
  "addDestination cfg peers mac initial_data_items tell_peers pd =
     (case smap_find (pd_destination_data pd) mac of
        Some _ \<Rightarrow> Inr (pd, False, [])
      | None \<Rightarrow>
          rbind (new_DestinationData cfg mac initial_data_items) (\<lambda>ddp.
          Inr (pd\<lparr>pd_destination_data := smap_insert mac ddp (pd_destination_data pd)\<rparr>, True,
               tell tell_peers peers (Call_destination_up mac initial_data_items))))"

text \<open>\<open>sendAllDestinations(peer)\<close>: the calls it makes on the peer.\<close>

definition sendAllDestinations :: "PeerData \<Rightarrow> peer_call list" where
  "sendAllDestinations pd =
     map (\<lambda>(mac, ddp). Call_destination_up mac (get_all_data_items ddp)) (pd_destination_data pd)"

definition updateDestination ::
    "ProtocolConfig \<Rightarrow> string list \<Rightarrow> DlepMac \<Rightarrow> DataItem list \<Rightarrow> bool \<Rightarrow> PeerData
     \<Rightarrow> (PeerData \<times> bool \<times> (string \<times> peer_call) list) res" where
  "updateDestination cfg peers mac updates tell_peers pd =
     (case smap_find (pd_destination_data pd) mac of
        None \<Rightarrow> Inr (pd, False, [])
      | Some ddp \<Rightarrow>
          rbind (destination_update cfg peers updates tell_peers ddp) (\<lambda>(ddp', _, calls).
          Inr (pd\<lparr>pd_destination_data := smap_modify mac (\<lambda>_. ddp') (pd_destination_data pd)\<rparr>, True, calls)))"

definition removeDestination ::
    "string list \<Rightarrow> DlepMac \<Rightarrow> bool \<Rightarrow> DataItem list \<Rightarrow> PeerData
     \<Rightarrow> PeerData \<times> bool \<times> (string \<times> peer_call) list" where
  "removeDestination peers mac tell_peers items pd =
     (case smap_find (pd_destination_data pd) mac of
        None \<Rightarrow> (pd, False, [])
      | Some _ \<Rightarrow>
          (pd\<lparr>pd_destination_data := smap_erase mac (pd_destination_data pd)\<rparr>, True,
           tell tell_peers peers (Call_destination_down mac items)))"

definition getDestinationData :: "DlepMac \<Rightarrow> PeerData \<Rightarrow> DestinationData option" where
  "getDestinationData mac pd = smap_find (pd_destination_data pd) mac"

definition getDestinations :: "PeerData \<Rightarrow> DlepMac list" where
  "getDestinations pd = map fst (pd_destination_data pd)"

definition validDestination :: "DlepMac \<Rightarrow> PeerData \<Rightarrow> bool" where
  "validDestination mac pd = (smap_find (pd_destination_data pd) mac \<noteq> None)"

text \<open>Is there a metric in the update that the peer did not have before?\<close>

fun unknown_metric :: "ProtocolConfig \<Rightarrow> DataItem list \<Rightarrow> PeerData \<Rightarrow> bool res" where
  "unknown_metric cfg [] pd = Inr False"
| "unknown_metric cfg (di # dis) pd =
     rbind (is_metric cfg (di_id di) None) (\<lambda>m.
     if m \<and> smap_find (pd_metric_data_items pd) (di_id di) = None
     then rbind (get_data_item_name cfg (di_id di) None) (\<lambda>_. Inr True)
     else unknown_metric cfg dis pd)"

fun update_destinations ::
    "ProtocolConfig \<Rightarrow> DataItem list \<Rightarrow> (DlepMac, DestinationData) smap
     \<Rightarrow> (DlepMac, DestinationData) smap res" where
  "update_destinations cfg updates [] = Inr []"
| "update_destinations cfg updates ((mac, ddp) # dds) =
     rbind (destination_update cfg [] updates False ddp) (\<lambda>(ddp', _, _).
     rbind (update_destinations cfg updates dds) (\<lambda>dds'. Inr ((mac, ddp') # dds')))"

definition update_data_items ::
    "ProtocolConfig \<Rightarrow> string list \<Rightarrow> DataItem list \<Rightarrow> bool \<Rightarrow> PeerData
     \<Rightarrow> (PeerData \<times> string \<times> (string \<times> peer_call) list) res" where
  "update_data_items cfg peers updates tell_peers pd =
     rbind (unknown_metric cfg updates pd) (\<lambda>unknown.
     if unknown then Inr (pd, ''Invalid_Message'', [])
     else rbind (get_data_item_id cfg ''Status'' None) (\<lambda>status_id.
       rbind (update_data_items_helper cfg status_id updates pd) (\<lambda>(pd', destination_updates).
       rbind (if destination_updates \<noteq> []
              then update_destinations cfg destination_updates (pd_destination_data pd')
              else Inr (pd_destination_data pd')) (\<lambda>dds.
       Inr (pd'\<lparr>pd_destination_data := dds\<rparr>, ''Success'', tell tell_peers peers (Call_peer_update updates))))))"

text \<open>One data item: the first of the three places that holds it loses it.\<close>

definition remove_data_item :: "PeerData \<Rightarrow> DataItem \<Rightarrow> PeerData" where
  "remove_data_item pd di =
     (if smap_find (pd_metric_data_items pd) (di_id di) = Some di
      then pd\<lparr>pd_metric_data_items := smap_erase (di_id di) (pd_metric_data_items pd)\<rparr>
      else if di \<in> set (pd_ip_data_items pd)
      then pd\<lparr>pd_ip_data_items := remove1 di (pd_ip_data_items pd)\<rparr>
      else if di \<in> set (pd_other_data_items pd)
      then pd\<lparr>pd_other_data_items := remove1 di (pd_other_data_items pd)\<rparr>
      else pd)"

fun remove_data_items :: "DataItem list \<Rightarrow> PeerData \<Rightarrow> PeerData" where
  "remove_data_items [] pd = pd"
| "remove_data_items (di # dis) pd = remove_data_items dis (remove_data_item pd di)"

definition get_data_items :: "PeerData \<Rightarrow> DataItem list" where
  "get_data_items pd = map snd (pd_metric_data_items pd) @ pd_ip_data_items pd @ pd_other_data_items pd"

definition set_needs_response :: "DlepMac \<Rightarrow> string \<Rightarrow> PeerData \<Rightarrow> PeerData" where
  "set_needs_response mac response_name pd =
     pd\<lparr>pd_destination_data :=
          smap_modify mac (\<lambda>dd. dd\<lparr>dd_needs_response := response_name\<rparr>) (pd_destination_data pd)\<rparr>"

definition needs_response :: "DlepMac \<Rightarrow> PeerData \<Rightarrow> string" where
  "needs_response mac pd =
     (case smap_find (pd_destination_data pd) mac of None \<Rightarrow> '''' | Some dd \<Rightarrow> dd_needs_response dd)"

fun find_ip_in_destinations :: "DataItem \<Rightarrow> (DlepMac, DestinationData) smap \<Rightarrow> string" where
  "find_ip_in_destinations di [] = ''''"
| "find_ip_in_destinations di ((mac, ddp) # dds) =
     (let ip_owner = destination_find_ip di ddp
      in if ip_owner \<noteq> '''' then ip_owner else find_ip_in_destinations di dds)"

definition peer_find_ip :: "DataItem \<Rightarrow> PeerData \<Rightarrow> string" where
  "peer_find_ip di pd =
     (if find_ip_data_item di (pd_ip_data_items pd) \<noteq> None then ''peer='' @ pd_peer_id pd
      else find_ip_in_destinations di (pd_destination_data pd))"

section \<open>The information base\<close>

definition addPeer ::
    "ProtocolConfig \<Rightarrow> string \<Rightarrow> DataItem list \<Rightarrow> InfoBaseMgr \<Rightarrow> (InfoBaseMgr \<times> PeerData) res" where
  "addPeer cfg peer_id initial_values mgr =
     rbind (new_PeerData cfg peer_id initial_values) (\<lambda>pdp. Inr (smap_insert peer_id pdp mgr, pdp))"

definition removePeer :: "string \<Rightarrow> InfoBaseMgr \<Rightarrow> InfoBaseMgr \<times> bool" where
  "removePeer peer_id mgr =
     (case smap_find mgr peer_id of None \<Rightarrow> (mgr, False) | Some _ \<Rightarrow> (smap_erase peer_id mgr, True))"

definition getPeerData :: "string \<Rightarrow> InfoBaseMgr \<Rightarrow> PeerData option" where
  "getPeerData peer_id mgr = smap_find mgr peer_id"

definition validPeer :: "string \<Rightarrow> InfoBaseMgr \<Rightarrow> bool" where
  "validPeer peer_id mgr = (smap_find mgr peer_id \<noteq> None)"

definition mgr_validDestination :: "string \<Rightarrow> DlepMac \<Rightarrow> InfoBaseMgr \<Rightarrow> bool" where
  "mgr_validDestination peer_id mac mgr =
     (case smap_find mgr peer_id of None \<Rightarrow> False | Some pdp \<Rightarrow> validDestination mac pdp)"

section \<open>What the information base stands for\<close>

text \<open>
  A set of IP data items stands for the set of addresses and subnets that were added and
  not dropped; the metrics of an owner are a finite map from ids to data items.
\<close>

definition ip_keys :: "DataItem list \<Rightarrow> ip_key set" where
  "ip_keys dis = {k. \<exists>di\<in>set dis. ip_key_of di = Some k}"

definition ip_list_ok :: "DataItem list \<Rightarrow> bool" where
  "ip_list_ok dis = (distinct (map ip_key_of dis) \<and> list_all (\<lambda>di. ip_key_of di \<noteq> None \<and> ip_adding di) dis)"

definition ip_apply :: "DataItem \<Rightarrow> ip_key set \<Rightarrow> ip_key set" where
  "ip_apply di A = (case ip_key_of di of None \<Rightarrow> A
     | Some k \<Rightarrow> if ip_adding di then insert k A else A - {k})"

lemma ip_adding_key: "ip_adding di \<Longrightarrow> ip_key_of di \<noteq> None"
  using ip_flags_other[of di] by (cases "ip_key_of di") (auto simp: ip_adding_def)

lemma erase_ip_keys:
  assumes "ip_list_ok dis" and "ip_key_of new = Some k"
  shows "ip_list_ok (erase_ip new dis) \<and> ip_keys (erase_ip new dis) = ip_keys dis - {k}
    \<and> set (erase_ip new dis) \<subseteq> set dis"
  using assms
proof (induction dis)
  case (Cons di dis)
  then have ok: "ip_list_ok dis" by (simp add: ip_list_ok_def)
  show ?case
  proof (cases "ip_key_of di = Some k")
    case True
    then have "k \<notin> ip_keys dis"
      using Cons.prems by (force simp: ip_list_ok_def ip_keys_def image_iff)
    with True ok Cons.prems(2) show ?thesis by (auto simp: ip_equal_key ip_keys_def)
  next
    case False
    with Cons ok have IH: "ip_list_ok (erase_ip new dis)" "ip_keys (erase_ip new dis) = ip_keys dis - {k}"
      "set (erase_ip new dis) \<subseteq> set dis" by auto
    from Cons.prems(1) have di: "ip_key_of di \<notin> ip_key_of ` set dis" "ip_key_of di \<noteq> None" "ip_adding di"
      by (auto simp: ip_list_ok_def)
    have "ip_key_of di \<notin> ip_key_of ` set (erase_ip new dis)" using di(1) IH(3) by blast
    with di IH(1) have "ip_list_ok (di # erase_ip new dis)" by (simp add: ip_list_ok_def)
    moreover have "ip_keys (di # erase_ip new dis) = ip_keys (di # dis) - {k}"
      using False IH(2) by (auto simp: ip_keys_def)
    ultimately show ?thesis
      using False Cons.prems(2) IH(3) by (auto simp: ip_equal_key)
  qed
qed (simp add: ip_list_ok_def ip_keys_def)

lemma list_ex_ip_equal:
  "list_ex (\<lambda>di. ip_equal di new) dis \<longleftrightarrow> (\<exists>k. ip_key_of new = Some k \<and> k \<in> ip_keys dis)"
  by (cases "ip_key_of new") (auto simp: list_ex_iff ip_equal_key ip_keys_def)

lemma update_ip_refines:
  assumes "ip_list_ok dis"
  shows "ip_list_ok (update_ip_data_items dis di) \<and> ip_keys (update_ip_data_items dis di) = ip_apply di (ip_keys dis)"
proof (cases "ip_key_of di")
  case None
  then have "\<not> ip_adding di" using ip_adding_key[of di] by blast
  with None assms show ?thesis by (simp add: update_ip_data_items_def list_ex_ip_equal ip_apply_def)
next
  case (Some k)
  show ?thesis
  proof (cases "ip_adding di")
    case True
    have "ip_list_ok (dis @ [di])" if "k \<notin> ip_keys dis"
      using assms True Some that by (auto simp: ip_list_ok_def ip_keys_def)
    moreover have "ip_keys (dis @ [di]) = insert k (ip_keys dis)"
      using Some by (auto simp: ip_keys_def)
    ultimately show ?thesis
      using True Some assms by (auto simp: update_ip_data_items_def list_ex_ip_equal ip_apply_def)
  next
    case False
    with Some assms erase_ip_keys[OF assms Some] show ?thesis
      by (auto simp: update_ip_data_items_def list_ex_ip_equal ip_apply_def)
  qed
qed

text \<open>The state of a destination, abstractly, and the effect of one data item on it.\<close>

type_synonym abs_items = "(u32 \<rightharpoonup> DataItem) \<times> ip_key set"

definition abs_destination :: "DestinationData \<Rightarrow> abs_items" where
  "abs_destination dd = (smap_find (dd_metric_data_items dd), ip_keys (dd_ip_data_items dd))"

definition metric_id :: "ProtocolConfig \<Rightarrow> u32 \<Rightarrow> bool" where
  "metric_id cfg i = (is_metric cfg i None = Inr True)"

definition ipaddr_id :: "ProtocolConfig \<Rightarrow> u32 \<Rightarrow> bool" where
  "ipaddr_id cfg i = (is_ipaddr cfg i None = Inr True)"

definition abs_apply :: "ProtocolConfig \<Rightarrow> DataItem \<Rightarrow> abs_items \<Rightarrow> abs_items" where
  "abs_apply cfg di a =
     (if metric_id cfg (di_id di) then ((fst a)(di_id di \<mapsto> di), snd a)
      else if ipaddr_id cfg (di_id di) then (fst a, ip_apply di (snd a)) else a)"

definition metrics_ok :: "ProtocolConfig \<Rightarrow> (u32, DataItem) smap \<Rightarrow> bool" where
  "metrics_ok cfg m = (smap_ok m \<and> list_all (\<lambda>(i, di). di_id di = i \<and> metric_id cfg i) m)"

definition dd_ok :: "ProtocolConfig \<Rightarrow> DestinationData \<Rightarrow> bool" where
  "dd_ok cfg dd = (metrics_ok cfg (dd_metric_data_items dd) \<and> ip_list_ok (dd_ip_data_items dd))"

lemma metrics_ok_insert:
  "metrics_ok cfg m \<Longrightarrow> metric_id cfg (di_id di) \<Longrightarrow> metrics_ok cfg (smap_insert (di_id di) di m)"
  using set_smap_insert[of "di_id di" di m] by (fastforce simp: metrics_ok_def list_all_iff)

lemma metrics_ok_erase: "metrics_ok cfg m \<Longrightarrow> metrics_ok cfg (smap_erase i m)"
  using set_smap_erase[of i m] by (auto simp: metrics_ok_def list_all_iff)

lemma destination_items_refines:
  "destination_items cfg dis dd n = Inr (dd', n') \<Longrightarrow> dd_ok cfg dd \<Longrightarrow>
   dd_ok cfg dd' \<and> abs_destination dd' = fold (abs_apply cfg) dis (abs_destination dd)
   \<and> dd_mac_address dd' = dd_mac_address dd \<and> dd_needs_response dd' = dd_needs_response dd"
proof (induction cfg dis dd n arbitrary: dd' n' rule: destination_items.induct)
  case (2 cfg di dis dd n)
  consider (metric) "is_metric cfg (di_id di) None = Inr True"
    | (ip) "is_metric cfg (di_id di) None = Inr False" "is_ipaddr cfg (di_id di) None = Inr True"
    | (other) "is_metric cfg (di_id di) None = Inr False" "is_ipaddr cfg (di_id di) None = Inr False"
    using "2.prems"(1) by (auto simp: res_simps split: if_splits)
  then show ?case
  proof cases
    case metric
    let ?dd = "dd\<lparr>dd_metric_data_items := smap_insert (di_id di) di (dd_metric_data_items dd)\<rparr>"
    have "destination_items cfg dis ?dd (n + 1) = Inr (dd', n')" using "2.prems"(1) metric by simp
    moreover have "dd_ok cfg ?dd"
      using "2.prems"(2) metric by (simp add: dd_ok_def metrics_ok_insert metric_id_def)
    moreover have "abs_destination ?dd = abs_apply cfg di (abs_destination dd)"
      using metric by (simp add: abs_destination_def abs_apply_def metric_id_def smap_simps)
    ultimately show ?thesis using "2.IH"(1)[OF metric TrueI, of dd' n'] by simp
  next
    case ip
    let ?dd = "dd\<lparr>dd_ip_data_items := update_ip_data_items (dd_ip_data_items dd) di\<rparr>"
    have "destination_items cfg dis ?dd (n + 1) = Inr (dd', n')" using "2.prems"(1) ip by simp
    moreover have "dd_ok cfg ?dd"
      using "2.prems"(2) update_ip_refines by (simp add: dd_ok_def)
    moreover have "abs_destination ?dd = abs_apply cfg di (abs_destination dd)"
      using ip "2.prems"(2) update_ip_refines[of "dd_ip_data_items dd" di]
      by (simp add: abs_destination_def abs_apply_def metric_id_def ipaddr_id_def dd_ok_def)
    ultimately show ?thesis using "2.IH"(2)[OF ip(1) _ ip(2) TrueI, of dd' n'] by simp
  next
    case other
    have "destination_items cfg dis dd n = Inr (dd', n')" using "2.prems"(1) other by simp
    moreover have "abs_apply cfg di a = a" for a
      using other by (simp add: abs_apply_def metric_id_def ipaddr_id_def)
    ultimately show ?thesis using "2.IH"(3)[OF other(1) _ other(2), of dd' n'] "2.prems"(2) by simp
  qed
qed simp

definition abs_peer :: "PeerData \<Rightarrow> abs_items" where
  "abs_peer pd = (smap_find (pd_metric_data_items pd), ip_keys (pd_ip_data_items pd))"

lemma abs_peer_destinations [simp]: "abs_peer (pd\<lparr>pd_destination_data := dds\<rparr>) = abs_peer pd"
  by (simp add: abs_peer_def)

definition abs_dests :: "(DlepMac, DestinationData) smap \<Rightarrow> DlepMac \<rightharpoonup> abs_items" where
  "abs_dests dds mac = map_option abs_destination (smap_find dds mac)"

definition dests_ok :: "ProtocolConfig \<Rightarrow> (DlepMac, DestinationData) smap \<Rightarrow> bool" where
  "dests_ok cfg dds = (smap_ok dds \<and> list_all (\<lambda>(mac, dd). dd_mac_address dd = mac \<and> dd_ok cfg dd) dds)"

definition pd_ok :: "ProtocolConfig \<Rightarrow> PeerData \<Rightarrow> bool" where
  "pd_ok cfg pd = (metrics_ok cfg (pd_metric_data_items pd) \<and> ip_list_ok (pd_ip_data_items pd)
     \<and> dests_ok cfg (pd_destination_data pd))"

text \<open>With configured ids nothing throws.\<close>

definition ids_known :: "ProtocolConfig \<Rightarrow> DataItem list \<Rightarrow> bool" where
  "ids_known cfg = list_all (\<lambda>di. case get_data_item_info cfg (di_id di) None of Inl _ \<Rightarrow> False | Inr _ \<Rightarrow> True)"

lemma ids_known_Cons:
  assumes "ids_known cfg (di # dis)"
  obtains m ip where "is_metric cfg (di_id di) None = Inr m" "is_ipaddr cfg (di_id di) None = Inr ip"
    "ids_known cfg dis"
proof -
  from assms obtain info where "get_data_item_info cfg (di_id di) None = Inr info" "ids_known cfg dis"
    by (auto simp: ids_known_def split: sum.splits)
  then show ?thesis
    by (cases "di_id di = IdUndefined") (auto simp: is_metric_def is_ipaddr_def intro: that)
qed

lemma items_ok_ids_known: "items_ok cfg None dis \<Longrightarrow> ids_known cfg dis"
proof (induction dis)
  case (Cons di dis)
  then show ?case by (cases di) (auto simp: ids_known_def split: sum.splits)
qed (simp add: ids_known_def)

lemma destination_items_total: "ids_known cfg dis \<Longrightarrow> \<exists>r. destination_items cfg dis dd n = Inr r"
proof (induction dis arbitrary: dd n)
  case (Cons di dis)
  from Cons.prems show ?case by (rule ids_known_Cons) (use Cons.IH in auto)
qed simp

lemma helper_total: "ids_known cfg dis \<Longrightarrow> \<exists>r. update_data_items_helper cfg sid dis pd = Inr r"
proof (induction dis arbitrary: pd)
  case (Cons di dis)
  from Cons.prems obtain m ip where h: "is_metric cfg (di_id di) None = Inr m"
    "is_ipaddr cfg (di_id di) None = Inr ip" "ids_known cfg dis" by (rule ids_known_Cons)
  from Cons.IH[OF h(3), of "pd\<lparr>pd_metric_data_items := smap_insert (di_id di) di (pd_metric_data_items pd)\<rparr>"]
  obtain pd' ups where "update_data_items_helper cfg sid dis
      (pd\<lparr>pd_metric_data_items := smap_insert (di_id di) di (pd_metric_data_items pd)\<rparr>) = Inr (pd', ups)"
    by auto
  then show ?case using Cons.IH[OF h(3)] h(1,2) by simp
qed simp

lemma update_destinations_total:
  "ids_known cfg dis \<Longrightarrow> \<exists>r. update_destinations cfg dis dds = Inr r"
proof (induction cfg dis dds rule: update_destinations.induct)
  case (2 cfg dis mac dd dds)
  from destination_items_total[OF "2.prems"] obtain dd' n' where "destination_items cfg dis dd 0 = Inr (dd', n')"
    by fastforce
  then have "destination_update cfg [] dis False dd = Inr (dd', n', [])"
    by (simp add: destination_update_def tell_def)
  with "2.IH"[OF this refl refl "2.prems"] show ?case by auto
qed simp

definition is_other :: "ProtocolConfig \<Rightarrow> u32 \<Rightarrow> DataItem \<Rightarrow> bool" where
  "is_other cfg status_id di \<longleftrightarrow>
     \<not> metric_id cfg (di_id di) \<and> \<not> ipaddr_id cfg (di_id di) \<and> di_id di \<noteq> status_id"

lemma helper_refines:
  "update_data_items_helper cfg sid dis pd = Inr (pd', ups) \<Longrightarrow> pd_ok cfg pd \<Longrightarrow>
   pd_ok cfg pd' \<and> abs_peer pd' = fold (abs_apply cfg) dis (abs_peer pd)
   \<and> pd_destination_data pd' = pd_destination_data pd \<and> pd_peer_id pd' = pd_peer_id pd
   \<and> pd_other_data_items pd' = pd_other_data_items pd @ filter (is_other cfg sid) dis
   \<and> ups = filter (\<lambda>di. metric_id cfg (di_id di)) dis"
proof (induction cfg sid dis pd arbitrary: pd' ups rule: update_data_items_helper.induct)
  case (2 cfg sid di dis pd)
  consider (metric) "is_metric cfg (di_id di) None = Inr True"
    | (ip) "is_metric cfg (di_id di) None = Inr False" "is_ipaddr cfg (di_id di) None = Inr True"
    | (status) "is_metric cfg (di_id di) None = Inr False" "is_ipaddr cfg (di_id di) None = Inr False" "di_id di = sid"
    | (other) "is_metric cfg (di_id di) None = Inr False" "is_ipaddr cfg (di_id di) None = Inr False" "di_id di \<noteq> sid"
    using "2.prems"(1) by (auto simp: res_simps split: if_splits)
  then show ?case
  proof cases
    case metric
    let ?pd = "pd\<lparr>pd_metric_data_items := smap_insert (di_id di) di (pd_metric_data_items pd)\<rparr>"
    from "2.prems"(1) metric obtain ups' where ups: "ups = di # ups'"
      "update_data_items_helper cfg sid dis ?pd = Inr (pd', ups')" by (auto simp: res_simps)
    have "pd_ok cfg ?pd"
      using "2.prems"(2) metric by (simp add: pd_ok_def metrics_ok_insert metric_id_def)
    from "2.IH"(1)[OF metric TrueI ups(2) this] show ?thesis
      using metric ups(1) by (simp add: abs_peer_def abs_apply_def metric_id_def is_other_def smap_simps)
  next
    case ip
    let ?pd = "pd\<lparr>pd_ip_data_items := update_ip_data_items (pd_ip_data_items pd) di\<rparr>"
    have eq: "update_data_items_helper cfg sid dis ?pd = Inr (pd', ups)" using "2.prems"(1) ip by simp
    have ref: "ip_list_ok (pd_ip_data_items ?pd)" "ip_keys (pd_ip_data_items ?pd) = ip_apply di (ip_keys (pd_ip_data_items pd))"
      using "2.prems"(2) update_ip_refines[of "pd_ip_data_items pd" di] by (simp_all add: pd_ok_def)
    then have "pd_ok cfg ?pd" using "2.prems"(2) by (simp add: pd_ok_def)
    from "2.IH"(2)[OF ip(1) _ ip(2) TrueI eq this] ref(2) show ?thesis
      using ip by (simp add: abs_peer_def abs_apply_def metric_id_def ipaddr_id_def is_other_def)
  next
    case status
    have eq: "update_data_items_helper cfg sid dis pd = Inr (pd', ups)" using "2.prems"(1) status by simp
    from "2.IH"(4)[OF status(1) _ status(2) _ _ eq "2.prems"(2)] status show ?thesis
      by (simp add: abs_apply_def metric_id_def ipaddr_id_def is_other_def)
  next
    case other
    let ?pd = "pd\<lparr>pd_other_data_items := pd_other_data_items pd @ [di]\<rparr>"
    have eq: "update_data_items_helper cfg sid dis ?pd = Inr (pd', ups)" using "2.prems"(1) other by simp
    have "pd_ok cfg ?pd" using "2.prems"(2) by (simp add: pd_ok_def)
    from "2.IH"(3)[OF other(1) _ other(2) _ other(3) eq this] other show ?thesis
      by (simp add: abs_apply_def metric_id_def ipaddr_id_def is_other_def abs_peer_def)
  qed
qed simp

lemma update_destinations_refines:
  "update_destinations cfg dis dds = Inr dds' \<Longrightarrow> dests_ok cfg dds \<Longrightarrow>
   dests_ok cfg dds' \<and> map fst dds' = map fst dds
   \<and> abs_dests dds' = (\<lambda>mac. map_option (fold (abs_apply cfg) dis) (abs_dests dds mac))"
proof (induction cfg dis dds arbitrary: dds' rule: update_destinations.induct)
  case (2 cfg dis mac dd dds)
  from "2.prems"(1) obtain dd' n c ds where h: "destination_update cfg [] dis False dd = Inr (dd', n, c)"
    "update_destinations cfg dis dds = Inr ds" "dds' = (mac, dd') # ds"
    by (auto simp: res_simps)
  have ok: "dests_ok cfg dds" "dd_ok cfg dd" "dd_mac_address dd = mac" "\<forall>k\<in>set (map fst dds). mac < k"
    using "2.prems"(2) by (auto simp: dests_ok_def smap_ok_Cons)
  have dest: "dd_ok cfg dd'" "abs_destination dd' = fold (abs_apply cfg) dis (abs_destination dd)"
    "dd_mac_address dd' = mac"
    using h(1) destination_items_refines[of cfg dis dd 0 dd'] ok(2,3)
    by (auto simp: destination_update_def res_simps)
  have IH: "dests_ok cfg ds" "map fst ds = map fst dds"
    "abs_dests ds = (\<lambda>mac. map_option (fold (abs_apply cfg) dis) (abs_dests dds mac))"
    using "2.IH"[OF h(1) refl refl h(2) ok(1)] by auto
  have "dests_ok cfg dds'"
    using IH(1,2) dest(1,3) ok(4) by (simp only: h(3) dests_ok_def smap_ok_Cons) simp
  moreover have "abs_dests dds' = (\<lambda>m. map_option (fold (abs_apply cfg) dis) (abs_dests ((mac, dd) # dds) m))"
    using fun_cong[OF IH(3)] dest(2) by (auto simp: fun_eq_iff abs_dests_def h(3))
  ultimately show ?case using IH(2) h(3) by simp
qed (auto simp: abs_dests_def fun_eq_iff)

lemma unknown_metric_iff:
  "ids_known cfg dis \<Longrightarrow> config_ok cfg \<Longrightarrow>
   unknown_metric cfg dis pd =
     Inr (\<exists>di\<in>set dis. metric_id cfg (di_id di) \<and> smap_find (pd_metric_data_items pd) (di_id di) = None)"
proof (induction dis)
  case (Cons di dis)
  then obtain m ip where h: "is_metric cfg (di_id di) None = Inr m" "ids_known cfg dis"
    by (blast elim: ids_known_Cons)
  from Cons.prems(1) obtain n where "get_data_item_name cfg (di_id di) None = Inr n"
    by (auto simp: ids_known_def get_data_item_info_def res_simps split: sum.splits)
  with Cons h show ?case by (auto simp: metric_id_def)
qed simp

section \<open>Reachable states\<close>

text \<open>What the session and the client do to the data of a peer, one operation after the other.\<close>

inductive peer_data_reachable :: "ProtocolConfig \<Rightarrow> PeerData \<Rightarrow> bool" for cfg where
  new: "new_PeerData cfg i dis = Inr pd \<Longrightarrow> peer_data_reachable cfg pd"
| add: "peer_data_reachable cfg pd \<Longrightarrow> addDestination cfg peers mac dis t pd = Inr (pd', b, calls) \<Longrightarrow>
    peer_data_reachable cfg pd'"
| update: "peer_data_reachable cfg pd \<Longrightarrow> updateDestination cfg peers mac dis t pd = Inr (pd', b, calls) \<Longrightarrow>
    peer_data_reachable cfg pd'"
| remove: "peer_data_reachable cfg pd \<Longrightarrow> removeDestination peers mac t dis pd = (pd', b, calls) \<Longrightarrow>
    peer_data_reachable cfg pd'"
| items: "peer_data_reachable cfg pd \<Longrightarrow> update_data_items cfg peers dis t pd = Inr (pd', s, calls) \<Longrightarrow>
    peer_data_reachable cfg pd'"
| remove_items: "peer_data_reachable cfg pd \<Longrightarrow> peer_data_reachable cfg (remove_data_items dis pd)"
| needs: "peer_data_reachable cfg pd \<Longrightarrow> peer_data_reachable cfg (set_needs_response mac r pd)"

lemma dests_ok_insert:
  assumes "dests_ok cfg dds" and "dd_ok cfg dd" and "dd_mac_address dd = mac"
  shows "dests_ok cfg (smap_insert mac dd dds)"
  using assms set_smap_insert[of mac dd dds] by (fastforce simp: dests_ok_def list_all_iff)


lemma dests_ok_find:
  "dests_ok cfg dds \<Longrightarrow> smap_find dds mac = Some dd \<Longrightarrow> dd_ok cfg dd \<and> dd_mac_address dd = mac"
  by (auto simp: dests_ok_def list_all_iff smap_find_set[symmetric])

lemma dests_ok_modify:
  assumes "dests_ok cfg dds"
    and "\<And>dd. dd_ok cfg dd \<Longrightarrow> dd_mac_address dd = mac \<Longrightarrow> smap_find dds mac = Some dd \<Longrightarrow>
           dd_ok cfg (f dd) \<and> dd_mac_address (f dd) = mac"
  shows "dests_ok cfg (smap_modify mac f dds)"
proof -
  have "dd_mac_address d = m \<and> dd_ok cfg d" if md: "(m, d) \<in> set (smap_modify mac f dds)" for m d
  proof -
    have "smap_ok dds" using assms(1) by (simp add: dests_ok_def)
    with md consider "smap_find dds m = Some d"
      | dd where "m = mac" "d = f dd" "smap_find dds mac = Some dd"
      by (auto simp: smap_find_set smap_simps split: if_splits)
    then show ?thesis
      using dests_ok_find[OF assms(1)] assms(2) by cases auto
  qed
  with assms(1) show ?thesis by (auto simp: dests_ok_def list_all_iff)
qed

lemma dests_ok_erase: "dests_ok cfg dds \<Longrightarrow> dests_ok cfg (smap_erase mac dds)"
  using set_smap_erase[of mac dds] by (auto simp: dests_ok_def list_all_iff)


lemma new_DestinationData_ok:
  assumes "new_DestinationData cfg mac dis = Inr dd"
  shows "dd_ok cfg dd \<and> dd_mac_address dd = mac
    \<and> abs_destination dd = fold (abs_apply cfg) dis (Map.empty, {}) \<and> dd_needs_response dd = ''''"
proof -
  let ?dd = "\<lparr>dd_mac_address = mac, dd_metric_data_items = [], dd_ip_data_items = [], dd_needs_response = ''''\<rparr>"
  from assms obtain n where "destination_items cfg dis ?dd 0 = Inr (dd, n)"
    by (auto simp: new_DestinationData_def res_simps)
  moreover have "dd_ok cfg ?dd" by (simp add: dd_ok_def metrics_ok_def ip_list_ok_def)
  moreover have "abs_destination ?dd = (Map.empty, {})"
    by (simp add: abs_destination_def ip_keys_def fun_eq_iff)
  ultimately show ?thesis using destination_items_refines[of cfg dis ?dd 0 dd n] by simp
qed

lemma ip_list_ok_remove1: "ip_list_ok dis \<Longrightarrow> ip_list_ok (remove1 di dis)"
  by (auto simp: ip_list_ok_def list_all_iff distinct_map inj_on_def distinct_remove1
      dest: notin_set_remove1 intro: in_set_remove1 elim!: set_mp[OF set_remove1_subset])

lemma remove_data_items_ok: "pd_ok cfg pd \<Longrightarrow> pd_ok cfg (remove_data_items dis pd)"
  by (induction dis pd rule: remove_data_items.induct)
    (auto simp: remove_data_item_def pd_ok_def metrics_ok_erase ip_list_ok_remove1)

lemma update_data_items_ok:
  assumes "update_data_items cfg peers dis t pd = Inr (pd', s, calls)" and "pd_ok cfg pd"
  shows "pd_ok cfg pd'"
proof -
  from assms(1) obtain unknown where u: "unknown_metric cfg dis pd = Inr unknown"
    by (auto simp: update_data_items_def res_simps)
  from assms(1) u consider "pd' = pd"
    | sid where "update_data_items_helper cfg sid dis pd = Inr (pd', [])"
    | sid pd1 ups dds where "update_data_items_helper cfg sid dis pd = Inr (pd1, ups)"
      "pd' = pd1\<lparr>pd_destination_data := dds\<rparr>" "update_destinations cfg ups (pd_destination_data pd1) = Inr dds"
    by (cases unknown) (auto simp: update_data_items_def res_simps split: if_splits)
  then show ?thesis
  proof cases
    case (3 sid pd1 ups dds)
    have "pd_ok cfg pd1" using helper_refines[OF 3(1) assms(2)] by blast
    moreover from this have "dests_ok cfg dds"
      using update_destinations_refines[OF 3(3)] by (simp add: pd_ok_def)
    ultimately show ?thesis by (simp add: pd_ok_def 3(2))
  qed (use assms helper_refines in auto)
qed

lemma peer_data_reachable_ok: "peer_data_reachable cfg pd \<Longrightarrow> pd_ok cfg pd"
proof (induction rule: peer_data_reachable.induct)
  case (new i dis pd)
  then obtain sid ups where "update_data_items_helper cfg sid dis
      \<lparr>pd_peer_id = i, pd_destination_data = [], pd_metric_data_items = [], pd_ip_data_items = [],
       pd_other_data_items = []\<rparr> = Inr (pd, ups)"
    by (auto simp: new_PeerData_def res_simps)
  from helper_refines[OF this] show ?case
    by (simp add: pd_ok_def metrics_ok_def ip_list_ok_def dests_ok_def)
next
  case (add pd peers mac dis t pd' b calls)
  then show ?case
    by (auto simp: addDestination_def res_simps pd_ok_def split: option.splits
        dest!: new_DestinationData_ok intro: dests_ok_insert)
next
  case (update pd peers mac dis t pd' b calls)
  show ?case
  proof (cases "smap_find (pd_destination_data pd) mac")
    case (Some dd)
    with update.hyps(2) obtain dd' n where dd': "destination_items cfg dis dd 0 = Inr (dd', n)"
      "pd' = pd\<lparr>pd_destination_data := smap_modify mac (\<lambda>_. dd') (pd_destination_data pd)\<rparr>"
      by (auto simp: updateDestination_def destination_update_def res_simps)
    have dests: "dests_ok cfg (pd_destination_data pd)" using update.IH by (simp add: pd_ok_def)
    have "dests_ok cfg (smap_modify mac (\<lambda>_. dd') (pd_destination_data pd))"
      by (rule dests_ok_modify[OF dests]) (use Some dd'(1) destination_items_refines in auto)
    with update.IH dd'(2) show ?thesis by (simp add: pd_ok_def)
  qed (use update in \<open>auto simp: updateDestination_def\<close>)
next
  case (remove pd peers mac t dis pd' b calls)
  then show ?case
    by (auto simp: removeDestination_def pd_ok_def split: option.splits intro: dests_ok_erase)
next
  case (items pd peers dis t pd' s calls)
  then show ?case by (blast intro: update_data_items_ok)
next
  case (remove_items pd dis)
  then show ?case by (blast intro: remove_data_items_ok)
next
  case (needs pd mac r)
  then show ?case
    by (auto simp: set_needs_response_def pd_ok_def dd_ok_def intro!: dests_ok_modify)
qed

section \<open>Properties\<close>

text \<open>
  C16: whatever destinations were added, updated or removed and whatever updates were applied,
  the data of a peer stays consistent: metrics are stored under their own id and only metrics
  are, no address or subnet is held twice by the same owner, every held one was added and not
  dropped, each destination is stored under its own MAC address, and so for every destination.
\<close>

theorem info_base_invariant:
  assumes "peer_data_reachable cfg pd"
  shows "pd_ok cfg pd"
  using assms by (rule peer_data_reachable_ok)

text \<open>
  \<open>update_ip_data_items\<close> implements a set of addresses and subnets: a data item with the
  add flag inserts what it identifies, one without removes it, duplicates never arise, and a
  data item that identifies no address or subnet changes nothing.
\<close>

lemma update_ip_data_items_refines:
  assumes "ip_list_ok dis"
  shows "ip_list_ok (update_ip_data_items dis di)
    \<and> ip_keys (update_ip_data_items dis di) = ip_apply di (ip_keys dis)"
  using assms by (rule update_ip_refines)


lemma abs_dests_insert:
  "abs_dests (smap_insert mac dd dds) = (abs_dests dds)(mac \<mapsto> abs_destination dd)"
  by (auto simp: abs_dests_def fun_eq_iff smap_simps)

lemma abs_dests_erase: "smap_ok dds \<Longrightarrow> abs_dests (smap_erase mac dds) = (abs_dests dds)(mac := None)"
  by (auto simp: abs_dests_def fun_eq_iff smap_simps)

lemma abs_dests_None: "abs_dests dds mac = None \<longleftrightarrow> smap_find dds mac = None"
  by (simp add: abs_dests_def)

text \<open>
  the destinations of a peer are a map from MAC addresses: \<open>addDestination\<close> on a new
  address adds it with the given data items, and on a known one refuses and changes nothing;
  \<open>removeDestination\<close> removes a known address, and refuses an unknown one; every other
  destination, and the peer's own data items, stay as they were.
\<close>

lemma destination_table:
  assumes "pd_ok cfg pd" and "ids_known cfg dis"
  shows "(\<exists>pd' calls. addDestination cfg peers mac dis t pd = Inr (pd', \<not> validDestination mac pd, calls)
      \<and> abs_peer pd' = abs_peer pd
      \<and> (if validDestination mac pd then pd' = pd
         else abs_dests (pd_destination_data pd') = (abs_dests (pd_destination_data pd))
                (mac \<mapsto> fold (abs_apply cfg) dis (Map.empty, {}))))
    \<and> (\<exists>pd' calls. removeDestination peers mac t dis pd = (pd', validDestination mac pd, calls)
      \<and> abs_peer pd' = abs_peer pd
      \<and> abs_dests (pd_destination_data pd') = (abs_dests (pd_destination_data pd))(mac := None))"
proof (cases "smap_find (pd_destination_data pd) mac")
  case None
  obtain dd where dd: "new_DestinationData cfg mac dis = Inr dd"
    using destination_items_total[OF assms(2), of "\<lparr>dd_mac_address = mac, dd_metric_data_items = [],
      dd_ip_data_items = [], dd_needs_response = ''''\<rparr>" 0]
    by (auto simp: new_DestinationData_def)
  have "(abs_dests (pd_destination_data pd))(mac := None) = abs_dests (pd_destination_data pd)"
    using None by (simp add: fun_eq_iff abs_dests_def)
  with None dd new_DestinationData_ok[OF dd] show ?thesis
    by (simp add: addDestination_def removeDestination_def validDestination_def abs_dests_insert abs_peer_def)
next
  case (Some dd)
  have "smap_ok (pd_destination_data pd)" using assms(1) by (simp add: pd_ok_def dests_ok_def)
  with Some show ?thesis
    by (simp add: addDestination_def removeDestination_def validDestination_def abs_dests_erase abs_peer_def)
qed

lemma find_ip_data_item_keys:
  "find_ip_data_item di dis \<noteq> None \<longleftrightarrow> (\<exists>k. ip_key_of di = Some k \<and> k \<in> ip_keys dis)"
proof (cases "ip_key_of di")
  case (Some k)
  then have "find_ip_data_item di dis \<noteq> None \<longleftrightarrow> Some k \<in> ip_key_of ` set dis"
    by (simp add: find_ip_data_item_None)
  also have "\<dots> \<longleftrightarrow> k \<in> ip_keys dis" by (auto simp: ip_keys_def image_iff eq_commute[of "Some k"])
  finally show ?thesis using Some by simp
qed (simp add: find_ip_data_item_None)

lemma destination_find_ip_iff:
  "destination_find_ip di dd \<noteq> '''' \<longleftrightarrow> (\<exists>k. ip_key_of di = Some k \<and> k \<in> ip_keys (dd_ip_data_items dd))"
  using find_ip_data_item_keys[of di "dd_ip_data_items dd"] by (auto simp: destination_find_ip_def)

lemma find_ip_in_destinations_iff:
  "find_ip_in_destinations di dds \<noteq> '''' \<longleftrightarrow>
     (\<exists>k. \<exists>(mac, dd)\<in>set dds. ip_key_of di = Some k \<and> k \<in> ip_keys (dd_ip_data_items dd))"
  by (induction di dds rule: find_ip_in_destinations.induct) (auto simp: Let_def destination_find_ip_iff)

text \<open>
  \<open>PeerData::find_ip_data_item\<close> names an owner exactly when the peer itself or one of its
  destinations holds the address or subnet.
\<close>

lemma peer_find_ip_correct:
  "peer_find_ip di pd \<noteq> '''' \<longleftrightarrow>
     (case ip_key_of di of None \<Rightarrow> False
      | Some k \<Rightarrow> k \<in> ip_keys (pd_ip_data_items pd)
          \<or> (\<exists>(mac, dd)\<in>set (pd_destination_data pd). k \<in> ip_keys (dd_ip_data_items dd)))"
  using find_ip_in_destinations_iff[of di "pd_destination_data pd"]
    find_ip_data_item_keys[of di "pd_ip_data_items pd"]
  by (cases "ip_key_of di") (auto simp: peer_find_ip_def)

end
