(* ===== verification/Rfc8175.thy ===== *)
theory Rfc8175
  imports InfoBase
begin

text \<open>
  The protocol configuration the repository ships for RFC 8175: the tables of
  \<open>src/config/protocol/dlep-rfc-8175.xml\<close> and of the two extension modules it includes, as
  the loader fills them. The properties of the other theories are instantiated at it.
\<close>

section \<open>The configuration\<close>

definition ref :: "u32 \<Rightarrow> string \<Rightarrow> string \<Rightarrow> SubDataItem" where
  "ref i name occurs = \<lparr>sdi_name = name, sdi_id = i, sdi_occurs = occurs\<rparr>"

definition signal_info :: "string \<Rightarrow> u32 \<Rightarrow> u32 \<Rightarrow> u32 \<Rightarrow> SubDataItem list \<Rightarrow> SignalInfo" where
  "signal_info name i flags response refs =
     \<lparr>si_name = name, si_id = i, si_flags = flags, si_data_items = refs, si_response_id = response,
      si_module = ''core''\<rparr>"

definition data_item_info ::
    "string \<Rightarrow> u32 \<Rightarrow> DataItemValueType \<Rightarrow> u32 \<Rightarrow> string \<Rightarrow> string \<Rightarrow> DataItemInfo" where
  "data_item_info name i t flags units modname =
     \<lparr>dii_name = name, dii_id = i, dii_value_type = t, dii_flags = flags, dii_module = modname,
      dii_units = units, dii_sub_data_items = []\<rparr>"

definition status_code_info :: "string \<Rightarrow> u32 \<Rightarrow> string \<Rightarrow> StatusCodeInfo" where
  "status_code_info name i failure_mode =
     \<lparr>sc_name = name, sc_id = i, sc_flags = 0, sc_module = ''core'', sc_failure_mode = failure_mode\<rparr>"

definition module_info ::
    "string \<Rightarrow> string \<Rightarrow> u32 \<Rightarrow> string list \<Rightarrow> u32 list \<Rightarrow> u32 list \<Rightarrow> u32 list \<Rightarrow> ModuleInfo" where
  "module_info name draft ext dis sigs msgs scs =
     \<lparr>mi_name = name, mi_draft = draft, mi_experiment_name = '''', mi_extension_id = ext,
      mi_data_items = dis, mi_signals = sigs, mi_messages = msgs, mi_status_codes = scs\<rparr>"

definition rfc8175_config :: ProtocolConfig where
  "rfc8175_config =
     \<lparr>module_info_map = 
       [(''Latency Range'', module_info ''Latency Range'' ''3'' 65521
          [''Latency_Range'']
          [] []
          []),
        (''Multi-Hop'', module_info ''Multi-Hop'' ''6'' 65524
          [''Hop_Count'',
           ''Hop_Control'']
          [] []
          []),
        (''core'', module_info ''core'' ''RFC8175'' 0
          [''Status'',
           ''IPv4_Connection_Point'',
           ''IPv6_Connection_Point'',
           ''Peer_Type'',
           ''Heartbeat_Interval'',
           ''Extensions_Supported'',
           ''MAC_Address'',
           ''IPv4_Address'',
           ''IPv6_Address'',
           ''IPv4_Attached_Subnet'',
           ''IPv6_Attached_Subnet'',
           ''Maximum_Data_Rate_Receive'',
           ''Maximum_Data_Rate_Transmit'',
           ''Current_Data_Rate_Receive'',
           ''Current_Data_Rate_Transmit'',
           ''Latency'',
           ''Resources'',
           ''Relative_Link_Quality_Receive'',
           ''Relative_Link_Quality_Transmit'',
           ''Maximum_Transmission_Unit'']
          [1, 2] [2, 1, 4, 3, 6, 5, 8, 7, 10, 9, 12, 11, 13, 15, 14, 16]
          [0, 1, 2, 3, 128, 129, 130, 131, 132])],
     signal_map = [(1, ''Peer_Discovery''), (2, ''Peer_Offer'')],
     signal_info_map = 
       [(1, signal_info ''Peer_Discovery'' 1 4 0
          [ref 4 ''Peer_Type'' ''0-1'']),
        (2, signal_info ''Peer_Offer'' 2 2 0
          [ref 4 ''Peer_Type'' ''0-1'',
           ref 2 ''IPv4_Connection_Point'' ''0+'',
           ref 3 ''IPv6_Connection_Point'' ''0+''])],
     message_map = 
       [(2, ''Session_Initialization_Response''),
        (1, ''Session_Initialization''),
        (4, ''Session_Update_Response''),
        (3, ''Session_Update''),
        (6, ''Session_Termination_Response''),
        (5, ''Session_Termination''),
        (8, ''Destination_Up_Response''),
        (7, ''Destination_Up''),
        (10, ''Destination_Announce_Response''),
        (9, ''Destination_Announce''),
        (12, ''Destination_Down_Response''),
        (11, ''Destination_Down''),
        (13, ''Destination_Update''),
        (15, ''Link_Characteristics_Response''),
        (14, ''Link_Characteristics_Request''),
        (16, ''Heartbeat'')],
     message_info_map = 
       [(1, signal_info ''Session_Initialization'' 1 5 2
          [ref 5 ''Heartbeat_Interval'' ''1'',
           ref 4 ''Peer_Type'' ''1'',
           ref 6 ''Extensions_Supported'' ''0-1'',
           ref 8 ''IPv4_Address'' ''0+'',
           ref 9 ''IPv6_Address'' ''0+'',
           ref 10 ''IPv4_Attached_Subnet'' ''0+'',
           ref 11 ''IPv6_Attached_Subnet'' ''0+'']),
        (2, signal_info ''Session_Initialization_Response'' 2 3 0
          [ref 1 ''Status'' ''1'',
           ref 4 ''Peer_Type'' ''1'',
           ref 5 ''Heartbeat_Interval'' ''1'',
           ref 12 ''Maximum_Data_Rate_Receive'' ''1'',
           ref 13 ''Maximum_Data_Rate_Transmit'' ''1'',
           ref 14 ''Current_Data_Rate_Receive'' ''1'',
           ref 15 ''Current_Data_Rate_Transmit'' ''1'',
           ref 16 ''Latency'' ''1'',
           ref 17 ''Resources'' ''0-1'',
           ref 18 ''Relative_Link_Quality_Receive'' ''0-1'',
           ref 19 ''Relative_Link_Quality_Transmit'' ''0-1'',
           ref 20 ''Maximum_Transmission_Unit'' ''0-1'',
           ref 6 ''Extensions_Supported'' ''0-1'',
           ref 8 ''IPv4_Address'' ''0+'',
           ref 9 ''IPv6_Address'' ''0+'',
           ref 10 ''IPv4_Attached_Subnet'' ''0+'',
           ref 11 ''IPv6_Attached_Subnet'' ''0+'',
           ref 65411 ''Latency_Range'' ''0-1'']),
        (3, signal_info ''Session_Update'' 3 7 4
          [ref 8 ''IPv4_Address'' ''0+'',
           ref 9 ''IPv6_Address'' ''0+'',
           ref 10 ''IPv4_Attached_Subnet'' ''0+'',
           ref 11 ''IPv6_Attached_Subnet'' ''0+'',
           ref 12 ''Maximum_Data_Rate_Receive'' ''0-1'',
           ref 13 ''Maximum_Data_Rate_Transmit'' ''0-1'',
           ref 14 ''Current_Data_Rate_Receive'' ''0-1'',
           ref 15 ''Current_Data_Rate_Transmit'' ''0-1'',
           ref 16 ''Latency'' ''0-1'',
           ref 17 ''Resources'' ''0-1'',
           ref 18 ''Relative_Link_Quality_Receive'' ''0-1'',
           ref 19 ''Relative_Link_Quality_Transmit'' ''0-1'',
           ref 20 ''Maximum_Transmission_Unit'' ''0-1'',
           ref 65411 ''Latency_Range'' ''0-1'',
           ref 65416 ''Hop_Control'' ''0-1'']),
        (4, signal_info ''Session_Update_Response'' 4 7 0
          [ref 1 ''Status'' ''1'']),
        (5, signal_info ''Session_Termination'' 5 7 6
          [ref 1 ''Status'' ''1'']),
        (6, signal_info ''Session_Termination_Response'' 6 7 0
          []),
        (7, signal_info ''Destination_Up'' 7 3 8
          [ref 7 ''MAC_Address'' ''1'',
           ref 12 ''Maximum_Data_Rate_Receive'' ''0-1'',
           ref 13 ''Maximum_Data_Rate_Transmit'' ''0-1'',
           ref 14 ''Current_Data_Rate_Receive'' ''0-1'',
           ref 15 ''Current_Data_Rate_Transmit'' ''0-1'',
           ref 16 ''Latency'' ''0-1'',
           ref 17 ''Resources'' ''0-1'',
           ref 18 ''Relative_Link_Quality_Receive'' ''0-1'',
           ref 19 ''Relative_Link_Quality_Transmit'' ''0-1'',
           ref 20 ''Maximum_Transmission_Unit'' ''0-1'',
           ref 8 ''IPv4_Address'' ''0+'',
           ref 9 ''IPv6_Address'' ''0+'',
           ref 10 ''IPv4_Attached_Subnet'' ''0+'',
           ref 11 ''IPv6_Attached_Subnet'' ''0+'',
           ref 65411 ''Latency_Range'' ''0-1'',
           ref 65415 ''Hop_Count'' ''0-1'']),
        (8, signal_info ''Destination_Up_Response'' 8 5 0
          [ref 7 ''MAC_Address'' ''1'',
           ref 1 ''Status'' ''1'']),
        (9, signal_info ''Destination_Announce'' 9 5 10
          [ref 7 ''MAC_Address'' ''1'',
           ref 8 ''IPv4_Address'' ''0+'',
           ref 9 ''IPv6_Address'' ''0+'']),
        (10, signal_info ''Destination_Announce_Response'' 10 3 0
          [ref 7 ''MAC_Address'' ''1'',
           ref 12 ''Maximum_Data_Rate_Receive'' ''0-1'',
           ref 13 ''Maximum_Data_Rate_Transmit'' ''0-1'',
           ref 14 ''Current_Data_Rate_Receive'' ''0-1'',
           ref 15 ''Current_Data_Rate_Transmit'' ''0-1'',
           ref 16 ''Latency'' ''0-1'',
           ref 17 ''Resources'' ''0-1'',
           ref 18 ''Relative_Link_Quality_Receive'' ''0-1'',
           ref 19 ''Relative_Link_Quality_Transmit'' ''0-1'',
           ref 20 ''Maximum_Transmission_Unit'' ''0-1'',
           ref 8 ''IPv4_Address'' ''0+'',
           ref 9 ''IPv6_Address'' ''0+'',
           ref 10 ''IPv4_Attached_Subnet'' ''0+'',
           ref 11 ''IPv6_Attached_Subnet'' ''0+'',
           ref 1 ''Status'' ''1'',
           ref 65411 ''Latency_Range'' ''0-1'',
           ref 65415 ''Hop_Count'' ''0-1'']),
        (11, signal_info ''Destination_Down'' 11 7 12
          [ref 7 ''MAC_Address'' ''1'']),
        (12, signal_info ''Destination_Down_Response'' 12 7 0
          [ref 7 ''MAC_Address'' ''1'',
           ref 1 ''Status'' ''1'']),
        (13, signal_info ''Destination_Update'' 13 3 0
          [ref 7 ''MAC_Address'' ''1'',
           ref 12 ''Maximum_Data_Rate_Receive'' ''0-1'',
           ref 13 ''Maximum_Data_Rate_Transmit'' ''0-1'',
           ref 14 ''Current_Data_Rate_Receive'' ''0-1'',
           ref 15 ''Current_Data_Rate_Transmit'' ''0-1'',
           ref 16 ''Latency'' ''0-1'',
           ref 17 ''Resources'' ''0-1'',
           ref 18 ''Relative_Link_Quality_Receive'' ''0-1'',
           ref 19 ''Relative_Link_Quality_Transmit'' ''0-1'',
           ref 20 ''Maximum_Transmission_Unit'' ''0-1'',
           ref 8 ''IPv4_Address'' ''0+'',
           ref 9 ''IPv6_Address'' ''0+'',
           ref 10 ''IPv4_Attached_Subnet'' ''0+'',
           ref 11 ''IPv6_Attached_Subnet'' ''0+'',
           ref 65411 ''Latency_Range'' ''0-1'',
           ref 65415 ''Hop_Count'' ''0-1'']),
        (14, signal_info ''Link_Characteristics_Request'' 14 5 15
          [ref 7 ''MAC_Address'' ''1'',
           ref 14 ''Current_Data_Rate_Receive'' ''0-1'',
           ref 15 ''Current_Data_Rate_Transmit'' ''0-1'',
           ref 16 ''Latency'' ''0-1'',
           ref 65411 ''Latency_Range'' ''0-1'',
           ref 65416 ''Hop_Control'' ''0-1'']),
        (15, signal_info ''Link_Characteristics_Response'' 15 3 0
          [ref 7 ''MAC_Address'' ''1'',
           ref 12 ''Maximum_Data_Rate_Receive'' ''0-1'',
           ref 13 ''Maximum_Data_Rate_Transmit'' ''0-1'',
           ref 14 ''Current_Data_Rate_Receive'' ''0-1'',
           ref 15 ''Current_Data_Rate_Transmit'' ''0-1'',
           ref 16 ''Latency'' ''0-1'',
           ref 17 ''Resources'' ''0-1'',
           ref 18 ''Relative_Link_Quality_Receive'' ''0-1'',
           ref 19 ''Relative_Link_Quality_Transmit'' ''0-1'',
           ref 20 ''Maximum_Transmission_Unit'' ''0-1'',
           ref 1 ''Status'' ''1'',
           ref 65411 ''Latency_Range'' ''0-1'',
           ref 65415 ''Hop_Count'' ''0-1'']),
        (16, signal_info ''Heartbeat'' 16 7 0
          [])],
     data_item_map = 
       [(1, ''Status''),
        (2, ''IPv4_Connection_Point''),
        (3, ''IPv6_Connection_Point''),
        (4, ''Peer_Type''),
        (5, ''Heartbeat_Interval''),
        (6, ''Extensions_Supported''),
        (7, ''MAC_Address''),
        (8, ''IPv4_Address''),
        (9, ''IPv6_Address''),
        (10, ''IPv4_Attached_Subnet''),
        (11, ''IPv6_Attached_Subnet''),
        (12, ''Maximum_Data_Rate_Receive''),
        (13, ''Maximum_Data_Rate_Transmit''),
        (14, ''Current_Data_Rate_Receive''),
        (15, ''Current_Data_Rate_Transmit''),
        (16, ''Latency''),
        (17, ''Resources''),
        (18, ''Relative_Link_Quality_Receive''),
        (19, ''Relative_Link_Quality_Transmit''),
        (20, ''Maximum_Transmission_Unit''),
        (65411, ''Latency_Range''),
        (65415, ''Hop_Count''),
        (65416, ''Hop_Control'')],
     data_item_info_map = 
       [(''Current_Data_Rate_Receive'', data_item_info ''Current_Data_Rate_Receive'' 14 T_u64 1 ''bits/second'' ''core''),
        (''Current_Data_Rate_Transmit'', data_item_info ''Current_Data_Rate_Transmit'' 15 T_u64 1 ''bits/second'' ''core''),
        (''Extensions_Supported'', data_item_info ''Extensions_Supported'' 6 T_v_extid 0 '''' ''core''),
        (''Heartbeat_Interval'', data_item_info ''Heartbeat_Interval'' 5 T_u32 0 ''milliseconds'' ''core''),
        (''Hop_Control'', data_item_info ''Hop_Control'' 65416 T_u16 0 '''' ''Multi-Hop''),
        (''Hop_Count'', data_item_info ''Hop_Count'' 65415 T_u8_u8 1 ''count'' ''Multi-Hop''),
        (''IPv4_Address'', data_item_info ''IPv4_Address'' 8 T_u8_ipv4 0 '''' ''core''),
        (''IPv4_Attached_Subnet'', data_item_info ''IPv4_Attached_Subnet'' 10 T_u8_ipv4_u8 0 '''' ''core''),
        (''IPv4_Connection_Point'', data_item_info ''IPv4_Connection_Point'' 2 T_u8_ipv4_u16 0 '''' ''core''),
        (''IPv6_Address'', data_item_info ''IPv6_Address'' 9 T_u8_ipv6 0 '''' ''core''),
        (''IPv6_Attached_Subnet'', data_item_info ''IPv6_Attached_Subnet'' 11 T_u8_ipv6_u8 0 '''' ''core''),
        (''IPv6_Connection_Point'', data_item_info ''IPv6_Connection_Point'' 3 T_u8_ipv6_u16 0 '''' ''core''),
        (''Latency'', data_item_info ''Latency'' 16 T_u64 1 ''microseconds'' ''core''),
        (''Latency_Range'', data_item_info ''Latency_Range'' 65411 T_u64_u64 1 ''microseconds'' ''Latency Range''),
        (''MAC_Address'', data_item_info ''MAC_Address'' 7 T_dlepmac 0 '''' ''core''),
        (''Maximum_Data_Rate_Receive'', data_item_info ''Maximum_Data_Rate_Receive'' 12 T_u64 1 ''bits/second'' ''core''),
        (''Maximum_Data_Rate_Transmit'', data_item_info ''Maximum_Data_Rate_Transmit'' 13 T_u64 1 ''bits/second'' ''core''),
        (''Maximum_Transmission_Unit'', data_item_info ''Maximum_Transmission_Unit'' 20 T_u16 1 ''octets'' ''core''),
        (''Peer_Type'', data_item_info ''Peer_Type'' 4 T_u8_string 0 '''' ''core''),
        (''Relative_Link_Quality_Receive'', data_item_info ''Relative_Link_Quality_Receive'' 18 T_u8 1 ''percentage'' ''core''),
        (''Relative_Link_Quality_Transmit'', data_item_info ''Relative_Link_Quality_Transmit'' 19 T_u8 1 ''percentage'' ''core''),
        (''Resources'', data_item_info ''Resources'' 17 T_u8 1 ''percentage'' ''core''),
        (''Status'', data_item_info ''Status'' 1 T_u8_string 0 '''' ''core'')],
     status_code_map = 
       [(0, ''Success''),
        (1, ''Not_Interested''),
        (2, ''Request_Denied''),
        (3, ''Inconsistent_Data''),
        (128, ''Unknown_Message''),
        (129, ''Unexpected_Message''),
        (130, ''Invalid_Data''),
        (131, ''Invalid_Destination''),
        (132, ''Timed_Out'')],
     status_code_info_map = 
       [(0, status_code_info ''Success'' 0 ''continue''),
        (1, status_code_info ''Not_Interested'' 1 ''continue''),
        (2, status_code_info ''Request_Denied'' 2 ''continue''),
        (3, status_code_info ''Inconsistent_Data'' 3 ''continue''),
        (128, status_code_info ''Unknown_Message'' 128 ''terminate''),
        (129, status_code_info ''Unexpected_Message'' 129 ''terminate''),
        (130, status_code_info ''Invalid_Data'' 130 ''terminate''),
        (131, status_code_info ''Invalid_Destination'' 131 ''terminate''),
        (132, status_code_info ''Timed_Out'' 132 ''terminate'')],
     version = (0, 0), signal_prefix = ''DLEP'',
     signal_length_size = 2, signal_id_size = 2, data_item_length_size = 2, data_item_id_size = 2,
     extension_id_size = 2, status_code_size = 1\<rparr>"

lemma rfc8175_ok: "config_ok rfc8175_config"
  by code_simp

lemma rfc8175_subs_listed: "subs_listed rfc8175_config"
  by code_simp

lemma rfc8175_occurs_wf: "occurs_wf rfc8175_config"
  by code_simp

end
