(* ===== verification/Session_Monad.thy ===== *)
theory Session_Monad
  imports Dlep_Prelude
begin

text \<open>
  Methods that change their object and may throw: a computation takes the state and returns
  a value with the new state, or the exception that escapes. What was done before an
  exception escapes is not recorded, since no handler of the sources resumes after one.

  Partial-correctness triples for such computations, one rule per construct, collected so
  that a triple is proved by following the program text.
\<close>

section \<open>Computations\<close>

type_synonym ('s, 'a) comp = "'s \<Rightarrow> exn + ('a \<times> 's)"

definition ret :: "'a \<Rightarrow> ('s, 'a) comp" where
  "ret x s = Inr (x, s)"

definition bnd :: "('s, 'a) comp \<Rightarrow> ('a \<Rightarrow> ('s, 'b) comp) \<Rightarrow> ('s, 'b) comp" where
  "bnd m f s = (case m s of Inl e \<Rightarrow> Inl e | Inr (x, s') \<Rightarrow> f x s')"

definition next_do :: "('s, 'a) comp \<Rightarrow> ('s, 'b) comp \<Rightarrow> ('s, 'b) comp" where
  "next_do m n = bnd m (\<lambda>_. n)"

definition throw :: "exn \<Rightarrow> ('s, 'a) comp" where
  "throw e s = Inl e"

definition asks :: "('s \<Rightarrow> 'a) \<Rightarrow> ('s, 'a) comp" where
  "asks f s = Inr (f s, s)"

definition change :: "('s \<Rightarrow> 's) \<Rightarrow> ('s, unit) comp" where
  "change f s = Inr ((), f s)"

text \<open>A computation that does not look at the state, such as building a message.\<close>

definition lift :: "'a res \<Rightarrow> ('s, 'a) comp" where
  "lift r s = (case r of Inl e \<Rightarrow> Inl e | Inr x \<Rightarrow> Inr (x, s))"

definition when_do :: "bool \<Rightarrow> ('s, unit) comp \<Rightarrow> ('s, unit) comp" where
  "when_do b m = (if b then m else ret ())"

fun each :: "('x \<Rightarrow> ('s, unit) comp) \<Rightarrow> 'x list \<Rightarrow> ('s, unit) comp" where
  "each f [] = ret ()"
| "each f (x # xs) = next_do (f x) (each f xs)"

named_theorems comp_simps "equations of the computations applied to a state"

lemmas [comp_simps] = ret_def bnd_def next_do_def throw_def asks_def change_def lift_def when_do_def

lemma each_append: "each f (xs @ ys) s = bnd (each f xs) (\<lambda>_. each f ys) s"
  by (induction xs arbitrary: s) (auto simp: comp_simps split: sum.splits)

section \<open>Triples\<close>

text \<open>From a state in \<open>P\<close>, if \<open>m\<close> returns, its value and the new state satisfy \<open>Q\<close>.\<close>

definition triple :: "('s \<Rightarrow> bool) \<Rightarrow> ('s, 'a) comp \<Rightarrow> ('a \<Rightarrow> 's \<Rightarrow> bool) \<Rightarrow> bool" where
  "triple P m Q \<longleftrightarrow> (\<forall>s x s'. P s \<longrightarrow> m s = Inr (x, s') \<longrightarrow> Q x s')"

abbreviation keeps :: "('s \<Rightarrow> bool) \<Rightarrow> ('s, 'a) comp \<Rightarrow> bool" where
  "keeps P m \<equiv> triple P m (\<lambda>_. P)"

named_theorems triple_rules "rules for triples"

lemma tripleI: "(\<And>s x s'. P s \<Longrightarrow> m s = Inr (x, s') \<Longrightarrow> Q x s') \<Longrightarrow> triple P m Q"
  by (simp add: triple_def)

lemma tripleD: "triple P m Q \<Longrightarrow> P s \<Longrightarrow> m s = Inr (x, s') \<Longrightarrow> Q x s'"
  by (simp add: triple_def)

lemma triple_conseq: "triple P' m Q' \<Longrightarrow> (\<And>s. P s \<Longrightarrow> P' s) \<Longrightarrow> (\<And>x s. Q' x s \<Longrightarrow> Q x s) \<Longrightarrow> triple P m Q"
  by (fastforce simp: triple_def)

lemma keeps_ret [triple_rules]: "keeps P (ret x)"
  by (simp add: triple_def comp_simps)

lemma keeps_throw [triple_rules]: "triple P (throw e) Q"
  by (simp add: triple_def comp_simps)

lemma keeps_asks [triple_rules]: "keeps P (asks f)"
  by (simp add: triple_def comp_simps)

lemma keeps_lift [triple_rules]: "keeps P (lift r)"
  by (auto simp: triple_def comp_simps split: sum.splits)

lemma keeps_change: "(\<And>s. P s \<Longrightarrow> P (f s)) \<Longrightarrow> keeps P (change f)"
  by (simp add: triple_def comp_simps)

lemma triple_bnd: "triple P m R \<Longrightarrow> (\<And>x. triple (R x) (f x) Q) \<Longrightarrow> triple P (bnd m f) Q"
  by (fastforce simp: triple_def comp_simps split: sum.splits)

lemma keeps_bnd [triple_rules]: "keeps P m \<Longrightarrow> (\<And>x. keeps P (f x)) \<Longrightarrow> keeps P (bnd m f)"
  by (rule triple_bnd)

lemma keeps_next_do [triple_rules]: "keeps P m \<Longrightarrow> keeps P n \<Longrightarrow> keeps P (next_do m n)"
  unfolding next_do_def by (rule triple_bnd)

lemma keeps_when_do [triple_rules]: "(b \<Longrightarrow> keeps P m) \<Longrightarrow> keeps P (when_do b m)"
  by (simp add: when_do_def keeps_ret)

lemma keeps_if [triple_rules]: "(b \<Longrightarrow> keeps P m) \<Longrightarrow> (\<not> b \<Longrightarrow> keeps P n) \<Longrightarrow> keeps P (if b then m else n)"
  by simp

lemma keeps_case_prod [triple_rules]: "(\<And>x y. keeps P (f x y)) \<Longrightarrow> keeps P (case z of (x, y) \<Rightarrow> f x y)"
  by (cases z) simp

lemma keeps_case_option [triple_rules]:
  "(z = None \<Longrightarrow> keeps P m) \<Longrightarrow> (\<And>x. z = Some x \<Longrightarrow> keeps P (f x)) \<Longrightarrow> keeps P (case z of None \<Rightarrow> m | Some x \<Rightarrow> f x)"
  by (cases z) simp_all

lemma keeps_case_list [triple_rules]:
  "(z = [] \<Longrightarrow> keeps P m) \<Longrightarrow> (\<And>x xs. z = x # xs \<Longrightarrow> keeps P (f x xs)) \<Longrightarrow>
   keeps P (case z of [] \<Rightarrow> m | x # xs \<Rightarrow> f x xs)"
  by (cases z) simp_all

lemma keeps_case_sum [triple_rules]:
  "(\<And>e. z = Inl e \<Longrightarrow> keeps P (f e)) \<Longrightarrow> (\<And>x. z = Inr x \<Longrightarrow> keeps P (g x)) \<Longrightarrow>
   keeps P (case z of Inl e \<Rightarrow> f e | Inr x \<Rightarrow> g x)"
  by (cases z) simp_all

lemma keeps_each [triple_rules]: "(\<And>x. keeps P (f x)) \<Longrightarrow> keeps P (each f xs)"
  by (induction xs) (auto intro: triple_rules)

end
