(* ===== verification/IStream.thy ===== *)
theory IStream
  imports Session_Monad
begin

text \<open>
  What \<open>src/DataItem.cpp\<close> uses of \<open>std::istringstream\<close>: the characters not yet read, the
  eof and fail bits, and the base in which integers are read. Every reading operation first
  constructs a sentry, which sets the fail bit when one of the two bits is already set. A
  reader is a computation on the stream.
\<close>

section \<open>Streams\<close>

record istream =
  is_text :: string
  is_eof :: bool
  is_fail :: bool
  is_hex :: bool

type_synonym 'a reader = "(istream, 'a) comp"

definition open_stream :: "string \<Rightarrow> istream" where
  "open_stream str = \<lparr>is_text = str, is_eof = False, is_fail = False, is_hex = False\<rparr>"

definition good :: "istream \<Rightarrow> bool" where
  "good ss \<longleftrightarrow> \<not> is_eof ss \<and> \<not> is_fail ss"

definition clear_bits :: "istream \<Rightarrow> istream" where
  "clear_bits ss = ss\<lparr>is_eof := False, is_fail := False\<rparr>"

text \<open>\<open>None\<close> is the value EOF.\<close>

definition peek :: "istream \<Rightarrow> char option \<times> istream" where
  "peek ss =
     (if \<not> good ss then (None, ss\<lparr>is_fail := True\<rparr>)
      else case is_text ss of [] \<Rightarrow> (None, ss\<lparr>is_eof := True\<rparr>) | c # cs \<Rightarrow> (Some c, ss))"

definition get_char :: "istream \<Rightarrow> char option \<times> istream" where
  "get_char ss =
     (if \<not> good ss then (None, ss\<lparr>is_fail := True\<rparr>)
      else case is_text ss of
             [] \<Rightarrow> (None, ss\<lparr>is_eof := True, is_fail := True\<rparr>)
           | c # cs \<Rightarrow> (Some c, ss\<lparr>is_text := cs\<rparr>))"

definition ignore_char :: "istream \<Rightarrow> istream" where
  "ignore_char ss =
     (if \<not> good ss then ss\<lparr>is_fail := True\<rparr>
      else case is_text ss of [] \<Rightarrow> ss\<lparr>is_eof := True\<rparr> | c # cs \<Rightarrow> ss\<lparr>is_text := cs\<rparr>)"

text \<open>The sentry of a formatted extraction skips white space first.\<close>

definition sentry :: "istream \<Rightarrow> bool \<times> istream" where
  "sentry ss =
     (if \<not> good ss then (False, ss\<lparr>is_fail := True\<rparr>)
      else (case dropWhile is_space (is_text ss) of
              [] \<Rightarrow> (False, ss\<lparr>is_text := [], is_eof := True, is_fail := True\<rparr>)
            | t \<Rightarrow> (True, ss\<lparr>is_text := t\<rparr>)))"

section \<open>Integers\<close>

text \<open>The value of a digit, 16 for any other character.\<close>

definition digit_value :: "char \<Rightarrow> int" where
  "digit_value c =
     (let n = of_char c
      in if 48 \<le> n \<and> n \<le> 57 then n - 48
         else if 97 \<le> n \<and> n \<le> 102 then n - 87
         else if 65 \<le> n \<and> n \<le> 70 then n - 55 else 16)"

definition digits_value :: "int \<Rightarrow> string \<Rightarrow> int" where
  "digits_value base ds = foldl (\<lambda>n c. n * base + digit_value c) 0 ds"

text \<open>A sign, and \<open>0x\<close> in base 16, may come before the digits.\<close>

definition skip_sign :: "string \<Rightarrow> bool \<times> string" where
  "skip_sign t =
     (case t of
        [] \<Rightarrow> (False, [])
      | c # cs \<Rightarrow> if c = CHR ''-'' then (True, cs) else if c = CHR ''+'' then (False, cs) else (False, t))"

definition skip_prefix :: "bool \<Rightarrow> string \<Rightarrow> string" where
  "skip_prefix hex t =
     (case t of
        CHR ''0'' # x # cs \<Rightarrow> if hex \<and> (x = CHR ''x'' \<or> x = CHR ''X'') then cs else t
      | _ \<Rightarrow> t)"

text \<open>
  \<open>num_get\<close>: the value, \<open>None\<close> when there is no digit or the number needs more than 64 bits,
  and what follows it. A minus sign negates modulo \<open>2 ^ 64\<close>.
\<close>

definition extract_u64 :: "bool \<Rightarrow> string \<Rightarrow> u64 option \<times> string" where
  "extract_u64 hex t =
     (let (neg, t1) = skip_sign t;
          t2 = skip_prefix hex t1;
          base = (if hex then 16 else 10);
          ds = takeWhile (\<lambda>c. digit_value c < base) t2;
          n = digits_value base ds
      in (if ds = [] \<or> 2 ^ 64 \<le> n then None else Some (if neg then - of_int n else of_int n),
          dropWhile (\<lambda>c. digit_value c < base) t2))"

text \<open>\<open>ss >> u64\<close> and \<open>ss >> str\<close>; on failure \<open>str\<close> keeps its value.\<close>

definition read_u64 :: "istream \<Rightarrow> u64 option \<times> istream" where
  "read_u64 ss =
     (case sentry ss of
        (False, ss1) \<Rightarrow> (None, ss1)
      | (True, ss1) \<Rightarrow>
          (case extract_u64 (is_hex ss1) (is_text ss1) of
             (v, rest) \<Rightarrow> (v, ss1\<lparr>is_text := rest, is_eof := (rest = []), is_fail := (v = None)\<rparr>)))"

definition read_string :: "string \<Rightarrow> istream \<Rightarrow> string \<times> istream" where
  "read_string str ss =
     (case sentry ss of
        (False, ss1) \<Rightarrow> (str, ss1)
      | (True, ss1) \<Rightarrow>
          (let rest = dropWhile (\<lambda>c. \<not> is_space c) (is_text ss1)
           in (takeWhile (\<lambda>c. \<not> is_space c) (is_text ss1), ss1\<lparr>is_text := rest, is_eof := (rest = [])\<rparr>)))"

section \<open>Reading makes the text shorter\<close>

text \<open>What is left of the text, as the measure of the loops.\<close>

abbreviation left_over :: "istream \<Rightarrow> nat" where
  "left_over ss \<equiv> length (is_text ss)"

lemma left_over_peek: "left_over (snd (peek ss)) = left_over ss"
  by (simp add: peek_def split: list.splits)

lemma left_over_get_char: "left_over (snd (get_char ss)) \<le> left_over ss"
  by (simp add: get_char_def split: list.splits)

lemma left_over_ignore_char: "left_over (ignore_char ss) \<le> left_over ss"
  by (simp add: ignore_char_def split: list.splits)

lemma length_dropWhile_space: "dropWhile is_space t = c # cs \<Longrightarrow> length (c # cs) \<le> length t"
  by (metis length_dropWhile_le)

lemma left_over_sentry: "left_over (snd (sentry ss)) \<le> left_over ss"
  by (auto simp: sentry_def split: list.splits dest: length_dropWhile_space)

lemma length_skip_sign: "length (snd (skip_sign t)) \<le> length t"
  by (simp add: skip_sign_def split: list.splits)

lemma length_skip_prefix: "length (skip_prefix hex t) \<le> length t"
  by (auto simp: skip_prefix_def split: list.splits char.splits bool.splits)

lemma extract_u64_shorter: "extract_u64 hex t = (Some v, rest) \<Longrightarrow> length rest < length t"
proof -
  assume run: "extract_u64 hex t = (Some v, rest)"
  let ?t2 = "skip_prefix hex (snd (skip_sign t))" and ?P = "\<lambda>c. digit_value c < (if hex then 16 else 10)"
  from run have "takeWhile ?P ?t2 \<noteq> []" and rest: "rest = dropWhile ?P ?t2"
    by (auto simp: extract_u64_def Let_def split: prod.splits if_splits)
  then have "length rest < length ?t2"
    by (metis length_append length_greater_0_conv less_add_same_cancel2 takeWhile_dropWhile_id)
  then show ?thesis
    using length_skip_prefix[of hex "snd (skip_sign t)"] length_skip_sign[of t] by linarith
qed

lemma read_u64_shorter: "read_u64 ss = (Some v, ss') \<Longrightarrow> left_over ss' < left_over ss"
  using left_over_sentry[of ss]
  by (auto simp: read_u64_def split: prod.splits bool.splits dest!: extract_u64_shorter)

lemma sentry_text: "sentry ss = (True, ss') \<Longrightarrow> \<exists>c cs. is_text ss' = c # cs \<and> \<not> is_space c"
  by (auto simp: sentry_def split: if_splits list.splits) (metis dropWhile_eq_Cons_conv)

lemma read_string_shorter: "read_string str ss = (name, ss') \<Longrightarrow> \<not> is_fail ss' \<Longrightarrow> left_over ss' < left_over ss"
proof -
  assume run: "read_string str ss = (name, ss')" and ok: "\<not> is_fail ss'"
  obtain b ss1 where s: "sentry ss = (b, ss1)" by (cases "sentry ss")
  from s run ok have b: "b" by (auto simp: read_string_def sentry_def split: if_splits list.splits)
  with s obtain c cs where "is_text ss1 = c # cs" "\<not> is_space c" using sentry_text[of ss ss1] by auto
  with run s b have "is_text ss' = dropWhile (\<lambda>c. \<not> is_space c) cs" by (auto simp: read_string_def Let_def)
  then have "left_over ss' \<le> length cs" by (simp add: length_dropWhile_le)
  with \<open>is_text ss1 = c # cs\<close> left_over_sentry[of ss] s show ?thesis by simp
qed

lemma left_over_read_u64: "left_over (snd (read_u64 ss)) \<le> left_over ss"
proof -
  have "length (snd (extract_u64 hex t)) \<le> length t" for hex t
    using length_skip_prefix[of hex "snd (skip_sign t)"] length_skip_sign[of t]
    by (auto simp: extract_u64_def Let_def split: prod.splits intro: order_trans [OF length_dropWhile_le])
  then show ?thesis
    using left_over_sentry[of ss] by (auto simp: read_u64_def split: prod.splits bool.splits) (metis order_trans snd_conv)
qed

end
