(* ===== verification/DataItemParse.thy ===== *)
theory DataItemParse
  imports IStream DataItemText
begin

text \<open>
  The \<open>from_string\<close> half of \<open>src/DataItem.cpp\<close>: reading a data item back from its text form.
  Boost parses the IP addresses; its two functions are the parameter \<open>ip_parse\<close>.
\<close>

record ip_parse =
  v4_from_string :: "string \<Rightarrow> address_v4 option"
  v6_from_string :: "string \<Rightarrow> address_v6 option"

section \<open>Characters\<close>

definition char_is :: "(char \<Rightarrow> bool) \<Rightarrow> char option \<Rightarrow> bool" where
  "char_is P c = (case c of None \<Rightarrow> False | Some x \<Rightarrow> P x)"

function skip_whitespace :: "istream \<Rightarrow> istream" where
  "skip_whitespace ss =
     (if is_fail ss then ss
      else case peek ss of (c, ss1) \<Rightarrow> if char_is is_space c then skip_whitespace (ignore_char ss1) else ss1)"
  by auto
termination
  by (relation "measure left_over")
    (auto simp: peek_def ignore_char_def char_is_def split: if_splits list.splits option.splits)

declare skip_whitespace.simps [simp del]

definition is_field_separator :: "char \<Rightarrow> bool" where
  "is_field_separator c \<longleftrightarrow> c = CHR '';'' \<or> c = CHR ''/''"

definition check_field_separator :: "unit reader" where
  "check_field_separator ss =
     (case get_char ss of (c, ss1) \<Rightarrow>
        if \<not> char_is is_field_separator c \<or> is_fail ss1
        then Inl (Invalid_Argument ''expected field separator'') else Inr ((), ss1))"

text \<open>\<open>if (ss.peek() == ch) ss.ignore();\<close>\<close>

definition skip_char :: "char \<Rightarrow> istream \<Rightarrow> istream" where
  "skip_char ch ss = (case peek ss of (c, ss1) \<Rightarrow> if c = Some ch then ignore_char ss1 else ss1)"

section \<open>Integers\<close>

definition fit_uint :: "string \<Rightarrow> u64 \<Rightarrow> 'a::len word res" where
  "fit_uint type_name u64 =
     (let v = ucast u64 :: 'a word
      in if ucast v \<noteq> u64
         then Inl (Invalid_Argument (''value '' @ to_string_word u64 @ '' is too large for type '' @ type_name))
         else Inr v)"

definition parse_uint :: "string \<Rightarrow> 'a::len word reader" where
  "parse_uint type_name ss =
     (case read_u64 ss of
        (Some u64, ss1) \<Rightarrow> rbind (fit_uint type_name u64) (\<lambda>v. Inr (v, ss1))
      | (None, ss1) \<Rightarrow>
          if is_eof ss1 then Inl (Invalid_Argument (''missing value of type '' @ type_name))
          else Inl (Invalid_Argument (takeWhile (\<lambda>c. c \<noteq> CHR '' '') (is_text ss1)
                 @ '' is not a valid value of type '' @ type_name)))"

lemma left_over_skip_char: "left_over (skip_char ch ss) \<le> left_over ss"
  using left_over_peek[of ss] left_over_ignore_char[of "snd (peek ss)"]
  by (auto simp: skip_char_def split: prod.splits)

lemma parse_uint_shorter: "parse_uint type_name ss = Inr (v, ss') \<Longrightarrow> left_over ss' < left_over ss"
  by (auto simp: parse_uint_def res_simps dest: read_u64_shorter split: prod.splits option.splits if_splits)

function parse_vector :: "string \<Rightarrow> 'a::len word list reader" where
  "parse_vector type_name ss =
     (case read_u64 ss of
        (None, ss1) \<Rightarrow> Inr ([], if is_fail ss1 then clear_bits ss1 else ss1)
      | (Some u64, ss1) \<Rightarrow>
          rbind (fit_uint type_name u64) (\<lambda>v.
          rbind (parse_vector type_name (skip_char CHR '','' ss1)) (\<lambda>(vs, ss2). Inr (v # vs, ss2))))"
  by auto
termination
  by (relation "measure (\<lambda>(_, ss). left_over ss)")
    (auto dest!: sym [of "(Some _, _)"] read_u64_shorter intro: le_less_trans [OF left_over_skip_char])

declare parse_vector.simps [simp del]

text \<open>The elements of an array, as many as were found.\<close>

fun array_loop :: "string \<Rightarrow> nat \<Rightarrow> 'a::len word list reader" where
  "array_loop type_name 0 ss = Inr ([], ss)"
| "array_loop type_name (Suc n) ss =
     (if is_fail ss then Inr ([], ss)
      else rbind (parse_uint type_name ss) (\<lambda>(v, ss1).
           rbind (array_loop type_name n (skip_char CHR '','' ss1)) (\<lambda>(vs, ss2). Inr (v # vs, ss2))))"

definition parse_array :: "string \<Rightarrow> nat \<Rightarrow> 'a::len word list reader" where
  "parse_array type_name n =
     bnd (array_loop type_name n) (\<lambda>vs.
     if length vs < n
     then throw (Invalid_Argument (''array requires '' @ to_string_nat n @ '' elements, but got only '' @
            to_string_nat (length vs)))
     else ret vs)"

section \<open>Addresses\<close>

text \<open>Bytes separated by colons, read in base 16.\<close>

lemma left_over_peeked: "(c, ss') = peek ss \<Longrightarrow> left_over ss' = left_over ss"
  using left_over_peek[of ss] by (metis snd_conv)

function mac_loop :: "string \<Rightarrow> bytes reader" where
  "mac_loop type_name ss =
     rbind (parse_uint type_name ss) (\<lambda>(byte, ss1).
       case peek ss1 of (c, ss2) \<Rightarrow>
         if c = Some (CHR '':'')
         then rbind (mac_loop type_name (ignore_char ss2)) (\<lambda>(bs, ss3). Inr (byte # bs, ss3))
         else Inr ([byte], ss2))"
  by auto
termination
  by (relation "measure (\<lambda>(_, ss). left_over ss)")
    (auto dest!: parse_uint_shorter left_over_peeked intro: le_less_trans [OF left_over_ignore_char])

declare mac_loop.simps [simp del]

definition parse_mac :: "string \<Rightarrow> DlepMac reader" where
  "parse_mac type_name =
     next_do (change (\<lambda>ss. ss\<lparr>is_hex := True\<rparr>))
     (bnd (mac_loop type_name) (\<lambda>bs.
      next_do (change (\<lambda>ss. ss\<lparr>is_hex := False\<rparr>)) (ret (DlepMac bs))))"

text \<open>The characters up to a field separator, white space or the end.\<close>

function ip_chars :: "istream \<Rightarrow> string \<times> istream" where
  "ip_chars ss =
     (if is_fail ss then ([], ss)
      else case peek ss of (c1, ss1) \<Rightarrow>
        if char_is is_field_separator c1 then ([], ss1)
        else case peek ss1 of (c2, ss2) \<Rightarrow>
          if char_is is_space c2 then ([], ss2)
          else case get_char ss2 of (ch, ss3) \<Rightarrow>
            case ip_chars ss3 of (cs, ss4) \<Rightarrow>
              (case ch of None \<Rightarrow> (cs, ss4) | Some c \<Rightarrow> (if is_eof ss3 then cs else c # cs, ss4)))"
  by auto
termination
  by (relation "measure (\<lambda>ss. left_over ss + (if is_fail ss then 0 else 1))")
    (auto simp: peek_def get_char_def good_def split: if_splits list.splits)

declare ip_chars.simps [simp del]

definition parse_ip_addr :: "(string \<Rightarrow> 'a option) \<Rightarrow> 'a reader" where
  "parse_ip_addr from_string ss =
     (case ip_chars (skip_whitespace ss) of (ip_str, ss1) \<Rightarrow>
        (case from_string ip_str of
           None \<Rightarrow> Inl (Invalid_Argument (''invalid IP address '' @ ip_str))
         | Some a \<Rightarrow> Inr (a, ss1)))"

section \<open>Values\<close>

text \<open>Fields separated by a field separator.\<close>

definition separated :: "'a reader \<Rightarrow> 'b reader \<Rightarrow> ('a \<times> 'b) reader" where
  "separated m n = bnd m (\<lambda>x. next_do check_field_separator (bnd n (\<lambda>y. ret (x, y))))"

text \<open>\<open>std::string s; ss >> s;\<close>\<close>

definition read_word :: "string reader" where
  "read_word ss = Inr (read_string '''' ss)"

text \<open>The visitor: the alternative the value holds says what is read. Sub data
  items are read elsewhere: the last two operators are never called, and the number of the last,
  which the code leaves uninitialised, is 0 here.\<close>

fun value_from_visit :: "ip_parse \<Rightarrow> string \<Rightarrow> DataItemValue \<Rightarrow> DataItemValue reader" where
  "value_from_visit ip tn Div_blank = ret Div_blank"
| "value_from_visit ip tn (Div_u8 _) = bnd (parse_uint tn) (\<lambda>x. ret (Div_u8 x))"
| "value_from_visit ip tn (Div_u16 _) = bnd (parse_uint tn) (\<lambda>x. ret (Div_u16 x))"
| "value_from_visit ip tn (Div_u32 _) = bnd (parse_uint tn) (\<lambda>x. ret (Div_u32 x))"
| "value_from_visit ip tn (Div_u64 _) = bnd (parse_uint tn) (\<lambda>x. ret (Div_u64 x))"
| "value_from_visit ip tn (Div_v_u8 _) = bnd (parse_vector tn) (\<lambda>xs. ret (Div_v_u8 xs))"
| "value_from_visit ip tn (Div_v_u32 _) = bnd (parse_vector tn) (\<lambda>xs. ret (Div_v_u32 xs))"
| "value_from_visit ip tn (Div_a2_u16 _ _) = bnd (parse_array tn 2) (\<lambda>xs. ret (Div_a2_u16 (xs ! 0) (xs ! 1)))"
| "value_from_visit ip tn (Div_string _) = bnd read_word (\<lambda>s. ret (Div_string s))"
| "value_from_visit ip tn (Div_dlepmac _) = bnd (parse_mac tn) (\<lambda>mac. ret (Div_dlepmac mac))"
| "value_from_visit ip tn (Div_u8_string _ _) =
     bnd (separated (parse_uint tn) read_word) (\<lambda>(x, s). ret (Div_u8_string x s))"
| "value_from_visit ip tn (Div_u8_ipv4 _ _) =
     bnd (separated (parse_uint tn) (parse_ip_addr (v4_from_string ip))) (\<lambda>(x, a). ret (Div_u8_ipv4 x a))"
| "value_from_visit ip tn (Div_u8_ipv6 _ _) =
     bnd (separated (parse_uint tn) (parse_ip_addr (v6_from_string ip))) (\<lambda>(x, a). ret (Div_u8_ipv6 x a))"
| "value_from_visit ip tn (Div_u16_vu8 _ _) =
     bnd (separated (parse_uint tn) (parse_vector tn)) (\<lambda>(x, xs). ret (Div_u16_vu8 x xs))"
| "value_from_visit ip tn (Div_v_extid _) = bnd (parse_vector tn) (\<lambda>xs. ret (Div_v_extid xs))"
| "value_from_visit ip tn (Div_u8_ipv4_u16 _ _ _) =
     bnd (separated (parse_uint tn) (separated (parse_ip_addr (v4_from_string ip)) (parse_uint tn)))
       (\<lambda>(x, a, y). ret (Div_u8_ipv4_u16 x a y))"
| "value_from_visit ip tn (Div_u8_ipv6_u16 _ _ _) =
     bnd (separated (parse_uint tn) (separated (parse_ip_addr (v6_from_string ip)) (parse_uint tn)))
       (\<lambda>(x, a, y). ret (Div_u8_ipv6_u16 x a y))"
| "value_from_visit ip tn (Div_u8_ipv4_u8 _ _ _) =
     bnd (separated (parse_uint tn) (separated (parse_ip_addr (v4_from_string ip)) (parse_uint tn)))
       (\<lambda>(x, a, y). ret (Div_u8_ipv4_u8 x a y))"
| "value_from_visit ip tn (Div_u8_ipv6_u8 _ _ _) =
     bnd (separated (parse_uint tn) (separated (parse_ip_addr (v6_from_string ip)) (parse_uint tn)))
       (\<lambda>(x, a, y). ret (Div_u8_ipv6_u8 x a y))"
| "value_from_visit ip tn (Div_u8_u8 _ _) =
     bnd (separated (parse_uint tn) (parse_uint tn)) (\<lambda>(x, y). ret (Div_u8_u8 x y))"
| "value_from_visit ip tn (Div_u64_u64 _ _) =
     bnd (separated (parse_uint tn) (parse_uint tn)) (\<lambda>(x, y). ret (Div_u64_u64 x y))"
| "value_from_visit ip tn (Div_sub_data_items _) = ret (Div_sub_data_items [])"
| "value_from_visit ip tn (Div_u16_sub_data_items _ _) = ret (Div_u16_sub_data_items 0 [])"

definition value_from_istringstream :: "ip_parse \<Rightarrow> DataItemValue \<Rightarrow> DataItemValue reader" where
  "value_from_istringstream ip v =
     next_do (change (\<lambda>ss. ss\<lparr>is_hex := False\<rparr>))
     (bnd (lift (value_type_to_string (value_type v))) (\<lambda>tn. value_from_visit ip tn v))"

definition value_from_string :: "ip_parse \<Rightarrow> string \<Rightarrow> DataItem \<Rightarrow> DataItem res" where
  "value_from_string ip str di =
     rbind (value_from_istringstream ip (di_value di) (open_stream str)) (\<lambda>(v, _). Inr (DataItem (di_id di) v))"

section \<open>Data items\<close>

text \<open>The opening brace of the sub data items and the white space after it.\<close>

definition open_sub_data_items :: "istream \<Rightarrow> istream res" where
  "open_sub_data_items ss =
     (case read_string '''' ss of (token, ss1) \<Rightarrow>
        if token \<noteq> ''{''
        then Inl (Invalid_Argument (''expected {, not '' @ (if is_eof ss1 then ''end of line'' else token)))
        else Inr (skip_whitespace ss1))"

text \<open>The number before the sub data items.\<close>

definition sub_data_items_u16 :: "ip_parse \<Rightarrow> u16 reader" where
  "sub_data_items_u16 ip =
     bnd (value_from_istringstream ip (set_default_value T_u16)) (\<lambda>v.
     next_do check_field_separator
       (case v of Div_u16 x \<Rightarrow> ret x | _ \<Rightarrow> throw (Logic_Error ''boost::bad_get: failed value get using boost::get'')))"

section \<open>Invariants of the stream\<close>

text \<open>
  What every reader keeps of a stream if the operations on the stream keep it. An attempt to
  read a number that fails is either an error or followed by \<open>clear\<close>.
\<close>

locale stream_invariant =
  fixes J :: "istream \<Rightarrow> bool"
  assumes J_peek: "J ss \<Longrightarrow> J (snd (peek ss))"
    and J_get_char: "J ss \<Longrightarrow> J (snd (get_char ss))"
    and J_ignore_char: "J ss \<Longrightarrow> J (ignore_char ss)"
    and J_number: "J ss \<Longrightarrow> read_u64 ss = (Some v, ss') \<Longrightarrow> J ss'"
    and J_no_number: "J ss \<Longrightarrow> read_u64 ss = (None, ss') \<Longrightarrow> J (if is_fail ss' then clear_bits ss' else ss')"
    and J_read_string: "J ss \<Longrightarrow> J (snd (read_string '''' ss))"
    and J_hex: "J ss \<Longrightarrow> J (ss\<lparr>is_hex := b\<rparr>)"
begin

lemma J_peeked: "J ss \<Longrightarrow> peek ss = (c, ss') \<Longrightarrow> J ss'"
  using J_peek[of ss] by simp

lemma J_skip_char: "J ss \<Longrightarrow> J (skip_char ch ss)"
  by (auto simp: skip_char_def intro: J_ignore_char dest: J_peeked split: prod.splits)

lemma J_skip_whitespace: "J ss \<Longrightarrow> J (skip_whitespace ss)"
proof (induction ss rule: skip_whitespace.induct)
  case (1 ss)
  show ?case
  proof (cases "is_fail ss")
    case False
    obtain c ss1 where p: "peek ss = (c, ss1)" by (cases "peek ss")
    note J = J_peeked[OF 1(2) p]
    show ?thesis
    proof (cases "char_is is_space c")
      case True
      with 1(1)[OF False p[symmetric] True J_ignore_char[OF J]] p False show ?thesis by (simp add: skip_whitespace.simps[of ss])
    qed (use p False J in \<open>simp add: skip_whitespace.simps[of ss]\<close>)
  qed (use 1(2) in \<open>simp add: skip_whitespace.simps[of ss]\<close>)
qed

lemma J_uint: "J ss \<Longrightarrow> parse_uint tn ss = Inr (v, ss') \<Longrightarrow> J ss'"
  by (auto simp: parse_uint_def res_simps dest: J_number split: prod.splits option.splits if_splits)

lemma keeps_parse_uint [triple_rules]: "keeps J (parse_uint tn)"
  by (rule tripleI) (rule J_uint)

lemma keeps_check_field_separator [triple_rules]: "keeps J check_field_separator"
proof (rule tripleI)
  fix ss u ss' assume "J ss" "check_field_separator ss = Inr (u, ss')"
  then show "J ss'" using J_get_char[of ss] by (auto simp: check_field_separator_def split: prod.splits if_splits)
qed

lemma keeps_read_word [triple_rules]: "keeps J read_word"
proof (rule tripleI)
  fix ss s ss' assume "J ss" "read_word ss = Inr (s, ss')"
  then show "J ss'" using J_read_string[of ss] by (simp add: read_word_def)
qed

lemma keeps_change_hex [triple_rules]: "keeps J (change (\<lambda>ss. ss\<lparr>is_hex := b\<rparr>))"
  by (rule keeps_change) (rule J_hex)

lemma keeps_parse_vector [triple_rules]: "keeps J (parse_vector tn :: 'a::len word list reader)"
proof (rule tripleI)
  fix ss ss' and xs :: "'a word list"
  assume "J ss" "parse_vector tn ss = Inr (xs, ss')"
  then show "J ss'"
  proof (induction tn ss arbitrary: xs rule: parse_vector.induct[where ?'a = 'a])
    case (1 tn ss)
    obtain x ss1 where r: "read_u64 ss = (x, ss1)" by (cases "read_u64 ss")
    show ?case
    proof (cases x)
      case None
      with r 1(3) J_no_number[OF 1(2), of ss1] show ?thesis by (simp add: parse_vector.simps[of tn ss])
    next
      case (Some u)
      with r have "J (skip_char CHR '','' ss1)" by (intro J_skip_char J_number[OF 1(2)]) simp
      with 1(1)[OF r[symmetric] Some _ this] 1(3) r Some show ?thesis
        by (auto simp: parse_vector.simps[of tn ss] res_simps)
    qed
  qed
qed

lemma keeps_array_loop: "keeps J (array_loop tn k :: 'a::len word list reader)"
proof (rule tripleI)
  fix ss ss' and xs :: "'a word list"
  assume "J ss" "array_loop tn k ss = Inr (xs, ss')"
  then show "J ss'"
  proof (induction k arbitrary: ss xs)
    case (Suc k)
    from Suc.prems consider "ss' = ss" | v ss1 ys where "parse_uint tn ss = Inr (v :: 'a word, ss1)"
        "array_loop tn k (skip_char CHR '','' ss1) = Inr (ys :: 'a word list, ss')"
      by (auto simp: res_simps split: if_splits)
    then show ?case
    proof cases
      case 2
      with Suc.prems(1) show ?thesis by (intro Suc.IH[OF _ 2(2)] J_skip_char) (rule J_uint)
    qed (use Suc.prems in simp)
  qed simp
qed

lemma keeps_mac_loop: "keeps J (mac_loop tn)"
proof (rule tripleI)
  fix ss bs ss' assume "J ss" "mac_loop tn ss = Inr (bs, ss')"
  then show "J ss'"
  proof (induction tn ss arbitrary: bs rule: mac_loop.induct)
    case (1 tn ss)
    from 1(3) obtain b ss1 where "parse_uint tn ss = Inr (b :: u8, ss1)"
      by (cases "parse_uint tn ss :: (u8 \<times> istream) res") (auto simp: mac_loop.simps[of tn ss])
    then obtain c ss2 where p: "parse_uint tn ss = Inr (b, ss1)" "peek ss1 = (c, ss2)" by (cases "peek ss1") blast
    note J = J_peeked[OF J_uint[OF 1(2) p(1)] p(2)]
    show ?case
    proof (cases "c = Some (CHR '':'')")
      case True
      with p 1(3) obtain cs where "mac_loop tn (ignore_char ss2) = Inr (cs, ss')"
        by (auto simp: mac_loop.simps[of tn ss] res_simps)
      with 1(1)[OF p(1) refl p(2)[symmetric] True J_ignore_char[OF J]] show ?thesis by blast
    next
      case False
      with p J 1(3) show ?thesis by (auto simp: mac_loop.simps[of tn ss])
    qed
  qed
qed

lemma J_ip_chars: "J ss \<Longrightarrow> J (snd (ip_chars ss))"
proof (induction ss rule: ip_chars.induct)
  case (1 ss)
  obtain c1 ss1 where p1: "peek ss = (c1, ss1)" by (cases "peek ss")
  obtain c2 ss2 where p2: "peek ss1 = (c2, ss2)" by (cases "peek ss1")
  obtain ch ss3 where g: "get_char ss2 = (ch, ss3)" by (cases "get_char ss2")
  note J1 = J_peeked[OF 1(2) p1] and J2 = J_peeked[OF J_peeked[OF 1(2) p1] p2]
  from J_get_char[OF J2] g have J3: "J ss3" by simp
  show ?case
  proof (cases "is_fail ss \<or> char_is is_field_separator c1 \<or> char_is is_space c2")
    case True
    with p1 p2 1(2) J1 J2 show ?thesis by (auto simp: ip_chars.simps[of ss])
  next
    case False
    with 1(1)[OF _ p1[symmetric] _ p2[symmetric] _ g[symmetric] J3] p1 p2 g show ?thesis
      by (auto simp: ip_chars.simps[of ss] split: prod.splits option.splits)
  qed
qed

lemma keeps_parse_ip_addr [triple_rules]: "keeps J (parse_ip_addr f)"
proof (rule tripleI)
  fix ss x ss' assume "J ss" "parse_ip_addr f ss = Inr (x, ss')"
  then show "J ss'"
    using J_ip_chars[of "skip_whitespace ss"] J_skip_whitespace[of ss]
    by (auto simp: parse_ip_addr_def split: prod.splits option.splits)
qed

lemma keeps_parse_array [triple_rules]: "keeps J (parse_array tn k)"
  unfolding parse_array_def by (intro triple_rules keeps_array_loop)

lemma keeps_parse_mac [triple_rules]: "keeps J (parse_mac tn)"
  unfolding parse_mac_def by (intro triple_rules keeps_mac_loop)

lemma keeps_separated [triple_rules]: "keeps J m \<Longrightarrow> keeps J k \<Longrightarrow> keeps J (separated m k)"
  unfolding separated_def by (intro triple_rules)

lemma keeps_value_from_visit: "keeps J (value_from_visit ip tn v)"
  by (cases v) (simp_all only: value_from_visit.simps, (intro triple_rules)+)

lemma keeps_value_from_istringstream: "keeps J (value_from_istringstream ip v)"
  unfolding value_from_istringstream_def by (intro triple_rules keeps_value_from_visit)

lemma keeps_sub_data_items_u16: "keeps J (sub_data_items_u16 ip)"
  unfolding sub_data_items_u16_def
  by (intro triple_rules keeps_value_from_istringstream) (auto intro!: triple_rules split: DataItemValue.splits)

lemma J_open_sub_data_items: "J ss \<Longrightarrow> open_sub_data_items ss = Inr ss' \<Longrightarrow> J ss'"
  using J_read_string[of ss] by (auto simp: open_sub_data_items_def intro: J_skip_whitespace split: prod.splits if_splits)

end

text \<open>A reader only takes from the text.\<close>

abbreviation at_most :: "nat \<Rightarrow> istream \<Rightarrow> bool" where
  "at_most n ss \<equiv> left_over ss \<le> n"

lemma left_over_read_string: "left_over (snd (read_string str ss)) \<le> left_over ss"
  using left_over_sentry[of ss]
  by (auto simp: read_string_def Let_def split: prod.splits bool.splits intro: order_trans [OF length_dropWhile_le])

interpretation shrinking: stream_invariant "at_most n" for n
proof
  fix ss ss' :: istream and v and b
  assume n: "at_most n ss"
  show "at_most n (snd (peek ss))" "at_most n (snd (get_char ss))" "at_most n (ignore_char ss)"
    "at_most n (snd (read_string '''' ss))" "at_most n (ss\<lparr>is_hex := b\<rparr>)"
    using n left_over_peek[of ss] left_over_get_char[of ss] left_over_ignore_char[of ss] left_over_read_string[of "''''" ss]
    by simp_all
  show "at_most n ss'" if "read_u64 ss = (Some v, ss')"
    using n read_u64_shorter[OF that] by simp
  show "at_most n (if is_fail ss' then clear_bits ss' else ss')" if "read_u64 ss = (None, ss')"
    using n left_over_read_u64[of ss] that by (simp add: clear_bits_def)
qed

lemma left_over_skip_whitespace: "left_over (skip_whitespace ss) \<le> left_over ss"
  by (rule shrinking.J_skip_whitespace) simp

lemma open_sub_data_items_shorter: "open_sub_data_items ss = Inr ss' \<Longrightarrow> left_over ss' \<le> left_over ss"
  by (rule shrinking.J_open_sub_data_items) simp_all

lemma sub_data_items_u16_shorter: "sub_data_items_u16 ip ss = Inr (x, ss') \<Longrightarrow> left_over ss' \<le> left_over ss"
  by (rule tripleD[OF shrinking.keeps_sub_data_items_u16]) auto

text \<open>A read that failed but was no error ended at the end of the text.\<close>

definition stream_ok :: "istream \<Rightarrow> bool" where
  "stream_ok ss \<longleftrightarrow> (is_fail ss \<longrightarrow> is_eof ss) \<and> (is_eof ss \<longrightarrow> is_text ss = [])"

interpretation ended: stream_invariant stream_ok
proof
  fix ss ss' :: istream and v and b
  assume ok: "stream_ok ss"
  then show "stream_ok (snd (peek ss))" "stream_ok (snd (get_char ss))" "stream_ok (ignore_char ss)" "stream_ok (ss\<lparr>is_hex := b\<rparr>)"
    by (auto simp: stream_ok_def peek_def get_char_def ignore_char_def good_def split: list.splits)
  show "stream_ok (snd (read_string '''' ss))"
    using ok by (auto simp: stream_ok_def read_string_def sentry_def good_def Let_def split: list.splits)
  show "stream_ok ss'" if "read_u64 ss = (Some v, ss')"
    using that by (auto simp: stream_ok_def read_u64_def split: prod.splits bool.splits)
  show "stream_ok (if is_fail ss' then clear_bits ss' else ss')" if "read_u64 ss = (None, ss')"
    using ok that by (auto simp: stream_ok_def clear_bits_def read_u64_def sentry_def good_def split: prod.splits bool.splits if_splits list.splits)
qed

lemma named_shorter: "(name, ss') = read_string str ss \<Longrightarrow> \<not> is_fail ss' \<Longrightarrow> left_over ss' < left_over ss"
  by (metis read_string_shorter)

function from_istringstream :: "ip_parse \<Rightarrow> ProtocolConfig \<Rightarrow> DataItemInfo option \<Rightarrow> DataItem reader"
  and sub_data_items_loop :: "ip_parse \<Rightarrow> ProtocolConfig \<Rightarrow> DataItemInfo \<Rightarrow> DataItem list reader"
where
  "from_istringstream ip cfg parent_di_info ss =
     (case read_string '''' ss of (di_name, ss1) \<Rightarrow>
        if is_fail ss1 then Inl (Invalid_Argument ''expected data item name, not end of line'')
        else rbind (get_data_item_id cfg di_name parent_di_info) (\<lambda>i.
             rbind (get_data_item_info_by_name cfg di_name) (\<lambda>di_info.
             if dii_value_type di_info = T_sub_data_items
             then rbind (open_sub_data_items ss1) (\<lambda>ss2.
                  rbind (sub_data_items_loop ip cfg di_info ss2) (\<lambda>(sdis, ss3).
                  Inr (DataItem i (Div_sub_data_items sdis), ss3)))
             else if dii_value_type di_info = T_u16_sub_data_items
             then rbind (sub_data_items_u16 ip ss1) (\<lambda>(x, ss2).
                  rbind (open_sub_data_items ss2) (\<lambda>ss3.
                  rbind (sub_data_items_loop ip cfg di_info ss3) (\<lambda>(sdis, ss4).
                  Inr (DataItem i (Div_u16_sub_data_items x sdis), ss4))))
             else rbind (value_from_istringstream ip (set_default_value (dii_value_type di_info)) ss1) (\<lambda>(v, ss2).
                  Inr (DataItem i v, ss2)))))"
| "sub_data_items_loop ip cfg di_info ss =
     (case peek ss of (c, ss1) \<Rightarrow>
        if c = Some (CHR ''}'') then Inr ([], ignore_char ss1)
        else rbind (from_istringstream ip cfg (Some di_info) ss1) (\<lambda>(subdi, ss2).
             if left_over ss2 < left_over ss1
             then rbind (sub_data_items_loop ip cfg di_info (skip_whitespace ss2)) (\<lambda>(sdis, ss3).
                  Inr (subdi # sdis, ss3))
             else Inl Hang))"
  by pat_completeness auto
termination
  by (relation "measure (\<lambda>x. case x of Inl (_, _, _, ss) \<Rightarrow> 2 * left_over ss | Inr (_, _, _, ss) \<Rightarrow> Suc (2 * left_over ss))")
    (auto dest!: named_shorter open_sub_data_items_shorter sub_data_items_u16_shorter left_over_peeked
      intro: le_less_trans [OF left_over_skip_whitespace])

declare from_istringstream.simps [simp del] sub_data_items_loop.simps [simp del]

definition data_item_from_string :: "ip_parse \<Rightarrow> ProtocolConfig \<Rightarrow> DataItemInfo option \<Rightarrow> string \<Rightarrow> DataItem res" where
  "data_item_from_string ip cfg parent_di_info str =
     rbind (from_istringstream ip cfg parent_di_info (open_stream str)) (\<lambda>(di, _). Inr di)"

section \<open>Parsing returns\<close>

context stream_invariant
begin

lemma J_from_istringstream:
  shows "J ss \<Longrightarrow> from_istringstream ip cfg p ss = Inr (di, ss') \<Longrightarrow> J ss'"
    and "J ss \<Longrightarrow> sub_data_items_loop ip cfg info ss = Inr (dis, ss') \<Longrightarrow> J ss'"
proof (induction ip cfg p ss and ip cfg info ss arbitrary: di ss' and dis ss'
    rule: from_istringstream_sub_data_items_loop.induct)
  case (1 ip cfg p ss)
  obtain name ss1 where name: "read_string '''' ss = (name, ss1)" by (cases "read_string '''' ss")
  with J_read_string[OF 1(3)] have J: "J ss1" by simp
  from 1(4) name have ok: "\<not> is_fail ss1" by (auto simp: from_istringstream.simps[of ip cfg p ss])
  from 1(4) name ok obtain i info where info: "get_data_item_id cfg name p = Inr i" "get_data_item_info_by_name cfg name = Inr info"
    by (auto simp: from_istringstream.simps[of ip cfg p ss] res_simps)
  note run = 1(4)[unfolded from_istringstream.simps[of ip cfg p ss] name info prod.case rbind_Inr if_not_P[OF ok]]
  consider (subs) "dii_value_type info = T_sub_data_items" | (u16) "dii_value_type info = T_u16_sub_data_items"
    | (other) "dii_value_type info \<noteq> T_sub_data_items" "dii_value_type info \<noteq> T_u16_sub_data_items" by blast
  then show ?case
  proof cases
    case subs
    with run obtain ss2 sdis where "open_sub_data_items ss1 = Inr ss2" "sub_data_items_loop ip cfg info ss2 = Inr (sdis, ss')"
      by (auto simp: res_simps)
    with 1(1)[OF name[symmetric] ok info subs this(1) J_open_sub_data_items[OF J this(1)] this(2)] show ?thesis by simp
  next
    case u16
    with run obtain x ss2 ss3 sdis where u: "sub_data_items_u16 ip ss1 = Inr (x, ss2)" "open_sub_data_items ss2 = Inr ss3"
      "sub_data_items_loop ip cfg info ss3 = Inr (sdis, ss')"
      by (auto simp: res_simps)
    then have "J ss3" by (intro J_open_sub_data_items[OF tripleD[OF keeps_sub_data_items_u16 J]])
    with 1(2)[OF name[symmetric] ok info _ u16 u(1) refl u(2) this u(3)] u16 show ?thesis by simp
  next
    case other
    with run obtain v where "value_from_istringstream ip (set_default_value (dii_value_type info)) ss1 = Inr (v, ss')"
      by (auto simp: res_simps)
    with tripleD[OF keeps_value_from_istringstream J this] show ?thesis by simp
  qed
next
  case (2 ip cfg info ss)
  obtain c ss1 where p: "peek ss = (c, ss1)" by (cases "peek ss")
  note J = J_peeked[OF 2(3) p]
  show ?case
  proof (cases "c = Some (CHR ''}'')")
    case True
    with 2(4) p J_ignore_char[OF J] show ?thesis by (simp add: sub_data_items_loop.simps[of ip cfg info ss])
  next
    case False
    with 2(4) p obtain sdi ss2 sdis where r: "from_istringstream ip cfg (Some info) ss1 = Inr (sdi, ss2)" "left_over ss2 < left_over ss1"
      "sub_data_items_loop ip cfg info (skip_whitespace ss2) = Inr (sdis, ss')"
      by (auto simp: sub_data_items_loop.simps[of ip cfg info ss] res_simps split: if_splits)
    from 2(1)[OF p[symmetric] False J r(1)] have "J (skip_whitespace ss2)" by (rule J_skip_whitespace)
    from 2(2)[OF p[symmetric] False r(1) refl r(2) this r(3)] show ?thesis .
  qed
qed

end

text \<open>A data item that was read took at least its name from the text.\<close>

lemma from_istringstream_shorter:
  shows "from_istringstream ip cfg p ss = Inr (di, ss') \<Longrightarrow> left_over ss' < left_over ss"
    and "sub_data_items_loop ip cfg info ss = Inr (dis, ss') \<Longrightarrow> left_over ss' \<le> left_over ss"
proof (induction ip cfg p ss and ip cfg info ss arbitrary: di ss' and dis ss'
    rule: from_istringstream_sub_data_items_loop.induct)
  case (1 ip cfg p ss)
  obtain name ss1 where name: "read_string '''' ss = (name, ss1)" by (cases "read_string '''' ss")
  from 1(3) name have ok: "\<not> is_fail ss1" by (auto simp: from_istringstream.simps[of ip cfg p ss])
  with read_string_shorter[OF name] have less: "left_over ss1 < left_over ss" by simp
  from 1(3) name ok obtain i info where info: "get_data_item_id cfg name p = Inr i" "get_data_item_info_by_name cfg name = Inr info"
    by (auto simp: from_istringstream.simps[of ip cfg p ss] res_simps)
  note run = 1(3)[unfolded from_istringstream.simps[of ip cfg p ss] name info prod.case rbind_Inr if_not_P[OF ok]]
  consider (subs) "dii_value_type info = T_sub_data_items" | (u16) "dii_value_type info = T_u16_sub_data_items"
    | (other) "dii_value_type info \<noteq> T_sub_data_items" "dii_value_type info \<noteq> T_u16_sub_data_items" by blast
  then show ?case
  proof cases
    case subs
    with run obtain ss2 sdis where "open_sub_data_items ss1 = Inr ss2" "sub_data_items_loop ip cfg info ss2 = Inr (sdis, ss')"
      by (auto simp: res_simps)
    with 1(1)[OF name[symmetric] ok info subs this] open_sub_data_items_shorter[of ss1 ss2] less show ?thesis by simp
  next
    case u16
    with run obtain x ss2 ss3 sdis where "sub_data_items_u16 ip ss1 = Inr (x, ss2)" "open_sub_data_items ss2 = Inr ss3"
      "sub_data_items_loop ip cfg info ss3 = Inr (sdis, ss')"
      by (auto simp: res_simps)
    with 1(2)[OF name[symmetric] ok info _ u16 this(1) refl this(2,3)] sub_data_items_u16_shorter[of ip ss1 x ss2]
      open_sub_data_items_shorter[of ss2 ss3] u16 less show ?thesis by simp
  next
    case other
    with run obtain v where "value_from_istringstream ip (set_default_value (dii_value_type info)) ss1 = Inr (v, ss')"
      by (auto simp: res_simps)
    with tripleD[OF shrinking.keeps_value_from_istringstream _ this, of "left_over ss1"] less show ?thesis by simp
  qed
next
  case (2 ip cfg info ss)
  obtain c ss1 where p: "peek ss = (c, ss1)" by (cases "peek ss")
  with left_over_peek[of ss] have same: "left_over ss1 = left_over ss" by simp
  show ?case
  proof (cases "c = Some (CHR ''}'')")
    case True
    with 2(3) p same left_over_ignore_char[of ss1] show ?thesis by (simp add: sub_data_items_loop.simps[of ip cfg info ss])
  next
    case False
    with 2(3) p obtain sdi ss2 sdis where "from_istringstream ip cfg (Some info) ss1 = Inr (sdi, ss2)" "left_over ss2 < left_over ss1"
      "sub_data_items_loop ip cfg info (skip_whitespace ss2) = Inr (sdis, ss')"
      by (auto simp: sub_data_items_loop.simps[of ip cfg info ss] res_simps split: if_splits)
    with 2(2)[OF p[symmetric] False this(1) refl this(2,3)] left_over_skip_whitespace[of ss2] same show ?thesis by simp
  qed
qed

section \<open>Errors\<close>

text \<open>Only two exceptions escape a reader, those the callers of the readers handle.\<close>

fun is_text_error :: "exn \<Rightarrow> bool" where
  "is_text_error (Invalid_Argument s) = True"
| "is_text_error (BadDataItemName s) = True"
| "is_text_error _ = False"

lemma text_error_std: "is_text_error e \<Longrightarrow> is_std_exception e"
  by (cases e) simp_all

definition throws_std :: "('s, 'a) comp \<Rightarrow> bool" where
  "throws_std m \<longleftrightarrow> (\<forall>s e. m s = Inl e \<longrightarrow> is_text_error e)"

named_theorems std_rules "rules for the exceptions of a reader"

lemma throws_stdD: "throws_std m \<Longrightarrow> m s = Inl e \<Longrightarrow> is_text_error e"
  by (simp add: throws_std_def)

lemma std_ret [std_rules]: "throws_std (ret x)"
  by (simp add: throws_std_def comp_simps)

lemma std_change [std_rules]: "throws_std (change f)"
  by (simp add: throws_std_def comp_simps)

lemma std_throw [std_rules]: "is_text_error e \<Longrightarrow> throws_std (throw e)"
  by (simp add: throws_std_def comp_simps)

lemma std_bnd [std_rules]: "throws_std m \<Longrightarrow> (\<And>x. throws_std (f x)) \<Longrightarrow> throws_std (bnd m f)"
  by (fastforce simp: throws_std_def comp_simps split: sum.splits)

lemma std_next_do [std_rules]: "throws_std m \<Longrightarrow> throws_std n \<Longrightarrow> throws_std (next_do m n)"
  unfolding next_do_def by (rule std_bnd)

lemma std_if [std_rules]: "throws_std m \<Longrightarrow> throws_std n \<Longrightarrow> throws_std (if b then m else n)"
  by simp

lemma std_case_prod [std_rules]: "(\<And>x y. throws_std (f x y)) \<Longrightarrow> throws_std (case z of (x, y) \<Rightarrow> f x y)"
  by (cases z) simp

lemma std_read_word [std_rules]: "throws_std read_word"
  by (simp add: throws_std_def read_word_def)

lemma std_check_field_separator [std_rules]: "throws_std check_field_separator"
  by (simp add: throws_std_def check_field_separator_def split: prod.splits)

lemma fit_uint_error: "fit_uint tn u = Inl e \<Longrightarrow> is_text_error e"
  by (auto simp: fit_uint_def Let_def split: if_splits)

lemma std_parse_uint [std_rules]: "throws_std (parse_uint tn)"
  by (auto simp: throws_std_def parse_uint_def res_simps dest: fit_uint_error split: prod.splits option.splits if_splits)

lemma std_parse_ip_addr [std_rules]: "throws_std (parse_ip_addr f)"
  by (auto simp: throws_std_def parse_ip_addr_def split: prod.splits option.splits)

lemma std_parse_vector [std_rules]: "throws_std (parse_vector tn :: 'a::len word list reader)"
proof -
  have "is_text_error e" if "(parse_vector tn ss :: ('a word list \<times> istream) res) = Inl e" for ss e
    using that
  proof (induction tn ss rule: parse_vector.induct[where ?'a = 'a])
    case (1 tn ss)
    show ?case
    proof (cases "read_u64 ss")
      case (Pair x ss1)
      show ?thesis
      proof (cases x)
        case (Some u)
        with 1 Pair show ?thesis
          by (auto simp: parse_vector.simps[of tn ss] res_simps dest: fit_uint_error)
      qed (use 1(2) Pair in \<open>simp add: parse_vector.simps[of tn ss]\<close>)
    qed
  qed
  then show ?thesis by (simp add: throws_std_def)
qed

lemma std_mac_loop [std_rules]: "throws_std (mac_loop tn)"
proof -
  have "is_text_error e" if "mac_loop tn ss = Inl e" for ss e
    using that
  proof (induction tn ss rule: mac_loop.induct)
    case (1 tn ss)
    show ?case
    proof (cases "parse_uint tn ss :: (u8 \<times> istream) res")
      case (Inl e')
      with 1(2) show ?thesis by (auto simp: mac_loop.simps[of tn ss] dest: throws_stdD[OF std_parse_uint])
    next
      case (Inr r)
      obtain b ss1 where r: "r = (b, ss1)" by (cases r)
      obtain c ss2 where p: "peek ss1 = (c, ss2)" by (cases "peek ss1")
      with 1(2) Inr r have "c = Some (CHR '':'') \<and> mac_loop tn (ignore_char ss2) = Inl e"
        by (auto simp: mac_loop.simps[of tn ss] res_simps split: if_splits)
      with 1(1)[OF Inr r[symmetric] p[symmetric]] show ?thesis by blast
    qed
  qed
  then show ?thesis by (simp add: throws_std_def)
qed

lemma std_array_loop [std_rules]: "throws_std (array_loop tn k :: 'a::len word list reader)"
proof -
  have "is_text_error e" if "(array_loop tn k ss :: ('a word list \<times> istream) res) = Inl e" for ss e
    using that by (induction k arbitrary: ss) (auto simp: res_simps dest: throws_stdD[OF std_parse_uint] split: if_splits)
  then show ?thesis by (simp add: throws_std_def)
qed

lemma std_parse_array [std_rules]: "throws_std (parse_array tn k)"
  unfolding parse_array_def by (intro std_rules) simp

lemma std_parse_mac [std_rules]: "throws_std (parse_mac tn)"
  unfolding parse_mac_def by (intro std_rules)

lemma std_separated [std_rules]: "throws_std m \<Longrightarrow> throws_std n \<Longrightarrow> throws_std (separated m n)"
  unfolding separated_def by (intro std_rules)

lemma std_value_from_visit [std_rules]: "throws_std (value_from_visit ip tn v)"
  by (cases v) (simp_all only: value_from_visit.simps, (intro std_rules)+)

lemma lookup_error:
  "get_data_item_id cfg name p = Inl e \<Longrightarrow> is_text_error e"
  "get_data_item_info_by_name cfg name = Inl e' \<Longrightarrow> is_text_error e'"
  by (auto simp: get_data_item_id_def get_data_item_info_by_name_def split: option.splits list.splits)

lemma std_value_from_istringstream [std_rules]: "throws_std (value_from_istringstream ip v)"
proof -
  obtain tn where "value_type_to_string (value_type v) = Inr tn" using value_type_strings by blast
  then have "lift (value_type_to_string (value_type v)) = (ret tn :: string reader)" by (simp add: fun_eq_iff comp_simps)
  then show ?thesis unfolding value_from_istringstream_def by (simp only:) (intro std_rules)
qed

lemma value_from_visit_type:
  assumes "value_from_visit ip tn v ss = Inr (v', ss')"
  shows "value_type v' = value_type v"
  using assms by (cases v) (auto simp: comp_simps split: sum.splits prod.splits)

lemma default_value_type: "value_type (set_default_value t) = t"
  by (cases t) simp_all

lemma value_from_istringstream_type:
  assumes "value_from_istringstream ip v ss = Inr (v', ss')"
  shows "value_type v' = value_type v"
  using assms by (auto simp: value_from_istringstream_def comp_simps dest: value_from_visit_type split: sum.splits)

lemma open_sub_data_items_error: "open_sub_data_items ss = Inl e \<Longrightarrow> is_text_error e"
  by (auto simp: open_sub_data_items_def split: prod.splits if_splits)

lemma std_sub_data_items_u16: "throws_std (sub_data_items_u16 ip)"
proof -
  have "is_text_error e" if "sub_data_items_u16 ip ss = Inl e" for ss e
  proof (cases "value_from_istringstream ip (set_default_value T_u16) ss")
    case (Inl e')
    with that show ?thesis by (auto simp: sub_data_items_u16_def comp_simps dest: throws_stdD[OF std_value_from_istringstream])
  next
    case (Inr r)
    obtain v ss1 where r: "r = (v, ss1)" by (cases r)
    from value_from_istringstream_type[OF Inr[unfolded r]] obtain x where "v = Div_u16 x" by (cases v) simp_all
    with Inr r that show ?thesis
      by (auto simp: sub_data_items_u16_def comp_simps dest: throws_stdD[OF std_check_field_separator] split: sum.splits)
  qed
  then show ?thesis by (simp add: throws_std_def)
qed

lemma from_istringstream_error:
  shows "from_istringstream ip cfg p ss = Inl e \<Longrightarrow> is_text_error e"
    and "sub_data_items_loop ip cfg info ss = Inl e \<Longrightarrow> is_text_error e"
proof (induction ip cfg p ss and ip cfg info ss rule: from_istringstream_sub_data_items_loop.induct)
  case (1 ip cfg p ss)
  obtain name ss1 where name: "read_string '''' ss = (name, ss1)" by (cases "read_string '''' ss")
  show ?case
  proof (cases "is_fail ss1")
    case ok: False
    show ?thesis
    proof (cases "rbind (get_data_item_id cfg name p) (\<lambda>i. rbind (get_data_item_info_by_name cfg name) (\<lambda>info. Inr (i, info)))")
      case (Inl e')
      with 1(3) name ok show ?thesis
        by (auto simp: from_istringstream.simps[of ip cfg p ss] res_simps dest: lookup_error)
    next
      case (Inr r)
      then obtain i info where info: "get_data_item_id cfg name p = Inr i" "get_data_item_info_by_name cfg name = Inr info"
        by (auto simp: res_simps)
      note run = 1(3)[unfolded from_istringstream.simps[of ip cfg p ss] name info prod.case rbind_Inr if_not_P[OF ok]]
      consider (subs) "dii_value_type info = T_sub_data_items" | (u16) "dii_value_type info = T_u16_sub_data_items"
        | (other) "dii_value_type info \<noteq> T_sub_data_items" "dii_value_type info \<noteq> T_u16_sub_data_items" by blast
      then show ?thesis
      proof cases
        case subs
        with run 1(1)[OF name[symmetric] ok info subs] show ?thesis
          by (auto simp: res_simps dest: open_sub_data_items_error)
      next
        case u16
        with run 1(2)[OF name[symmetric] ok info _ u16 _ refl] show ?thesis
          by (auto simp: res_simps dest: open_sub_data_items_error throws_stdD[OF std_sub_data_items_u16])
      next
        case other
        with run show ?thesis by (auto simp: res_simps dest: throws_stdD[OF std_value_from_istringstream])
      qed
    qed
  qed (use 1(3) name in \<open>auto simp: from_istringstream.simps[of ip cfg p ss]\<close>)
next
  case (2 ip cfg info ss)
  obtain c ss1 where p: "peek ss = (c, ss1)" by (cases "peek ss")
  with 2(3) have c: "c \<noteq> Some (CHR ''}'')" by (auto simp: sub_data_items_loop.simps[of ip cfg info ss])
  show ?case
  proof (cases "from_istringstream ip cfg (Some info) ss1")
    case (Inl e')
    with 2(1)[OF p[symmetric] c] 2(3) p c show ?thesis by (auto simp: sub_data_items_loop.simps[of ip cfg info ss])
  next
    case (Inr r)
    obtain sdi ss2 where r: "r = (sdi, ss2)" by (cases r)
    with Inr from_istringstream_shorter(1) have "left_over ss2 < left_over ss1" by blast
    with 2(2)[OF p[symmetric] c Inr r[symmetric] this] 2(3) p c Inr r show ?thesis
      by (auto simp: sub_data_items_loop.simps[of ip cfg info ss] res_simps)
  qed
qed

text \<open>
  reading a data item from text always returns: a data item whose id is that of the name at
  the front of the text and whose value has the type configured for that name, or one of the
  two exceptions its callers handle, whatever the text is and however deep its sub data
  items are nested.
\<close>

lemma from_string_returns:
  "case data_item_from_string ip cfg p str of
     Inr di \<Rightarrow> \<exists>name info. name = fst (read_string '''' (open_stream str)) \<and> get_data_item_id cfg name p = Inr (di_id di)
         \<and> get_data_item_info_by_name cfg name = Inr info \<and> get_type di = dii_value_type info
   | Inl e \<Rightarrow> is_text_error e"
proof (cases "from_istringstream ip cfg p (open_stream str)")
  case (Inl e)
  with from_istringstream_error(1) show ?thesis by (auto simp: data_item_from_string_def)
next
  case (Inr r)
  obtain di ss' where r: "r = (di, ss')" by (cases r)
  obtain name ss1 where name: "read_string '''' (open_stream str) = (name, ss1)" by (cases "read_string '''' (open_stream str)")
  from Inr r name obtain i info where "get_data_item_id cfg name p = Inr i" "get_data_item_info_by_name cfg name = Inr info"
    "di_id di = i" "get_type di = dii_value_type info"
    by (auto simp: from_istringstream.simps[of ip cfg p] get_type_def default_value_type res_simps
        dest!: value_from_istringstream_type split: if_splits)
  with Inr r name show ?thesis by (auto simp: data_item_from_string_def)
qed

end
