(* ===== verification/DataItemRoundTrip.thy ===== *)
theory DataItemRoundTrip
  imports DataItemParse
begin

text \<open>
  \<open>from_string\<close> reads back what \<open>to_string\<close> printed. A reader that is given a printed form
  followed by more text leaves the stream where that text begins, up to white space.
\<close>

section \<open>Numbers\<close>

lemma of_char_int: "n < 256 \<Longrightarrow> (of_char (char_of n) :: int) = int n"
  by (metis of_char_of mod_less of_nat_of_char)

lemma digit_value_digit_char [simp]: "d < 10 \<Longrightarrow> digit_value (digit_char d) = int d"
  by (simp add: digit_value_def digit_char_def Let_def of_char_int)

lemma digits_value_snoc: "digits_value b (ds @ [c]) = digits_value b ds * b + digit_value c"
  by (simp add: digits_value_def)

lemma digits_value_to_string: "digits_value 10 (to_string_nat n) = int n"
proof (induction n rule: to_string_nat.induct)
  case (1 n)
  show ?case
  proof (cases "n < 10")
    case True
    then show ?thesis by (simp add: to_string_nat.simps[of n] digits_value_def)
  next
    case False
    with 1 show ?thesis by (simp add: to_string_nat.simps[of n] digits_value_snoc zdiv_int zmod_int)
  qed
qed

lemma digits_value_to_string_word: "digits_value 10 (to_string_word w) = uint w"
  by (simp add: to_string_word_def digits_value_to_string)

lemma to_string_nat_digits: "c \<in> set (to_string_nat n) \<Longrightarrow> digit_value c < 10"
proof (induction n rule: to_string_nat.induct)
  case (1 n)
  show ?case
  proof (cases "n < 10")
    case True
    with 1(2) show ?thesis by (simp add: to_string_nat.simps[of n])
  next
    case False
    with 1 show ?thesis by (auto simp: to_string_nat.simps[of n])
  qed
qed

lemma to_string_word_digits: "c \<in> set (to_string_word w) \<Longrightarrow> digit_value c < 10"
  by (auto simp: to_string_word_def dest: to_string_nat_digits)

lemma digit_not_space: "digit_value c < 16 \<Longrightarrow> \<not> is_space c"
  by (auto simp: digit_value_def is_space_def Let_def split: if_splits)

lemma digit_not_sign: "digit_value c < 16 \<Longrightarrow> c \<noteq> CHR ''-'' \<and> c \<noteq> CHR ''+''"
  by (auto simp: digit_value_def Let_def split: if_splits)

definition no_digit :: "int \<Rightarrow> string \<Rightarrow> bool" where
  "no_digit base rest \<longleftrightarrow> (case rest of [] \<Rightarrow> True | c # _ \<Rightarrow> base \<le> digit_value c)"

lemma skip_sign_digit: "digit_value c < 16 \<Longrightarrow> skip_sign (c # cs) = (False, c # cs)"
  using digit_not_sign[of c] by (simp add: skip_sign_def)

lemma takeWhile_digits:
  assumes "\<And>c. c \<in> set ds \<Longrightarrow> digit_value c < b" and "no_digit b rest"
  shows "takeWhile (\<lambda>c. digit_value c < b) (ds @ rest) = ds" "dropWhile (\<lambda>c. digit_value c < b) (ds @ rest) = rest"
  using assms by (induction ds) (auto simp: no_digit_def takeWhile_eq_Nil_iff dropWhile_eq_self_iff split: list.splits)

lemma extract_decimal:
  assumes "no_digit 10 rest"
  shows "extract_u64 False (to_string_word (w :: 'a::len word) @ rest) =
    (if uint w < 2 ^ 64 then Some (of_int (uint w)) else None, rest)"
proof -
  obtain c cs where w: "to_string_word w = c # cs" by (cases "to_string_word w") auto
  have digits: "digit_value d < 10" if "d \<in> set (c # cs)" for d using to_string_word_digits[of d w] that w by simp
  then have sign: "skip_sign (to_string_word w @ rest) = (False, to_string_word w @ rest)"
    using skip_sign_digit[of c "cs @ rest"] by (fastforce simp: w)
  have prefix: "skip_prefix False t = t" for t by (simp add: skip_prefix_def split: list.splits char.splits bool.splits)
  show ?thesis
    using takeWhile_digits[of "to_string_word w" 10 rest, OF to_string_word_digits[of _ w] assms]
    by (simp add: extract_u64_def sign prefix digits_value_to_string_word Let_def)
qed

section \<open>Readers of numbers\<close>

lemma sentry_good:
  assumes "good ss" and "is_text ss = c # cs" and "\<not> is_space c"
  shows "sentry ss = (True, ss)"
  using assms by (simp add: sentry_def)

lemma parse_uint_number:
  fixes w :: "'a::len word"
  assumes "good ss" and "\<not> is_hex ss" and "is_text ss = to_string_word w @ rest" and "no_digit 10 rest"
    and "LENGTH('a) \<le> 64"
  shows "parse_uint tn ss = Inr (w, ss\<lparr>is_text := rest, is_eof := (rest = [])\<rparr>)"
proof -
  obtain c cs where w: "to_string_word w = c # cs" by (cases "to_string_word w") auto
  with to_string_word_digits[of c w] digit_not_space[of c] have "\<not> is_space c" by simp
  with sentry_good[OF assms(1), of c "cs @ rest"] assms(3) w have sentry: "sentry ss = (True, ss)" by simp
  have "uint w < 2 ^ LENGTH('a)" by (rule unsigned_less)
  also have "(2 :: int) ^ LENGTH('a) \<le> 2 ^ 64" using assms(5) by (intro power_increasing) simp_all
  finally have less: "uint w < 2 ^ 64" .
  have "ucast (ucast w :: u64) = w" using assms(5) by (intro ucast_up_ucast_id) (simp add: is_up)
  then have "fit_uint tn (of_int (uint w) :: u64) = Inr w" by (simp add: fit_uint_def Let_def)
  moreover have "ss\<lparr>is_text := rest, is_eof := (rest = []), is_fail := False\<rparr> = ss\<lparr>is_text := rest, is_eof := (rest = [])\<rparr>"
    using assms(1) by (simp add: good_def)
  ultimately show ?thesis
    using less assms(2,3) sentry extract_decimal[OF assms(4), of w]
    by (simp add: parse_uint_def read_u64_def)
qed

section \<open>Reading a printed form\<close>

text \<open>
  What may follow a printed form: nothing, or white space and then something that is not
  taken for a number.
\<close>

definition stops :: "char \<Rightarrow> bool" where
  "stops c \<longleftrightarrow> \<not> is_space c \<and> 10 \<le> digit_value c \<and> c \<noteq> CHR ''-'' \<and> c \<noteq> CHR ''+''"

definition tail_ok :: "string \<Rightarrow> bool" where
  "tail_ok tail \<longleftrightarrow> tail = [] \<or> is_space (hd tail) \<and> (case dropWhile is_space tail of [] \<Rightarrow> True | c # _ \<Rightarrow> stops c)"

definition after :: "string \<Rightarrow> istream \<Rightarrow> bool" where
  "after tail ss \<longleftrightarrow> \<not> is_hex ss \<and> dropWhile is_space (is_text ss) = dropWhile is_space tail
     \<and> (dropWhile is_space tail \<noteq> [] \<longrightarrow> good ss)"

text \<open>The reader \<open>m\<close> reads \<open>x\<close> from \<open>text\<close> when \<open>tail\<close> follows.\<close>

definition reads :: "string \<Rightarrow> 'a reader \<Rightarrow> string \<Rightarrow> 'a \<Rightarrow> bool" where
  "reads tail m text x \<longleftrightarrow>
     (\<forall>ss. good ss \<longrightarrow> \<not> is_hex ss \<longrightarrow> is_text ss = text @ tail \<longrightarrow> (\<exists>ss'. m ss = Inr (x, ss') \<and> after tail ss'))"

lemma readsI:
  "(\<And>ss. good ss \<Longrightarrow> \<not> is_hex ss \<Longrightarrow> is_text ss = text @ tail \<Longrightarrow> \<exists>ss'. m ss = Inr (x, ss') \<and> after tail ss')
   \<Longrightarrow> reads tail m text x"
  by (simp add: reads_def)

lemma reads_map: "reads tail m text x \<Longrightarrow> reads tail (bnd m (\<lambda>x. ret (f x))) text (f x)"
  by (fastforce simp: reads_def comp_simps)

lemma reads_map2: "reads tail m text (x, y) \<Longrightarrow> reads tail (bnd m (\<lambda>(x, y). ret (f x y))) text (f x y)"
  by (fastforce simp: reads_def comp_simps)

lemma reads_map3:
  "reads tail m text (x, y, z) \<Longrightarrow> reads tail (bnd m (\<lambda>(x, y, z). ret (f x y z))) text (f x y z)"
  by (fastforce simp: reads_def comp_simps)

lemma space_no_digit: "is_space c \<Longrightarrow> digit_value c = 16"
  by (auto simp: is_space_def digit_value_def Let_def)

lemma tail_no_digit: "tail_ok tail \<Longrightarrow> no_digit b tail" if "b \<le> 16"
  using that by (auto simp: tail_ok_def no_digit_def space_no_digit split: list.splits)

lemma separator_no_digit: "no_digit 10 (CHR '';'' # cs)"
  by (simp add: no_digit_def digit_value_def)

lemma after_text:
  assumes "good ss" and "\<not> is_hex ss" and "tail_ok tail"
  shows "after tail (ss\<lparr>is_text := tail, is_eof := (tail = [])\<rparr>)"
  using assms by (auto simp: after_def good_def)

lemma reads_uint:
  assumes "tail_ok tail" and "LENGTH('a::len) \<le> 64"
  shows "reads tail (parse_uint tn) (to_string_word w) (w :: 'a word)"
proof (rule readsI)
  fix ss assume ss: "good ss" "\<not> is_hex ss" "is_text ss = to_string_word w @ tail"
  from parse_uint_number[OF ss tail_no_digit[OF _ assms(1)] assms(2), of tn] after_text[OF ss(1,2) assms(1)]
  show "\<exists>ss'. parse_uint tn ss = Inr (w, ss') \<and> after tail ss'" by simp
qed

lemma separator_read:
  assumes "good ss" and "is_text ss = CHR '';'' # cs"
  shows "check_field_separator ss = Inr ((), ss\<lparr>is_text := cs\<rparr>)"
  using assms by (auto simp: check_field_separator_def get_char_def char_is_def is_field_separator_def good_def)

text \<open>A field followed by its separator.\<close>

definition reads_field :: "'a reader \<Rightarrow> string \<Rightarrow> 'a \<Rightarrow> bool" where
  "reads_field m text x \<longleftrightarrow>
     (\<forall>ss cs. good ss \<longrightarrow> \<not> is_hex ss \<longrightarrow> is_text ss = text @ CHR '';'' # cs \<longrightarrow> m ss = Inr (x, ss\<lparr>is_text := CHR '';'' # cs\<rparr>))"

lemma reads_field_uint:
  assumes "LENGTH('a::len) \<le> 64"
  shows "reads_field (parse_uint tn) (to_string_word w) (w :: 'a word)"
  unfolding reads_field_def
proof (intro allI impI)
  fix ss cs assume ss: "good ss" "\<not> is_hex ss" "is_text ss = to_string_word w @ CHR '';'' # cs"
  from parse_uint_number[OF ss separator_no_digit assms, of tn] ss(1) show
    "parse_uint tn ss = Inr (w, ss\<lparr>is_text := CHR '';'' # cs\<rparr>)" by (simp add: good_def)
qed

lemma reads_separated:
  assumes "reads_field m s x" and "reads tail n t y"
  shows "reads tail (separated m n) (s @ CHR '';'' # t) (x, y)"
proof (rule readsI)
  fix ss assume ss: "good ss" "\<not> is_hex ss" "is_text ss = (s @ CHR '';'' # t) @ tail"
  let ?ss1 = "ss\<lparr>is_text := CHR '';'' # t @ tail\<rparr>" and ?ss2 = "ss\<lparr>is_text := t @ tail\<rparr>"
  have "m ss = Inr (x, ?ss1)" using assms(1) ss by (simp add: reads_field_def)
  moreover have "check_field_separator ?ss1 = Inr ((), ?ss2)"
    using separator_read[of ?ss1 "t @ tail"] ss(1) by (simp add: good_def)
  moreover obtain ss' where "n ?ss2 = Inr (y, ss')" "after tail ss'"
    using assms(2) ss unfolding reads_def good_def by (metis istream.select_convs(1-4) istream.surjective istream.update_convs(1))
  ultimately show "\<exists>ss'. separated m n ss = Inr ((x, y), ss') \<and> after tail ss'"
    by (simp add: separated_def comp_simps)
qed

section \<open>Vectors and arrays\<close>

lemma words_to_string_comma: "words_to_string comma (x # xs) = comma @ words_to_string '''' (x # xs)"
  by simp

text \<open>At the tail no further number is found, and the stream is usable again.\<close>

lemma parse_vector_end:
  assumes "tail_ok tail" and "\<not> is_hex ss" and "is_text ss = tail" and "tail = [] \<or> good ss"
  shows "\<exists>ss'. parse_vector tn ss = Inr ([], ss') \<and> after tail ss'"
proof -
  have "\<exists>ss1. read_u64 ss = (None, ss1) \<and> is_fail ss1 \<and> \<not> is_hex ss1 \<and> is_text ss1 = dropWhile is_space tail"
  proof (cases "dropWhile is_space tail")
    case Nil
    with assms show ?thesis by (cases "good ss") (auto simp: read_u64_def sentry_def simp del: dropWhile_eq_Nil_conv)
  next
    case (Cons c cs)
    with assms have good: "good ss" by auto
    from Cons assms(1) have c: "stops c" by (auto simp: tail_ok_def)
    then have "skip_sign (c # cs) = (False, c # cs)" by (simp add: skip_sign_def stops_def)
    moreover have "skip_prefix False (c # cs) = c # cs" by (simp add: skip_prefix_def split: list.splits char.splits bool.splits)
    ultimately have "extract_u64 False (c # cs) = (None, c # cs)"
      using c by (simp add: extract_u64_def stops_def not_less)
    with Cons good assms(2,3) show ?thesis by (simp add: read_u64_def sentry_def)
  qed
  then obtain ss1 where "read_u64 ss = (None, ss1)" "is_fail ss1" "\<not> is_hex ss1" "is_text ss1 = dropWhile is_space tail" by blast
  then show ?thesis
    by (auto simp: parse_vector.simps[of tn ss] after_def clear_bits_def good_def)
qed

lemma skip_comma_tail:
  assumes "tail_ok tail" and "good ss"
  shows "skip_char CHR '','' (ss\<lparr>is_text := tail, is_eof := (tail = [])\<rparr>) =
    (if tail = [] then ss\<lparr>is_text := [], is_eof := True, is_fail := True\<rparr> else ss\<lparr>is_text := tail\<rparr>)"
proof (cases tail)
  case (Cons c cs)
  with assms have "c \<noteq> CHR '',''" by (auto simp: tail_ok_def is_space_def)
  with Cons assms(2) show ?thesis by (simp add: skip_char_def peek_def good_def)
qed (use assms(2) in \<open>simp add: skip_char_def peek_def good_def\<close>)

lemma skip_comma_end:
  assumes "tail_ok tail" and "good ss" and "\<not> is_hex ss"
  defines "ss' \<equiv> skip_char CHR '','' (ss\<lparr>is_text := tail, is_eof := (tail = [])\<rparr>)"
  shows "\<not> is_hex ss'" "is_text ss' = tail" "tail = [] \<or> good ss'"
  using assms(2,3) by (simp_all add: ss'_def skip_comma_tail[OF assms(1,2)] good_def)

lemma read_u64_number:
  fixes w :: "'a::len word"
  assumes "good ss" and "\<not> is_hex ss" and "is_text ss = to_string_word w @ rest" and "no_digit 10 rest"
    and "LENGTH('a) \<le> 64"
  shows "\<exists>u. read_u64 ss = (Some u, ss\<lparr>is_text := rest, is_eof := (rest = [])\<rparr>) \<and> fit_uint tn u = Inr w"
  using parse_uint_number[OF assms, of tn]
  by (auto simp: parse_uint_def res_simps split: prod.splits option.splits if_splits)

lemma comma_no_digit: "no_digit 10 (CHR '','' # cs)"
  by (simp add: no_digit_def digit_value_def)

lemma reads_vector:
  assumes tail: "tail_ok tail" and len: "LENGTH('a::len) \<le> 64"
  shows "reads tail (parse_vector tn) (words_to_string '''' xs) (xs :: 'a word list)"
proof (rule readsI)
  fix ss assume "good ss" "\<not> is_hex ss" "is_text ss = words_to_string '''' xs @ tail"
  then show "\<exists>ss'. parse_vector tn ss = Inr (xs, ss') \<and> after tail ss'"
  proof (induction xs arbitrary: ss)
    case Nil
    then show ?case by (intro parse_vector_end[OF tail]) simp_all
  next
    case (Cons x xs)
    let ?rest = "words_to_string '','' xs @ tail"
    have no: "no_digit 10 ?rest" using comma_no_digit tail_no_digit[OF _ tail] by (cases xs) simp_all
    from Cons.prems have front: "is_text ss = to_string_word x @ ?rest" by simp
    from read_u64_number[OF Cons.prems(1,2) front no len, of tn] obtain u where
      u: "read_u64 ss = (Some u, ss\<lparr>is_text := ?rest, is_eof := (?rest = [])\<rparr>)" "fit_uint tn u = Inr x" by blast
    have "\<exists>ss'. parse_vector tn (skip_char CHR '','' (ss\<lparr>is_text := ?rest, is_eof := (?rest = [])\<rparr>)) = Inr (xs, ss')
        \<and> after tail ss'"
    proof (cases xs)
      case Nil
      then show ?thesis
        using parse_vector_end[OF tail skip_comma_end[OF tail Cons.prems(1,2)], of tn] by simp
    next
      case (Cons y ys)
      have "skip_char CHR '','' (ss\<lparr>is_text := ?rest, is_eof := (?rest = [])\<rparr>) = ss\<lparr>is_text := words_to_string '''' xs @ tail\<rparr>"
        using Cons \<open>good ss\<close> by (simp add: skip_char_def peek_def ignore_char_def good_def)
      with Cons.IH[of "ss\<lparr>is_text := words_to_string '''' xs @ tail\<rparr>"] \<open>good ss\<close> \<open>\<not> is_hex ss\<close> show ?thesis
        by (simp add: good_def)
    qed
    with u show ?case by (auto simp: parse_vector.simps[of tn ss])
  qed
qed

lemma reads_array:
  assumes tail: "tail_ok tail" and len: "LENGTH('a::len) \<le> 64"
  shows "reads tail (parse_array tn 2) (words_to_string '''' [x, y]) [x, y :: 'a word]"
proof (rule readsI)
  fix ss assume ss: "good ss" "\<not> is_hex ss" "is_text ss = words_to_string '''' [x, y] @ tail"
  let ?ss1 = "ss\<lparr>is_text := CHR '','' # to_string_word y @ tail\<rparr>" and ?ss2 = "ss\<lparr>is_text := to_string_word y @ tail\<rparr>"
  have p1: "parse_uint tn ss = Inr (x, ?ss1)"
    using parse_uint_number[OF ss(1,2) _ comma_no_digit len, of x] ss by (simp add: good_def)
  have s1: "skip_char CHR '','' ?ss1 = ?ss2" using ss(1) by (simp add: skip_char_def peek_def ignore_char_def good_def)
  have p2: "parse_uint tn ?ss2 = Inr (y, ss\<lparr>is_text := tail, is_eof := (tail = [])\<rparr>)"
    using parse_uint_number[OF _ _ _ tail_no_digit[OF _ tail] len, of ?ss2 y tn] ss by (simp add: good_def)
  have "after tail (skip_char CHR '','' (ss\<lparr>is_text := tail, is_eof := (tail = [])\<rparr>))"
    using skip_comma_end[OF tail ss(1,2)] by (auto simp: after_def)
  moreover have "\<not> is_fail ss" "\<not> is_fail ?ss2" using ss(1) by (simp_all add: good_def)
  ultimately show "\<exists>ss'. parse_array tn 2 ss = Inr ([x, y], ss') \<and> after tail ss'"
    by (simp add: parse_array_def comp_simps numeral_2_eq_2 p1 s1 p2)
qed

section \<open>Strings and addresses\<close>

definition no_space :: "string \<Rightarrow> bool" where
  "no_space s \<longleftrightarrow> list_all (\<lambda>c. \<not> is_space c) s"

text \<open>An empty string can only be read at the end of the text.\<close>

lemma takeWhile_no_space:
  assumes "no_space s" and "rest = [] \<or> is_space (hd rest)"
  shows "takeWhile (\<lambda>c. \<not> is_space c) (s @ rest) = s" "dropWhile (\<lambda>c. \<not> is_space c) (s @ rest) = rest"
  using assms by (induction s) (auto simp: no_space_def takeWhile_eq_Nil_iff dropWhile_eq_self_iff)

lemma read_string_word:
  assumes "good ss" and "is_text ss = s @ rest" and "no_space s" and "s \<noteq> []" and "rest = [] \<or> is_space (hd rest)"
  shows "read_string str ss = (s, ss\<lparr>is_text := rest, is_eof := (rest = [])\<rparr>)"
proof -
  obtain c cs where s: "s = c # cs" using assms(4) by (cases s) auto
  with assms(3) have "\<not> is_space c" by (simp add: no_space_def)
  with sentry_good[OF assms(1), of c "cs @ rest"] assms(2) s have "sentry ss = (True, ss)" by simp
  with takeWhile_no_space[OF assms(3,5)] assms(2) show ?thesis
    by (simp add: read_string_def Let_def del: dropWhile_eq_Nil_conv)
qed

lemma reads_string:
  assumes "tail_ok tail" and "no_space s" and "s \<noteq> [] \<or> tail = []"
  shows "reads tail read_word s s"
proof (rule readsI)
  fix ss assume ss: "good ss" "\<not> is_hex ss" "is_text ss = s @ tail"
  show "\<exists>ss'. read_word ss = Inr (s, ss') \<and> after tail ss'"
  proof (cases "s = []")
    case True
    with assms(3) ss show ?thesis by (auto simp: read_word_def read_string_def sentry_def after_def)
  next
    case False
    with read_string_word[OF ss(1,3) assms(2)] assms(1) after_text[OF ss(1,2) assms(1)] show ?thesis
      by (auto simp: read_word_def tail_ok_def)
  qed
qed

definition plain :: "string \<Rightarrow> bool" where
  "plain s \<longleftrightarrow> list_all (\<lambda>c. \<not> is_space c \<and> \<not> is_field_separator c) s"

lemma skip_whitespace_good:
  assumes "good ss" and "is_text ss = c # cs" and "\<not> is_space c"
  shows "skip_whitespace ss = ss"
  using assms by (simp add: skip_whitespace.simps[of ss] peek_def char_is_def good_def)

lemma skip_whitespace_after:
  assumes "good ss" and "dropWhile is_space (is_text ss) = c # cs"
  shows "skip_whitespace ss = ss\<lparr>is_text := c # cs\<rparr>"
  using assms
proof (induction ss rule: skip_whitespace.induct)
  case (1 ss)
  from 1(3) obtain d ds where d: "is_text ss = d # ds" by (cases "is_text ss") auto
  show ?case
  proof (cases "is_space d")
    case True
    let ?ss1 = "ss\<lparr>is_text := ds\<rparr>"
    have "peek ss = (Some d, ss)" "ignore_char ss = ?ss1" using 1(2) d by (simp_all add: peek_def ignore_char_def)
    moreover have "skip_whitespace ?ss1 = ?ss1\<lparr>is_text := c # cs\<rparr>"
      using 1(1)[of "Some d" ss] 1(2,3) d True calculation by (simp add: good_def char_is_def)
    ultimately show ?thesis
      using True 1(2) by (simp add: skip_whitespace.simps[of ss] char_is_def good_def)
  next
    case False
    with skip_whitespace_good[OF 1(2) d] 1(3) d show ?thesis by simp
  qed
qed

lemma ip_chars_plain:
  assumes "good ss" and "is_text ss = s @ rest" and "plain s" and "rest = [] \<or> is_space (hd rest) \<or> is_field_separator (hd rest)"
  shows "ip_chars ss = (s, if rest = [] then ss\<lparr>is_text := [], is_eof := True, is_fail := True\<rparr> else ss\<lparr>is_text := rest\<rparr>)"
  using assms
proof (induction s arbitrary: ss)
  case Nil
  show ?case
  proof (cases rest)
    case Nil
    with \<open>is_text ss = [] @ rest\<close> \<open>good ss\<close> show ?thesis
      by (simp add: ip_chars.simps[of ss] peek_def get_char_def char_is_def good_def)
        (simp add: ip_chars.simps)
  next
    case (Cons c cs)
    with Nil.prems show ?thesis by (auto simp: ip_chars.simps[of ss] peek_def char_is_def good_def)
  qed
next
  case (Cons c s)
  let ?ss1 = "ss\<lparr>is_text := s @ rest\<rparr>"
  have "ip_chars ?ss1 = (s, if rest = [] then ?ss1\<lparr>is_text := [], is_eof := True, is_fail := True\<rparr> else ?ss1\<lparr>is_text := rest\<rparr>)"
    using Cons.prems by (intro Cons.IH) (simp_all add: good_def plain_def)
  with Cons.prems show ?case
    by (simp add: ip_chars.simps[of ss] peek_def get_char_def char_is_def good_def plain_def)
qed

lemma parse_ip_addr_plain:
  assumes "good ss" and "is_text ss = s @ rest" and "plain s" and "s \<noteq> []" and "f s = Some a"
    and "rest = [] \<or> is_space (hd rest) \<or> is_field_separator (hd rest)"
  shows "parse_ip_addr f ss =
    Inr (a, if rest = [] then ss\<lparr>is_text := [], is_eof := True, is_fail := True\<rparr> else ss\<lparr>is_text := rest\<rparr>)"
proof -
  obtain c cs where s: "s = c # cs" using assms(4) by (cases s) auto
  with assms(3) have "\<not> is_space c" by (simp add: plain_def)
  with skip_whitespace_good[OF assms(1), of c "cs @ rest"] assms(2) s have "skip_whitespace ss = ss" by simp
  with ip_chars_plain[OF assms(1-3,6)] assms(5) show ?thesis by (simp add: parse_ip_addr_def)
qed

lemma reads_ip:
  assumes "tail_ok tail" and "plain s" and "s \<noteq> []" and "f s = Some a"
  shows "reads tail (parse_ip_addr f) s a"
proof (rule readsI)
  fix ss assume ss: "good ss" "\<not> is_hex ss" "is_text ss = s @ tail"
  from parse_ip_addr_plain[OF ss(1,3) assms(2,3), where f = f and a = a] assms(1,4) ss(1,2) show
    "\<exists>ss'. parse_ip_addr f ss = Inr (a, ss') \<and> after tail ss'"
    by (auto simp: tail_ok_def after_def good_def)
qed

lemma reads_field_ip:
  assumes "plain s" and "s \<noteq> []" and "f s = Some a"
  shows "reads_field (parse_ip_addr f) s a"
  unfolding reads_field_def
  using parse_ip_addr_plain[of _ s "CHR '';'' # _" f a] assms by (auto simp: is_field_separator_def)

section \<open>MAC addresses\<close>

lemma digit_value_hex_char: "d < 16 \<Longrightarrow> digit_value (hex_char d) = int d"
  by (auto simp: digit_value_def hex_char_def Let_def of_char_int)

lemma extract_hex:
  assumes "no_digit 16 rest"
  shows "extract_u64 True (hex_byte b @ rest) = (Some (ucast b), rest)"
proof -
  let ?h = "unat b div 16" and ?l = "unat b mod 16"
  have h: "?h < 16" "?l < 16" using unat_u8_less[of b] by (simp_all add: less_mult_imp_div_less)
  have "hex_char ?l \<noteq> CHR ''x''" "hex_char ?l \<noteq> CHR ''X''"
    using digit_value_hex_char[OF h(2)] h(2) by (auto simp: digit_value_def)
  then have prefix: "skip_prefix True (hex_byte b @ rest) = hex_byte b @ rest"
    by (simp add: skip_prefix_def hex_byte_def split: char.splits bool.splits)
  have sign: "skip_sign (hex_byte b @ rest) = (False, hex_byte b @ rest)"
    using skip_sign_digit[of "hex_char ?h" "hex_char ?l # rest"] digit_value_hex_char[OF h(1)] h(1) by (simp add: hex_byte_def)
  have "digits_value 16 (hex_byte b) = uint b"
    using digit_value_hex_char[OF h(1)] digit_value_hex_char[OF h(2)] by (simp add: digits_value_def hex_byte_def zdiv_int zmod_int)
  moreover have "\<And>c. c \<in> set (hex_byte b) \<Longrightarrow> digit_value c < 16"
    using digit_value_hex_char h by (auto simp: hex_byte_def)
  moreover have "uint b < 2 ^ 64" by (rule less_trans[OF unsigned_less]) simp
  moreover have "hex_byte b \<noteq> []" by (simp add: hex_byte_def)
  ultimately show ?thesis
    using takeWhile_digits[of "hex_byte b" 16 rest] assms by (simp add: extract_u64_def sign prefix Let_def)
qed

lemma parse_uint_hex:
  assumes "good ss" and "is_hex ss" and "is_text ss = hex_byte b @ rest" and "no_digit 16 rest"
  shows "parse_uint tn ss = Inr (b, ss\<lparr>is_text := rest, is_eof := (rest = [])\<rparr>)"
proof -
  let ?c = "hex_char (unat b div 16)"
  have "unat b div 16 < 16" using unat_u8_less[of b] by (simp add: less_mult_imp_div_less)
  then have "\<not> is_space ?c" using digit_not_space[of ?c] by (simp add: digit_value_hex_char)
  with sentry_good[OF assms(1), of ?c] assms(3) have "sentry ss = (True, ss)" by (simp add: hex_byte_def)
  moreover have "ucast (ucast b :: u64) = b" by (rule ucast_up_ucast_id) (simp add: is_up)
  moreover have "ss\<lparr>is_text := rest, is_eof := (rest = []), is_fail := False\<rparr> = ss\<lparr>is_text := rest, is_eof := (rest = [])\<rparr>"
    using assms(1) by (simp add: good_def)
  ultimately show ?thesis
    using extract_hex[OF assms(4), of b] assms(2,3) by (simp add: parse_uint_def read_u64_def fit_uint_def Let_def)
qed

lemma mac_loop_bytes:
  assumes tail: "tail_ok tail" and "bs \<noteq> []" and "good ss" and "is_hex ss" and "is_text ss = mac_string_loop '''' bs @ tail"
  shows "\<exists>ss'. mac_loop tn ss = Inr (bs, ss') \<and> after tail (ss'\<lparr>is_hex := False\<rparr>)"
  using assms(2-)
proof (induction bs arbitrary: ss)
  case (Cons b bs)
  let ?rest = "mac_string_loop '':'' bs @ tail"
  let ?ss1 = "ss\<lparr>is_text := ?rest, is_eof := (?rest = [])\<rparr>"
  have no: "no_digit 16 ?rest"
    using tail_no_digit[OF _ tail] by (cases bs) (simp_all add: no_digit_def digit_value_def)
  from Cons.prems have p: "parse_uint tn ss = Inr (b, ?ss1)" by (intro parse_uint_hex no) simp_all
  show ?case
  proof (cases bs)
    case Nil
    have "peek ?ss1 = (case tail of [] \<Rightarrow> (None, ?ss1\<lparr>is_fail := True\<rparr>) | c # _ \<Rightarrow> (Some c, ?ss1))"
      using Cons.prems(2) Nil by (simp add: peek_def good_def split: list.splits)
    moreover have "hd tail \<noteq> CHR '':'' \<or> tail = []" using tail by (auto simp: tail_ok_def is_space_def)
    ultimately show ?thesis
      using Nil p Cons.prems(2) tail
      by (auto simp: mac_loop.simps[of tn ss] after_def good_def split: list.splits)
  next
    case bs: (Cons b' bs')
    let ?ss2 = "ss\<lparr>is_text := mac_string_loop '''' bs @ tail\<rparr>"
    have "peek ?ss1 = (Some (CHR '':''), ?ss1)" "ignore_char ?ss1 = ?ss2"
      using Cons.prems(2) bs by (simp_all add: peek_def ignore_char_def good_def)
    moreover from Cons.IH[of ?ss2] Cons.prems bs obtain ss' where
      "mac_loop tn ?ss2 = Inr (bs, ss')" "after tail (ss'\<lparr>is_hex := False\<rparr>)" by (auto simp: good_def)
    ultimately show ?thesis using p by (simp add: mac_loop.simps[of tn ss])
  qed
qed simp

lemma reads_mac:
  assumes "tail_ok tail" and "mac_addr mac \<noteq> []"
  shows "reads tail (parse_mac tn) (mac_to_string mac) mac"
proof (rule readsI)
  fix ss assume "good ss" "\<not> is_hex ss" "is_text ss = mac_to_string mac @ tail"
  then obtain ss' where "mac_loop tn (ss\<lparr>is_hex := True\<rparr>) = Inr (mac_addr mac, ss')" "after tail (ss'\<lparr>is_hex := False\<rparr>)"
    using mac_loop_bytes[OF assms, of "ss\<lparr>is_hex := True\<rparr>" tn] by (auto simp: mac_to_string_def good_def)
  then show "\<exists>ss'. parse_mac tn ss = Inr (mac, ss') \<and> after tail ss'" by (simp add: parse_mac_def comp_simps)
qed

section \<open>Values\<close>

text \<open>What the text form relies on of Boost: it reads back the address it printed.\<close>

definition ip_text_ok :: "ip_text \<Rightarrow> ip_parse \<Rightarrow> bool" where
  "ip_text_ok ip ipp \<longleftrightarrow>
     (\<forall>a. length (v4_bytes a) = 4 \<longrightarrow> v4_to_string ip a \<noteq> [] \<and> plain (v4_to_string ip a)
        \<and> v4_from_string ipp (v4_to_string ip a) = Some a)
     \<and> (\<forall>a. length (v6_bytes a) = 16 \<and> v6_scope_id a = 0 \<longrightarrow> v6_to_string ip a \<noteq> [] \<and> plain (v6_to_string ip a)
        \<and> v6_from_string ipp (v6_to_string ip a) = Some a)"

text \<open>
  The values whose text form can be read back: strings must not contain white space and, but
  for the last one, must not be empty; a MAC address must have a byte.
\<close>

fun value_printable :: "bool \<Rightarrow> DataItemValue \<Rightarrow> bool" and item_printable :: "bool \<Rightarrow> DataItem \<Rightarrow> bool" where
  "value_printable at_end (Div_string s) = (no_space s \<and> (s \<noteq> [] \<or> at_end))"
| "value_printable at_end (Div_u8_string x s) = (no_space s \<and> (s \<noteq> [] \<or> at_end))"
| "value_printable at_end (Div_dlepmac mac) = (mac_addr mac \<noteq> [])"
| "value_printable at_end (Div_sub_data_items sdis) = list_all (item_printable False) sdis"
| "value_printable at_end (Div_u16_sub_data_items x sdis) = list_all (item_printable False) sdis"
| "value_printable at_end _ = True"
| "item_printable at_end (DataItem i v) = value_printable at_end v"

lemma reads_value_from:
  assumes "\<And>tn. reads tail (value_from_visit ipp tn d) t v"
  shows "reads tail (value_from_istringstream ipp d) t v"
proof (rule readsI)
  fix ss assume ss: "good ss" "\<not> is_hex ss" "is_text ss = t @ tail"
  obtain tn where "value_type_to_string (value_type d) = Inr tn" using value_type_strings by blast
  moreover from assms[of tn] ss obtain ss' where
    "value_from_visit ipp tn d (ss\<lparr>is_hex := False\<rparr>) = Inr (v, ss')" "after tail ss'"
    unfolding reads_def by (elim allE[of _ "ss\<lparr>is_hex := False\<rparr>"]) (auto simp: good_def)
  ultimately show "\<exists>ss'. value_from_istringstream ipp d ss = Inr (v, ss') \<and> after tail ss'"
    by (simp add: value_from_istringstream_def comp_simps)
qed

lemma reads_blank: "tail_ok tail \<Longrightarrow> reads tail (ret x) '''' x"
  by (auto simp: reads_def comp_simps after_def)

lemmas reads_rules = reads_map reads_map2 reads_map3 reads_uint reads_vector reads_string reads_mac reads_ip reads_blank
  reads_separated reads_field_uint reads_field_ip

lemma reads_value:
  assumes "tail_ok tail" and "ip_text_ok ip ipp" and "\<not> has_sub_data_items (value_type v)"
    and "value_ok cfg info v" and "value_printable (tail = []) v" and "value_to_string_visit ip cfg p v = Inr t"
  shows "reads tail (value_from_istringstream ipp (set_default_value (value_type v))) t v"
proof (rule reads_value_from)
  fix tn
  have a2: "reads tail (bnd (parse_array tn 2) (\<lambda>xs. ret (Div_a2_u16 (xs ! 0) (xs ! Suc 0)))) (words_to_string '''' [x, y]) (Div_a2_u16 x y)"
    for x y using reads_map[OF reads_array[OF assms(1), where 'a = 16], of tn "\<lambda>xs. Div_a2_u16 (xs ! 0) (xs ! Suc 0)" x y] by simp
  show "reads tail (value_from_visit ipp tn (set_default_value (value_type v))) t v"
    using assms by (cases v) (auto simp: ip_text_ok_def simp del: words_to_string.simps intro!: reads_rules a2)
qed

section \<open>Names\<close>

definition name_ok :: "string \<Rightarrow> bool" where
  "name_ok n \<longleftrightarrow> n \<noteq> [] \<and> no_space n \<and> stops (hd n) \<and> hd n \<noteq> CHR ''}''"

text \<open>A name among the sub data items stands for one id, the one it has at the top level if it has one.\<close>

definition refs_invert :: "ProtocolConfig \<Rightarrow> SubDataItem list \<Rightarrow> bool" where
  "refs_invert cfg refs \<longleftrightarrow> distinct (map sdi_name refs) \<and>
     list_all (\<lambda>sdi. sdi_id sdi \<noteq> IdUndefined \<and>
       bimap_right (data_item_map cfg) (sdi_name sdi) \<in> {None, Some (sdi_id sdi)}) refs"

definition text_config_ok :: "ProtocolConfig \<Rightarrow> bool" where
  "text_config_ok cfg \<longleftrightarrow>
     list_all (\<lambda>(n, info). name_ok n \<and> refs_invert cfg (dii_sub_data_items info)) (data_item_info_map cfg)"

definition parent_invert :: "ProtocolConfig \<Rightarrow> DataItemInfo option \<Rightarrow> bool" where
  "parent_invert cfg p \<longleftrightarrow> (case p of None \<Rightarrow> True | Some info \<Rightarrow> refs_invert cfg (dii_sub_data_items info))"

lemma sub_id_of_name_distinct:
  "distinct (map sdi_name sdis) \<Longrightarrow> sdi \<in> set sdis \<Longrightarrow> sdi_id sdi \<noteq> IdUndefined \<Longrightarrow>
   sub_id_of_name sdis (sdi_name sdi) = Some (sdi_id sdi)"
  by (induction sdis) (auto simp: image_iff)

lemma sub_id_of_name_set:
  "sub_id_of_name sdis n = Some i \<Longrightarrow> \<exists>sdi\<in>set sdis. sdi_id sdi = i \<and> sdi_name sdi = n"
  by (induction sdis n rule: sub_id_of_name.induct) (auto split: if_splits)

lemma sub_name_of_id_None: "sub_name_of_id sdis i = None \<Longrightarrow> sdi \<in> set sdis \<Longrightarrow> sdi_id sdi \<noteq> i"
  by (induction sdis i rule: sub_name_of_id.induct) (auto split: if_splits)

lemma id_of_name:
  assumes "config_ok cfg" and "parent_invert cfg p" and "get_data_item_name cfg i p = Inr n"
  shows "get_data_item_id cfg n p = Inr i"
proof (cases p)
  case None
  with assms(1,3) show ?thesis by (simp add: data_item_table.name_id)
next
  case (Some info)
  let ?subs = "dii_sub_data_items info"
  from assms(2) Some have inv: "refs_invert cfg ?subs" by (simp add: parent_invert_def)
  show ?thesis
  proof (cases "sub_name_of_id ?subs i")
    case name: (Some n')
    with assms(3) Some have "n' = n" by (simp add: get_data_item_name_def)
    with name sub_name_of_id_set obtain sdi where "sdi \<in> set ?subs" "sdi_id sdi = i" "sdi_name sdi = n" by blast
    with inv sub_id_of_name_distinct[of ?subs sdi] Some show ?thesis
      by (auto simp: get_data_item_id_def refs_invert_def list_all_iff)
  next
    case none: None
    with assms(1,3) Some have right: "bimap_right (data_item_map cfg) n = Some i"
      by (auto simp: get_data_item_name_def option_res_eq_Inr bimap_left_right config_ok_def)
    have "sub_id_of_name ?subs n = None"
    proof (rule ccontr)
      assume "sub_id_of_name ?subs n \<noteq> None"
      then obtain sdi where "sdi \<in> set ?subs" "sdi_name sdi = n" using sub_id_of_name_set by blast
      with inv right have "sdi_id sdi = i" by (auto simp: refs_invert_def list_all_iff)
      with sub_name_of_id_None[OF none \<open>sdi \<in> set ?subs\<close>] show False by simp
    qed
    with right Some show ?thesis by (simp add: get_data_item_id_def)
  qed
qed

section \<open>Data items\<close>

text \<open>The loop over sub data items, up to the closing brace.\<close>

definition loop_reads :: "ip_text \<Rightarrow> ip_parse \<Rightarrow> ProtocolConfig \<Rightarrow> DataItemInfo option \<Rightarrow> DataItem list \<Rightarrow> bool" where
  "loop_reads ip ipp cfg p sdis \<longleftrightarrow>
     (\<forall>info t rest ss. p = Some info \<longrightarrow> parent_invert cfg p \<longrightarrow> items_ok cfg p sdis
        \<longrightarrow> list_all (item_printable False) sdis \<longrightarrow> sub_data_items_to_string ip cfg p sdis = Inr t
        \<longrightarrow> good ss \<longrightarrow> \<not> is_hex ss \<longrightarrow> is_text ss = t @ CHR ''}'' # rest
        \<longrightarrow> (\<exists>ss'. sub_data_items_loop ipp cfg info ss = Inr (sdis, ss') \<and> good ss' \<and> \<not> is_hex ss' \<and> is_text ss' = rest))"

definition item_reads :: "ip_text \<Rightarrow> ip_parse \<Rightarrow> ProtocolConfig \<Rightarrow> DataItemInfo option \<Rightarrow> DataItem \<Rightarrow> bool" where
  "item_reads ip ipp cfg p di \<longleftrightarrow>
     (\<forall>t tail. parent_invert cfg p \<longrightarrow> item_ok cfg p di \<longrightarrow> tail_ok tail \<longrightarrow> item_printable (tail = []) di
        \<longrightarrow> data_item_to_string ip cfg p di = Inr t \<longrightarrow> reads tail (from_istringstream ipp cfg p) t di)"

definition subs_of :: "DataItemValue \<Rightarrow> DataItem list" where
  "subs_of v = (case v of Div_sub_data_items sdis \<Rightarrow> sdis | Div_u16_sub_data_items x sdis \<Rightarrow> sdis | _ \<Rightarrow> [])"

lemma braces_read:
  assumes "loop_reads ip ipp cfg (Some info) sdis" and "parent_invert cfg (Some info)" and "items_ok cfg (Some info) sdis"
    and "list_all (item_printable False) sdis" and "sub_data_items_to_string ip cfg (Some info) sdis = Inr t"
    and "t = [] \<or> \<not> is_space (hd t)"
    and "good ss" and "\<not> is_hex ss" and "is_text ss = ''{ '' @ t @ ''} '' @ tail"
  shows "\<exists>ss'. rbind (open_sub_data_items ss) (sub_data_items_loop ipp cfg info) = Inr (sdis, ss') \<and> after tail ss'"
proof -
  let ?ss1 = "ss\<lparr>is_text := '' '' @ t @ ''} '' @ tail\<rparr>" and ?ss2 = "ss\<lparr>is_text := t @ ''} '' @ tail\<rparr>"
  have "read_string '''' ss = (''{'', ?ss1)"
    using read_string_word[OF assms(7), of "''{''" "'' '' @ t @ ''} '' @ tail"] assms(7,9)
    by (simp add: no_space_def is_space_def good_def)
  moreover have "skip_whitespace ?ss1 = ?ss2"
  proof -
    have "dropWhile is_space (is_text ?ss1) = t @ ''} '' @ tail"
      using assms(6) by (cases t) (auto simp: is_space_def)
    then show ?thesis using skip_whitespace_after[of ?ss1] assms(7) by (cases t) (auto simp: good_def)
  qed
  ultimately have "open_sub_data_items ss = Inr ?ss2" by (simp add: open_sub_data_items_def)
  moreover obtain ss' where "sub_data_items_loop ipp cfg info ?ss2 = Inr (sdis, ss')" "good ss'" "\<not> is_hex ss'"
    "is_text ss' = '' '' @ tail"
    using assms(1-5,7,8) unfolding loop_reads_def
    by (elim allE[of _ info] allE[of _ t] allE[of _ "'' '' @ tail"] allE[of _ ?ss2]) (auto simp: good_def)
  ultimately show ?thesis by (auto simp: after_def is_space_def)
qed

section \<open>The space after the name\<close>

definition skips :: "'a reader \<Rightarrow> bool" where
  "skips m \<longleftrightarrow> (\<forall>ss c t. is_space c \<longrightarrow> good ss \<longrightarrow> is_text ss = c # t \<longrightarrow> m ss = m (ss\<lparr>is_text := t\<rparr>))"

lemma sentry_skips:
  "is_space c \<Longrightarrow> good ss \<Longrightarrow> is_text ss = c # t \<Longrightarrow> sentry ss = sentry (ss\<lparr>is_text := t\<rparr>)"
  by (simp add: sentry_def good_def del: dropWhile_eq_Nil_conv split: list.splits)

lemma skipsD: "skips m \<Longrightarrow> is_space c \<Longrightarrow> good ss \<Longrightarrow> is_text ss = c # t \<Longrightarrow> m ss = m (ss\<lparr>is_text := t\<rparr>)"
  by (simp add: skips_def)

lemma skips_uint: "skips (parse_uint tn)"
  by (simp add: skips_def parse_uint_def read_u64_def sentry_skips)

lemma skips_word: "skips read_word"
  by (simp add: skips_def read_word_def read_string_def sentry_skips)

lemma skips_vector: "skips (parse_vector tn)"
  by (simp add: skips_def parse_vector.simps read_u64_def sentry_skips)

lemma skips_bnd: "skips m \<Longrightarrow> skips (bnd m f)"
  by (simp add: skips_def bnd_def)

lemma skips_separated: "skips m \<Longrightarrow> skips (separated m n)"
  unfolding separated_def by (rule skips_bnd)

lemma skips_array: "skips (parse_array tn 2 :: 'a::len word list reader)"
proof -
  have "skips (array_loop tn 2 :: 'a word list reader)"
    unfolding skips_def
  proof (intro allI impI)
    fix ss c t assume "is_space c" "good ss" "is_text ss = c # t"
    moreover from this have "parse_uint tn ss = (parse_uint tn (ss\<lparr>is_text := t\<rparr>) :: ('a word \<times> istream) res)"
      by (rule skipsD[OF skips_uint])
    ultimately show "array_loop tn 2 ss = (array_loop tn 2 (ss\<lparr>is_text := t\<rparr>) :: ('a word list \<times> istream) res)"
      by (simp add: numeral_2_eq_2 good_def)
  qed
  then show ?thesis unfolding parse_array_def by (rule skips_bnd)
qed

lemma hex_text: "ss\<lparr>is_hex := b, is_text := t\<rparr> = ss\<lparr>is_text := t, is_hex := b\<rparr>"
  by (cases ss) simp

lemma skips_mac: "skips (parse_mac tn)"
proof -
  have "parse_uint tn ss = (parse_uint tn (ss\<lparr>is_text := t\<rparr>) :: (u8 \<times> istream) res)"
    if "is_space c" "good ss" "is_text ss = c # t" for ss c t
    using that by (rule skipsD[OF skips_uint])
  then have "mac_loop tn ss = mac_loop tn (ss\<lparr>is_text := t\<rparr>)" if "is_space c" "good ss" "is_text ss = c # t" for ss c t
    using that by (simp add: mac_loop.simps[of tn ss] mac_loop.simps[of tn "ss\<lparr>is_text := t\<rparr>"])
  from this[of _ "_\<lparr>is_hex := True\<rparr>"] show ?thesis by (simp add: skips_def parse_mac_def comp_simps good_def hex_text)
qed

lemma skips_value:
  assumes "v \<noteq> Div_blank" and "\<not> has_sub_data_items (value_type v)"
  shows "skips (value_from_istringstream ipp v)"
proof -
  have "skips (value_from_visit ipp tn v)" for tn
    using assms by (cases v) (auto intro!: skips_bnd skips_separated skips_uint skips_word skips_vector skips_array skips_mac)
  moreover obtain tn where "value_type_to_string (value_type v) = Inr tn" using value_type_strings by blast
  ultimately show ?thesis
    unfolding skips_def by (simp add: value_from_istringstream_def comp_simps good_def hex_text)
qed

lemma reads_after_space:
  assumes "tail_ok tail" and "ip_text_ok ip ipp" and "\<not> has_sub_data_items (value_type v)"
    and "value_ok cfg info v" and "value_printable (tail = []) v" and "value_to_string_visit ip cfg p v = Inr t"
    and ss: "good ss" "\<not> is_hex ss" "is_text ss = CHR '' '' # t @ tail"
  shows "\<exists>ss'. value_from_istringstream ipp (set_default_value (value_type v)) ss = Inr (v, ss') \<and> after tail ss'"
proof (cases "v = Div_blank")
  case True
  with assms(6) ss show ?thesis
    by (auto simp: value_from_istringstream_def comp_simps value_type_to_string_def mapvals_def after_def good_def is_space_def)
next
  case False
  let ?d = "set_default_value (value_type v)" and ?ss1 = "ss\<lparr>is_text := t @ tail\<rparr>"
  have "?d \<noteq> Div_blank" using False by (cases v) simp_all
  with skips_value[of ?d ipp] assms(3) have "skips (value_from_istringstream ipp ?d)" by (simp add: default_value_type)
  with ss have "value_from_istringstream ipp ?d ss = value_from_istringstream ipp ?d ?ss1"
    unfolding skips_def by (auto simp: is_space_def)
  with reads_value[OF assms(1-6)] ss show ?thesis
    unfolding reads_def by (elim allE[of _ ?ss1]) (auto simp: good_def)
qed

section \<open>The round trip\<close>

lemma info_text_ok:
  assumes "text_config_ok cfg" and "(n, info) \<in> set (data_item_info_map cfg)"
  shows "name_ok n" "parent_invert cfg (Some info)"
  using assms by (auto simp: text_config_ok_def list_all_iff parent_invert_def)

lemma printed_front:
  assumes "config_ok cfg" and "text_config_ok cfg" and "items_ok cfg p sdis" and "sub_data_items_to_string ip cfg p sdis = Inr t"
  shows "t = [] \<or> stops (hd t) \<and> hd t \<noteq> CHR ''}''"
proof (cases sdis)
  case (Cons sdi sdis')
  obtain i v where sdi: "sdi = DataItem i v" by (cases sdi)
  with assms(3) Cons obtain info where info: "get_data_item_info cfg i p = Inr info" by (auto split: sum.splits)
  from get_data_item_info_cases[OF assms(1) info] obtain n where
    n: "get_data_item_name cfg i p = Inr n" "(n, info) \<in> set (data_item_info_map cfg)" by blast
  have "name_ok n" by (rule info_text_ok[OF assms(2) n(2)])
  moreover from assms(4) Cons sdi n(1) obtain u where "t = n @ u" by (auto simp: res_simps)
  ultimately show ?thesis by (auto simp: name_ok_def)
qed (use assms(4) in simp)

lemma loop_reads_Cons:
  assumes "config_ok cfg" and "text_config_ok cfg" and "item_reads ip ipp cfg p sdi" and "loop_reads ip ipp cfg p sdis"
  shows "loop_reads ip ipp cfg p (sdi # sdis)"
  unfolding loop_reads_def
proof (intro allI impI)
  fix info t rest ss
  assume p: "p = Some info" and inv: "parent_invert cfg p" and ok: "items_ok cfg p (sdi # sdis)"
    and pr: "list_all (item_printable False) (sdi # sdis)" and printed: "sub_data_items_to_string ip cfg p (sdi # sdis) = Inr t"
    and ss: "good ss" "\<not> is_hex ss" "is_text ss = t @ CHR ''}'' # rest"
  from printed obtain s u where s: "data_item_to_string ip cfg p sdi = Inr s" "sub_data_items_to_string ip cfg p sdis = Inr u"
    and t: "t = s @ '' '' @ u" by (auto simp: res_simps)
  let ?more = "u @ CHR ''}'' # rest" and ?tail = "CHR '' '' # u @ CHR ''}'' # rest"
  from printed_front[OF assms(1,2) _ s(2)] ok have front: "u = [] \<or> stops (hd u)" by auto
  then have drop: "dropWhile is_space ?tail = ?more" by (cases u) (auto simp: stops_def is_space_def)
  have tail: "tail_ok ?tail"
    using front drop by (cases u) (auto simp: tail_ok_def stops_def is_space_def digit_value_def)
  have one: "sub_data_items_to_string ip cfg p [sdi] = Inr (s @ '' '')" by (simp add: s(1))
  have "item_ok cfg p sdi" "items_ok cfg p [sdi]" using ok by simp_all
  with assms(3) inv tail pr s(1) have "reads ?tail (from_istringstream ipp cfg p) s sdi" by (auto simp: item_reads_def)
  with ss t p obtain ss2 where run: "from_istringstream ipp cfg (Some info) ss = Inr (sdi, ss2)" and "after ?tail ss2"
    by (auto simp: reads_def)
  then have ss2: "good ss2" "\<not> is_hex ss2" "dropWhile is_space (is_text ss2) = ?more"
    unfolding after_def drop by auto
  then have skip: "skip_whitespace ss2 = ss2\<lparr>is_text := ?more\<rparr>"
    using skip_whitespace_after[OF ss2(1)] by (cases u) auto
  from assms(4) p inv ok pr s(2) ss2(1,2) obtain ss' where
    loop: "sub_data_items_loop ipp cfg info (ss2\<lparr>is_text := ?more\<rparr>) = Inr (sdis, ss')" "good ss'" "\<not> is_hex ss'" "is_text ss' = rest"
    unfolding loop_reads_def by (elim allE[of _ info] allE[of _ u] allE[of _ rest] allE[of _ "ss2\<lparr>is_text := ?more\<rparr>"])
      (auto simp: good_def)
  obtain c cs where s_front: "s = c # cs" "c \<noteq> CHR ''}''"
    using printed_front[OF assms(1,2) \<open>items_ok cfg p [sdi]\<close> one] by (cases s) (auto simp: stops_def is_space_def)
  then have "peek ss = (Some c, ss)" using ss t by (simp add: peek_def)
  with s_front(2) run skip loop from_istringstream_shorter(1)[OF run] show
    "\<exists>ss'. sub_data_items_loop ipp cfg info ss = Inr (sdi # sdis, ss') \<and> good ss' \<and> \<not> is_hex ss' \<and> is_text ss' = rest"
    by (simp add: sub_data_items_loop.simps[of ipp cfg info ss])
qed

lemma loop_reads_Nil: "loop_reads ip ipp cfg p []"
  by (auto simp: loop_reads_def sub_data_items_loop.simps[of ipp cfg] peek_def ignore_char_def good_def)

lemma open_skips:
  "good ss \<Longrightarrow> is_text ss = CHR '' '' # t \<Longrightarrow> open_sub_data_items ss = open_sub_data_items (ss\<lparr>is_text := t\<rparr>)"
  by (simp add: open_sub_data_items_def read_string_def sentry_skips[of "CHR '' ''"] is_space_def)

lemma u16_read:
  assumes "good ss" and "\<not> is_hex ss" and "is_text ss = CHR '' '' # to_string_word x @ CHR '';'' # t"
  shows "sub_data_items_u16 ipp ss = Inr (x, ss\<lparr>is_text := t\<rparr>)"
proof -
  let ?ss1 = "ss\<lparr>is_text := to_string_word x @ CHR '';'' # t\<rparr>" and ?ss2 = "ss\<lparr>is_text := CHR '';'' # t\<rparr>"
  obtain tn where tn: "value_type_to_string T_u16 = Inr tn" using value_type_strings by blast
  have "parse_uint tn ss = (parse_uint tn ?ss1 :: (u16 \<times> istream) res)"
    by (rule skipsD[OF skips_uint, of "CHR '' ''"]) (use assms(1,3) in \<open>simp_all add: is_space_def\<close>)
  also have "\<dots> = Inr (x, ?ss2)"
    using parse_uint_number[OF _ _ _ separator_no_digit, of ?ss1 x t tn] assms(1,2) by (simp add: good_def)
  finally have "parse_uint tn ss = Inr (x, ?ss2)" .
  moreover have "ss\<lparr>is_hex := False\<rparr> = ss" using assms(2) by (cases ss) simp
  ultimately have "parse_uint tn (ss\<lparr>is_hex := False\<rparr>) = Inr (x, ?ss2)" by (simp only:)
  moreover have "check_field_separator ?ss2 = Inr ((), ss\<lparr>is_text := t\<rparr>)"
    using separator_read[of ?ss2 t] assms(1) by (simp add: good_def)
  ultimately show ?thesis
    by (simp add: sub_data_items_u16_def value_from_istringstream_def comp_simps tn)
qed

lemma item_reads_one:
  assumes "config_ok cfg" and "subs_listed cfg" and "text_config_ok cfg" and "ip_text_ok ip ipp"
    and loop: "\<And>n info. get_data_item_name cfg i p = Inr n \<Longrightarrow> get_data_item_info_by_name cfg n = Inr info \<Longrightarrow>
      dii_sub_data_items info \<noteq> [] \<Longrightarrow> loop_reads ip ipp cfg (Some info) (subs_of v)"
  shows "item_reads ip ipp cfg p (DataItem i v)"
  unfolding item_reads_def
proof (intro allI impI)
  fix t tail
  assume inv: "parent_invert cfg p" and ok: "item_ok cfg p (DataItem i v)" and tail: "tail_ok tail"
    and pr: "item_printable (tail = []) (DataItem i v)" and printed: "data_item_to_string ip cfg p (DataItem i v) = Inr t"
  from ok obtain info where info: "get_data_item_info cfg i p = Inr info" "dii_value_type info = value_type v" "value_ok cfg info v"
    by (auto split: sum.splits)
  from get_data_item_info_cases[OF assms(1) info(1)] obtain n where
    n: "get_data_item_name cfg i p = Inr n" "get_data_item_info_by_name cfg n = Inr info"
    "(n, info) \<in> set (data_item_info_map cfg)" by blast
  note name = info_text_ok[OF assms(3) n(3)]
  let ?p = "if dii_sub_data_items info \<noteq> [] then Some info else p"
  from printed n obtain s where s: "value_to_string_visit ip cfg ?p v = Inr s" and t: "t = n @ '' '' @ s"
    by (auto simp: res_simps)
  note id = id_of_name[OF assms(1) inv n(1)]
  show "reads tail (from_istringstream ipp cfg p) t (DataItem i v)"
  proof (rule readsI)
    fix ss assume ss: "good ss" "\<not> is_hex ss" "is_text ss = t @ tail"
    let ?ss1 = "ss\<lparr>is_text := CHR '' '' # s @ tail\<rparr>"
    have read: "read_string '''' ss = (n, ?ss1)" "\<not> is_fail ?ss1"
      using read_string_word[OF ss(1), of n "CHR '' '' # s @ tail"] ss t name(1)
      by (simp_all add: name_ok_def is_space_def good_def)
    note start = from_istringstream.simps[of ipp cfg p ss, unfolded read(1) prod.case if_not_P[OF read(2)] id n(2) rbind_Inr]
    show "\<exists>ss'. from_istringstream ipp cfg p ss = Inr (DataItem i v, ss') \<and> after tail ss'"
    proof (cases "has_sub_data_items (value_type v)")
      case False
      then have "dii_value_type info \<noteq> T_sub_data_items" "dii_value_type info \<noteq> T_u16_sub_data_items"
        using info(2) by auto
      with reads_after_space[OF tail assms(4) False info(3) _ s, of ?ss1] pr ss info(2) show ?thesis
        unfolding start by (auto simp: good_def)
    next
      case True
      with subs_listedD[OF assms(2) n(3)] info(2) have subs_ne: "dii_sub_data_items info \<noteq> []" by simp
      with loop[OF n(1,2)] have loop: "loop_reads ip ipp cfg (Some info) (subs_of v)" by simp
      have braces: "\<exists>ss'. rbind (open_sub_data_items ss0) (sub_data_items_loop ipp cfg info) = Inr (sdis, ss') \<and> after tail ss'"
        if "good ss0" "\<not> is_hex ss0" "is_text ss0 = ''{ '' @ u @ ''} '' @ tail" "subs_of v = sdis"
          "items_ok cfg (Some info) sdis" "list_all (item_printable False) sdis"
          "sub_data_items_to_string ip cfg (Some info) sdis = Inr u" for ss0 sdis u
        using braces_read[OF _ name(2) that(5-7) _ that(1-3)] loop that(4) printed_front[OF assms(1,3) that(5,7)]
        by (auto simp: stops_def)
      from True consider (subs) sdis where "v = Div_sub_data_items sdis" | (u16) x sdis where "v = Div_u16_sub_data_items x sdis"
        by (cases v) auto
      then show ?thesis
      proof cases
        case subs
        with s subs_ne obtain u where u: "sub_data_items_to_string ip cfg (Some info) sdis = Inr u" "s = ''{ '' @ u @ ''} ''"
          by (auto simp: res_simps)
        have "open_sub_data_items ?ss1 = open_sub_data_items (ss\<lparr>is_text := ''{ '' @ u @ ''} '' @ tail\<rparr>)"
          using open_skips[of ?ss1] ss(1) u(2) by (simp add: good_def)
        with braces[of "ss\<lparr>is_text := ''{ '' @ u @ ''} '' @ tail\<rparr>" u sdis] subs u ss info pr show ?thesis
          unfolding start by (auto simp: good_def subs_of_def res_simps)
      next
        case (u16 x sdis)
        with s subs_ne obtain u where u: "sub_data_items_to_string ip cfg (Some info) sdis = Inr u"
          "s = to_string_word x @ '';'' @ ''{ '' @ u @ ''} ''" by (auto simp: res_simps)
        have "sub_data_items_u16 ipp ?ss1 = Inr (x, ss\<lparr>is_text := ''{ '' @ u @ ''} '' @ tail\<rparr>)"
          using u16_read[of ?ss1 x] ss u(2) by (simp add: good_def)
        with braces[of "ss\<lparr>is_text := ''{ '' @ u @ ''} '' @ tail\<rparr>" u sdis] u16 u ss info pr show ?thesis
          unfolding start by (auto simp: good_def subs_of_def res_simps)
      qed
    qed
  qed
qed

lemma all_read:
  shows "config_ok cfg \<Longrightarrow> subs_listed cfg \<Longrightarrow> text_config_ok cfg \<Longrightarrow> ip_text_ok ip ipp \<Longrightarrow> loop_reads ip ipp cfg p (subs_of v)"
    and "config_ok cfg \<Longrightarrow> subs_listed cfg \<Longrightarrow> text_config_ok cfg \<Longrightarrow> ip_text_ok ip ipp \<Longrightarrow> item_reads ip ipp cfg p di"
    and "config_ok cfg \<Longrightarrow> subs_listed cfg \<Longrightarrow> text_config_ok cfg \<Longrightarrow> ip_text_ok ip ipp \<Longrightarrow> loop_reads ip ipp cfg p sdis"
proof (induction ip cfg p v and ip cfg p di and ip cfg p sdis
    rule: value_to_string_visit_data_item_to_string_sub_data_items_to_string.induct)
  case (24 ip cfg p i v)
  have "loop_reads ip ipp cfg (Some info) (subs_of v)"
    if "get_data_item_name cfg i p = Inr n" "get_data_item_info_by_name cfg n = Inr info" "dii_sub_data_items info \<noteq> []" for n info
    using "24.IH"[OF that(1,2) "24.prems"] that(3) by simp
  then show ?case by (rule item_reads_one[OF "24.prems"])
next
  case (26 ip cfg p sdi sdis)
  show ?case
  proof (cases "data_item_to_string ip cfg p sdi")
    case (Inl e)
    then show ?thesis by (auto simp: loop_reads_def)
  next
    case (Inr s)
    with 26 have "item_reads ip ipp cfg p sdi" "loop_reads ip ipp cfg p sdis" by blast+
    then show ?thesis by (rule loop_reads_Cons[OF "26.prems"(1,3)])
  qed
qed (simp_all add: subs_of_def loop_reads_Nil)

text \<open>
  C34: \<open>from_string\<close> is the inverse of \<open>to_string\<close>: the text of a well-typed data item, sub data
  items included to any depth, is read back into the same data item, provided its strings
  contain no white space (and those inside sub data items are not empty), its MAC addresses
  have a byte, the configured names are unambiguous words, and Boost reads back the IP
  addresses it printed.
\<close>

theorem text_round_trip:
  assumes "config_ok cfg" and "subs_listed cfg" and "text_config_ok cfg" and boost_reads_back: "ip_text_ok ip ipp"
    and "parent_invert cfg p" and "item_ok cfg p di" and "item_printable True di" and "data_item_to_string ip cfg p di = Inr str"
  shows "data_item_from_string ipp cfg p str = Inr di"
proof -
  have "item_reads ip ipp cfg p di" by (rule all_read(2)[OF assms(1-4)])
  with assms(5-8) have "reads [] (from_istringstream ipp cfg p) str di" by (auto simp: item_reads_def tail_ok_def)
  then show ?thesis
    by (auto simp: reads_def data_item_from_string_def open_stream_def good_def
        dest!: spec[of _ "\<lparr>is_text = str, is_eof = False, is_fail = False, is_hex = False\<rparr>"])
qed

text \<open>
  Without these provisos the two are not inverse: of a string with white space only the first
  word is read back, and an empty string before other data items swallows what follows it.
\<close>

lemma text_not_inverse:
  "value_from_string \<lparr>v4_from_string = (\<lambda>_. None), v6_from_string = (\<lambda>_. None)\<rparr> ''60;my modem'' (DataItem 4 (Div_u8_string 0 '''')) = Inr (DataItem 4 (Div_u8_string 60 ''my''))"
  by code_simp

text \<open>A minus sign is accepted: the number is negated modulo 64 bits.\<close>

lemma negative_number:
  "value_from_string \<lparr>v4_from_string = (\<lambda>_. None), v6_from_string = (\<lambda>_. None)\<rparr> ''-1'' (DataItem 12 (Div_u64 0)) = Inr (DataItem 12 (Div_u64 18446744073709551615))"
  by code_simp

end
