(* ===== verification/Witnesses.thy ===== *)
theory Witnesses
  imports Rfc8175 DataItemRoundTrip
begin

text \<open>
  The properties of the data model instantiated at concrete inputs: the shipped RFC 8175
  configuration, a Destination Up message with a MAC address and two metrics, and the data
  a peer then holds. Every hypothesis of a property is discharged by evaluation.
\<close>

section \<open>The inputs\<close>

definition ex_mac :: DlepMac where
  "ex_mac = DlepMac [0, 1, 2, 3, 4, 5]"

definition ex_items :: "DataItem list" where
  "ex_items = [DataItem 7 (Div_dlepmac ex_mac), DataItem 16 (Div_u64 1500), DataItem 17 (Div_u8 90)]"

definition ex_bytes :: bytes where
  "ex_bytes = [0, 7, 0, 6, 0, 1, 2, 3, 4, 5, 0, 16, 0, 8, 0, 0, 0, 0, 0, 0, 5, 220, 0, 17, 0, 1, 90]"

definition ex_opened :: ProtocolMessage where
  "ex_opened = new_ProtocolMessage\<lparr>msgbuf := [0, 7, 0, 0], msg_len_index := 2, header_length := 4,
     signal_id := 7, signal_id_initialized := True\<rparr>"

definition ex_message :: ProtocolMessage where
  "ex_message = ex_opened\<lparr>msgbuf := [0, 7, 0, 27] @ ex_bytes\<rparr>"

definition ex_received :: ProtocolMessage where
  "ex_received = ex_message\<lparr>data_items := ex_items\<rparr>"

definition ex_ip :: ip_text where
  "ex_ip = \<lparr>v4_to_string = (\<lambda>a. concat (map hex_byte (v4_bytes a))),
            v6_to_string = (\<lambda>a. concat (map hex_byte (v6_bytes a)))\<rparr>"

definition ex_client :: client_config where
  "ex_client = \<lparr>cp_bool = (\<lambda>s. Inr False), cp_unsigned = (\<lambda>s. Inr 60), cp_string = (\<lambda>s. Inr ''router'')\<rparr>"

lemma ex_header: "add_header rfc8175_config ''Destination_Up'' new_ProtocolMessage = Inr ex_opened"
  by code_simp

lemma ex_add_items: "add_data_items rfc8175_config ex_items ex_opened = Inr ex_message"
  by code_simp

lemma ex_message_length: "length (msgbuf ex_message) < 2 ^ 64"
  by (simp add: ex_message_def ex_opened_def new_ProtocolMessage_def ex_bytes_def)

lemma ex_building: "building rfc8175_config ex_client ''Destination_Up'' ex_message"
  by (rule building.items[OF building.header[OF ex_header] ex_add_items])

lemma ex_items_ok: "items_ok rfc8175_config None ex_items"
  by code_simp

section \<open>Text\<close>

fun ex_unhex :: "string \<Rightarrow> bytes" where
  "ex_unhex (c # d # s) = of_int (digit_value c * 16 + digit_value d) # ex_unhex s"
| "ex_unhex _ = []"

definition ex_ip_parse :: ip_parse where
  "ex_ip_parse = \<lparr>v4_from_string = (\<lambda>s. Some (AddressV4 (ex_unhex s))), v6_from_string = (\<lambda>s. Some (AddressV6 (ex_unhex s) 0))\<rparr>"

lemma ex_unhex: "ex_unhex (concat (map hex_byte bs)) = bs"
proof (induction bs)
  case (Cons b bs)
  have "unat b div 16 < 16" "unat b mod 16 < 16" using unat_u8_less[of b] by (simp_all add: less_mult_imp_div_less)
  then have "digit_value (hex_char (unat b div 16)) * 16 + digit_value (hex_char (unat b mod 16)) = uint b"
    by (simp add: digit_value_hex_char zdiv_int zmod_int)
  with Cons show ?case by (simp add: hex_byte_def)
qed simp

lemma ex_hex_plain: "plain (concat (map hex_byte bs))"
proof -
  have "\<not> is_space (hex_char d) \<and> \<not> is_field_separator (hex_char d)" if "d < 16" for d
    using digit_not_space[of "hex_char d"] digit_value_hex_char[OF that] that
    by (auto simp: is_field_separator_def digit_value_def)
  then have "plain (hex_byte b)" for b
    using unat_u8_less[of b] by (simp add: plain_def hex_byte_def less_mult_imp_div_less)
  then show ?thesis by (induction bs) (auto simp: plain_def)
qed

lemma ex_ip_text: "ip_text_ok ex_ip ex_ip_parse"
proof -
  have "concat (map hex_byte bs) \<noteq> []" if "length bs = Suc n" for bs n
    using that by (cases bs) (simp_all add: hex_byte_def)
  then show ?thesis by (fastforce simp: ip_text_ok_def ex_ip_def ex_ip_parse_def ex_unhex ex_hex_plain address_v4.expand address_v6.expand)
qed

theorem text_round_trip_witness:
  "data_item_from_string ex_ip_parse rfc8175_config None ''IPv4_Address 1;0a000001'' =
     Inr (DataItem 8 (Div_u8_ipv4 1 (AddressV4 [10, 0, 0, 1])))"
proof (rule text_round_trip[OF rfc8175_ok rfc8175_subs_listed _ ex_ip_text])
  show "text_config_ok rfc8175_config" by code_simp
  show "item_ok rfc8175_config None (DataItem 8 (Div_u8_ipv4 1 (AddressV4 [10, 0, 0, 1])))" by code_simp
  show "data_item_to_string ex_ip rfc8175_config None (DataItem 8 (Div_u8_ipv4 1 (AddressV4 [10, 0, 0, 1]))) =
      Inr ''IPv4_Address 1;0a000001''" by code_simp
qed (simp_all add: parent_invert_def)

section \<open>Configuration\<close>

theorem insert_id_name_mapping_witness:
  "bimap_ok (data_item_map rfc8175_config)
   \<and> (case insert_id_name_mapping (data_item_map rfc8175_config) 8 ''MAC_Address'' ''data_item'' of
        Inl e \<Rightarrow> (\<exists>s. e = BadProtocolConfig s) \<and>
          ((\<exists>old. bimap_left (data_item_map rfc8175_config) 8 = Some old \<and> old \<noteq> ''MAC_Address'')
            \<or> (\<exists>i'. bimap_right (data_item_map rfc8175_config) ''MAC_Address'' = Some i' \<and> i' \<noteq> 8))
      | Inr m' \<Rightarrow> bimap_ok m' \<and> bimap_left m' = (bimap_left (data_item_map rfc8175_config))(8 \<mapsto> ''MAC_Address'')
          \<and> bimap_right m' = (bimap_right (data_item_map rfc8175_config))(''MAC_Address'' \<mapsto> 8))"
  using insert_id_name_mapping_correct[of "data_item_map rfc8175_config" 8 "''MAC_Address''" "''data_item''"]
    rfc8175_ok by (simp add: config_ok_def)

section \<open>Data items\<close>

theorem data_item_round_trip_witness:
  "data_item_deserialize rfc8175_config None ([0, 17, 0, 1, 90] @ [0, 16]) = Inr (DataItem 17 (Div_u8 90), [0, 16])"
proof (rule data_item_round_trip[OF rfc8175_ok])
  show "item_ok rfc8175_config None (DataItem 17 (Div_u8 90))" by code_simp
  show "serialize_item rfc8175_config (DataItem 17 (Div_u8 90)) = Inr [0, 17, 0, 1, 90]" by code_simp
qed simp

lemma ex_deserialize:
  "data_item_deserialize rfc8175_config None [0, 17, 0, 1, 90, 0, 16] = Inr (DataItem 17 (Div_u8 90), [0, 16])"
  by code_simp


theorem data_item_deserialize_returns_witness:
  "case data_item_deserialize rfc8175_config None [0, 17, 0, 9, 90] of
     Inl e \<Rightarrow> is_std_exception e \<and> what e \<noteq> ''''
   | Inr (di, rest) \<Rightarrow> length rest < length [0, 17, 0, 9, 90 :: u8]"
  by (rule data_item_deserialize_returns[OF rfc8175_ok]) (simp add: parent_ok_def)

theorem validate_item_witness:
  "(validate_item rfc8175_config None (DataItem 17 (Div_u8 101)) = Inr '''') =
    item_valid rfc8175_config None (DataItem 17 (Div_u8 101))"
  by (rule validate_item_correct[OF rfc8175_ok rfc8175_occurs_wf]) simp

section \<open>Messages\<close>

theorem message_layout_invariant_witness:
  "\<exists>dis body. encode_items rfc8175_config dis = Inr body
    \<and> msgbuf ex_message = (if is_signal ex_message then map byte_of_char (signal_prefix rfc8175_config) else [])
        @ serialize_loop (signal_id ex_message) (signal_id_size rfc8175_config)
        @ serialize_loop (of_nat (length body) :: u64) (signal_length_size rfc8175_config) @ body
    \<and> length body < 256 ^ signal_length_size rfc8175_config
    \<and> get_signal_id rfc8175_config ''Destination_Up'' = Inr (signal_id ex_message, is_signal ex_message)"
  by (rule message_layout_invariant[OF rfc8175_ok ex_building ex_message_length])

theorem message_round_trip_witness:
  "\<exists>pm'. parse_buffer ex_ip rfc8175_config (msgbuf ex_message) (is_signal ex_message) ''rx'' new_ProtocolMessage
        = Inr (pm', '''')
    \<and> data_items pm' = ex_items \<and> pm_get_signal_name rfc8175_config pm' = Inr ''Destination_Up''"
  by (rule message_round_trip[OF rfc8175_ok rfc8175_subs_listed ex_header ex_add_items ex_items_ok ex_message_length])

theorem stream_framing_witness:
  "is_complete_message rfc8175_config (msgbuf ex_message @ [1, 2]) 0 =
     Inr (True, of_nat (length (msgbuf ex_message)))
   \<and> (\<exists>m. is_complete_message rfc8175_config (take 5 (msgbuf ex_message)) 0 = Inr (False, m))"
proof -
  have "\<not> is_signal ex_message" "5 < length (msgbuf ex_message)"
    by (simp_all add: ex_message_def ex_opened_def new_ProtocolMessage_def ex_bytes_def)
  then show ?thesis
    using stream_framing[OF rfc8175_ok ex_building _ ex_message_length, of "[1, 2]" 0 5] by blast
qed

theorem parse_returns_witness:
  "\<exists>pm' err. parse ex_ip rfc8175_config ''rx'' ex_message = Inr (pm', err)
    \<and> items_ok rfc8175_config None (data_items pm')
    \<and> (err = '''' \<longrightarrow> (\<exists>name. pm_get_signal_name rfc8175_config pm' = Inr name))"
  by (rule parse_returns[OF rfc8175_ok])

theorem validate_message_witness:
  "(validate rfc8175_config True ex_received = Inr '''') = message_valid rfc8175_config True ex_received"
  by (rule validate_message_correct[OF rfc8175_ok rfc8175_occurs_wf]) (simp add: ex_received_def ex_items_def)

theorem add_status_search_witness:
  "\<exists>i. \<forall>n\<ge>4. find_status_code n rfc8175_config ''Invalid_Message'' = Inr i"
proof -
  have "status_configured rfc8175_config ''Unknown_Message''" "status_configured rfc8175_config ''Invalid_Data''"
    by code_simp+
  then show ?thesis using add_status_search by blast
qed

section \<open>The information base\<close>

definition ex_address :: "u8 \<Rightarrow> DataItem" where
  "ex_address flag = DataItem 8 (Div_u8_ipv4 flag (AddressV4 [10, 0, 0, 1]))"

definition ex_destination :: DestinationData where
  "ex_destination = \<lparr>dd_mac_address = ex_mac,
     dd_metric_data_items = [(16, DataItem 16 (Div_u64 1500)), (17, DataItem 17 (Div_u8 90))],
     dd_ip_data_items = [], dd_needs_response = ''''\<rparr>"

definition ex_peer_new :: PeerData where
  "ex_peer_new = \<lparr>pd_peer_id = ''modem'', pd_destination_data = [],
     pd_metric_data_items = [(16, DataItem 16 (Div_u64 1000))], pd_ip_data_items = [ex_address 1],
     pd_other_data_items = []\<rparr>"

definition ex_peer :: PeerData where
  "ex_peer = ex_peer_new\<lparr>pd_destination_data := [(ex_mac, ex_destination)]\<rparr>"

lemma ex_new_peer:
  "new_PeerData rfc8175_config ''modem'' [DataItem 16 (Div_u64 1000), ex_address 1] = Inr ex_peer_new"
  by code_simp

lemma ex_add_destination:
  "addDestination rfc8175_config [] ex_mac ex_items False ex_peer_new = Inr (ex_peer, True, [])"
  by code_simp

lemma ex_peer_reachable: "peer_data_reachable rfc8175_config ex_peer"
  by (rule peer_data_reachable.add[OF peer_data_reachable.new[OF ex_new_peer] ex_add_destination])

lemma ex_peer_ok: "pd_ok rfc8175_config ex_peer"
  by code_simp

theorem info_base_invariant_witness: "pd_ok rfc8175_config ex_peer"
  by (rule info_base_invariant[OF ex_peer_reachable])

theorem update_ip_data_items_witness:
  "ip_list_ok (update_ip_data_items [ex_address 1] (ex_address 0))
    \<and> ip_keys (update_ip_data_items [ex_address 1] (ex_address 0)) =
        ip_apply (ex_address 0) (ip_keys [ex_address 1])"
  by (rule update_ip_data_items_refines) code_simp

lemma ex_ids_known: "ids_known rfc8175_config ex_items"
  by code_simp


theorem destination_table_witness:
  "(\<exists>pd' calls. addDestination rfc8175_config [] (DlepMac [9]) ex_items False ex_peer =
        Inr (pd', \<not> validDestination (DlepMac [9]) ex_peer, calls)
      \<and> abs_peer pd' = abs_peer ex_peer
      \<and> (if validDestination (DlepMac [9]) ex_peer then pd' = ex_peer
         else abs_dests (pd_destination_data pd') = (abs_dests (pd_destination_data ex_peer))
                (DlepMac [9] \<mapsto> fold (abs_apply rfc8175_config) ex_items (Map.empty, {}))))
    \<and> (\<exists>pd' calls. removeDestination [] (DlepMac [9]) False ex_items ex_peer =
        (pd', validDestination (DlepMac [9]) ex_peer, calls)
      \<and> abs_peer pd' = abs_peer ex_peer
      \<and> abs_dests (pd_destination_data pd') = (abs_dests (pd_destination_data ex_peer))(DlepMac [9] := None))"
  by (rule destination_table[OF ex_peer_ok ex_ids_known])

end
