(* ===== verification/ConfigLoaded.thy ===== *)
theory ConfigLoaded
  imports ConfigLoader
begin

text \<open>
  What a loaded configuration satisfies: the loops over status codes, modules and the
  document keep the tables well-formed, and the field sizes are those of the document.
\<close>

section \<open>Status codes and modules\<close>

lemma tables_ok_status:
  "tables_ok cfg \<Longrightarrow> bimap_ok m \<Longrightarrow> tables_ok (cfg\<lparr>status_code_map := m\<rparr>)"
  "tables_ok (cfg\<lparr>status_code_info_map := x\<rparr>) = tables_ok cfg"
  by (simp_all add: tables_ok_def items_pending_def refs_ok_def signal_tables_ok_def)

lemma status_code_loop_loads:
  "tables_ok cfg \<Longrightarrow> loads (\<lambda>(cfg', sc). tables_ok cfg') (status_code_loop nodes cfg sc)"
proof (induction nodes cfg sc rule: status_code_loop.induct)
  case (2 node nodes cfg sc)
  show ?case
  proof (cases "node_name node = ''id''")
    case True
    then have name: "node_name node \<noteq> ''name''" by simp
    have map: "bimap_ok (status_code_map cfg)" using "2.prems" by (simp add: tables_ok_def)
    have "loads (\<lambda>(cfg', sc). tables_ok cfg')
      (rbind (insert_id_name_mapping (status_code_map cfg) (node_unsigned node) (sc_name sc) ''status_code'')
        (\<lambda>m. status_code_loop nodes (cfg\<lparr>status_code_map := m\<rparr>) (sc\<lparr>sc_id := node_unsigned node\<rparr>)))"
      by (rule loads_rbind[OF loads_mapping[OF map]], rule "2.IH"(2)[OF name True])
        (use "2.prems" in \<open>auto intro: tables_ok_status\<close>)
    with True show ?thesis by simp
  next
    case False
    with 2 show ?thesis by simp
  qed
qed (simp add: loads_Inr)

lemma extract_module_status_code_loads:
  assumes "module_state_ok st"
  shows "loads module_state_ok (extract_module_status_code nodes st)"
proof -
  obtain cfg modinfo where st: "st = (cfg, modinfo)" by (cases st)
  have "tables_ok cfg" using assms by (simp add: st module_state_ok_def)
  from status_code_loop_loads[OF this] show ?thesis
    unfolding extract_module_status_code_def st prod.case
    by (rule loads_rbind)
      (auto simp: loads_def module_state_ok_def tables_ok_status split: option.splits)
qed

lemma module_loop_loads:
  "module_state_ok st \<Longrightarrow> module_conforms nodes \<Longrightarrow> loads module_state_ok (module_loop nodes st)"
proof (induction nodes arbitrary: st)
  case (Cons node nodes)
  have conf: "module_conforms nodes" using Cons.prems(2) by (simp add: module_conforms_def)
  have step: "loads module_state_ok (rbind r (module_loop nodes))" if "loads module_state_ok r" for r
    by (rule loads_rbind[OF that], rule Cons.IH) (use conf in auto)
  have skip: "loads module_state_ok (module_loop nodes (fst st, m))" for m
    by (rule Cons.IH) (use Cons.prems conf in \<open>simp_all add: module_state_ok_def\<close>)
  have item: "loads module_state_ok (extract_module_data_item (node_children node) st)"
    if "node_name node = ''data_item''"
    by (rule extract_module_data_item_loads) (use that Cons.prems in \<open>simp_all add: module_conforms_def\<close>)
  show ?case
    using step[OF extract_module_signal_loads[OF Cons.prems(1)]] step[OF item]
      step[OF extract_module_status_code_loads[OF Cons.prems(1)]] skip Cons.IH[OF Cons.prems(1) conf]
    by simp
qed (simp add: loads_Inr)

section \<open>The document\<close>

lemma tables_ok_other [simp]:
  "tables_ok (cfg\<lparr>version := a\<rparr>) = tables_ok cfg" "tables_ok (cfg\<lparr>signal_prefix := s\<rparr>) = tables_ok cfg"
  "tables_ok (cfg\<lparr>module_info_map := m\<rparr>) = tables_ok cfg" "tables_ok (cfg\<lparr>signal_length_size := n\<rparr>) = tables_ok cfg"
  "tables_ok (cfg\<lparr>signal_id_size := n\<rparr>) = tables_ok cfg" "tables_ok (cfg\<lparr>data_item_length_size := n\<rparr>) = tables_ok cfg"
  "tables_ok (cfg\<lparr>data_item_id_size := n\<rparr>) = tables_ok cfg" "tables_ok (cfg\<lparr>extension_id_size := n\<rparr>) = tables_ok cfg"
  "tables_ok (cfg\<lparr>status_code_size := n\<rparr>) = tables_ok cfg"
  by (simp_all add: tables_ok_def items_pending_def refs_ok_def signal_tables_ok_def)

lemma sizes_ok_other [simp]:
  "sizes_ok (cfg\<lparr>version := a\<rparr>) = sizes_ok cfg" "sizes_ok (cfg\<lparr>signal_prefix := s\<rparr>) = sizes_ok cfg"
  "sizes_ok (cfg\<lparr>module_info_map := m\<rparr>) = sizes_ok cfg"
  by (simp_all add: sizes_ok_def)

lemma extract_version_other [simp]:
  "tables_ok (extract_version nodes cfg) = tables_ok cfg" "sizes_ok (extract_version nodes cfg) = sizes_ok cfg"
  by (induction nodes cfg rule: extract_version.induct) auto

lemma extract_field_sizes_tables [simp]: "tables_ok (extract_field_sizes nodes cfg) = tables_ok cfg"
  by (induction nodes arbitrary: cfg) auto

text \<open>The value of a size field is that of the last node that sets it.\<close>

definition last_size :: "string \<Rightarrow> xml_node list \<Rightarrow> nat \<Rightarrow> nat" where
  "last_size s nodes n = foldl (\<lambda>n node. if node_name node = s then node_size node else n) n nodes"

lemma last_size_Cons:
  "last_size s (node # nodes) n = last_size s nodes (if node_name node = s then node_size node else n)"
  by (simp add: last_size_def)

lemma extract_field_sizes_last:
  "signal_length_size (extract_field_sizes nodes cfg) = last_size ''signal_length'' nodes (signal_length_size cfg)"
  "signal_id_size (extract_field_sizes nodes cfg) = last_size ''signal_id'' nodes (signal_id_size cfg)"
  "data_item_length_size (extract_field_sizes nodes cfg) = last_size ''data_item_length'' nodes (data_item_length_size cfg)"
  "data_item_id_size (extract_field_sizes nodes cfg) = last_size ''data_item_id'' nodes (data_item_id_size cfg)"
  "extension_id_size (extract_field_sizes nodes cfg) = last_size ''extension_id'' nodes (extension_id_size cfg)"
  "status_code_size (extract_field_sizes nodes cfg) = last_size ''status_code'' nodes (status_code_size cfg)"
  by (induction nodes arbitrary: cfg) (simp_all add: last_size_Cons, simp_all add: last_size_def)

lemma last_size_ok:
  assumes "list_all (\<lambda>n. node_name n \<in> set size_names \<longrightarrow> field_size_ok (node_size n)) nodes"
    and "s \<in> set size_names" and "s \<in> set (map node_name nodes) \<or> field_size_ok n"
  shows "field_size_ok (last_size s nodes n)"
  using assms by (induction nodes arbitrary: n) (auto simp: last_size_Cons, simp add: last_size_def)

lemma extract_field_sizes_ok:
  assumes "sizes_conform nodes"
  shows "sizes_ok (extract_field_sizes nodes cfg)"
proof -
  have "field_size_ok (last_size s nodes n)" if "s \<in> set size_names" for s n
    by (rule last_size_ok) (use assms that in \<open>auto simp: sizes_conform_def list_all_iff\<close>)
  then show ?thesis by (simp add: sizes_ok_def extract_field_sizes_last size_names_def)
qed

text \<open>Modules do not touch the field sizes.\<close>

definition field_sizes :: "ProtocolConfig \<Rightarrow> nat list" where
  "field_sizes cfg = [signal_length_size cfg, signal_id_size cfg, data_item_length_size cfg,
     data_item_id_size cfg, extension_id_size cfg, status_code_size cfg]"

lemma sizes_ok_field_sizes: "sizes_ok cfg = list_all field_size_ok (field_sizes cfg)"
  by (simp add: sizes_ok_def field_sizes_def)

lemma field_sizes_update [simp]:
  "field_sizes (cfg\<lparr>data_item_map := a\<rparr>) = field_sizes cfg" "field_sizes (cfg\<lparr>data_item_info_map := b\<rparr>) = field_sizes cfg"
  "field_sizes (cfg\<lparr>status_code_map := c\<rparr>) = field_sizes cfg" "field_sizes (cfg\<lparr>status_code_info_map := d\<rparr>) = field_sizes cfg"
  "field_sizes (cfg\<lparr>signal_map := e\<rparr>) = field_sizes cfg" "field_sizes (cfg\<lparr>signal_info_map := f\<rparr>) = field_sizes cfg"
  "field_sizes (cfg\<lparr>message_map := g\<rparr>) = field_sizes cfg" "field_sizes (cfg\<lparr>message_info_map := h\<rparr>) = field_sizes cfg"
  "field_sizes (cfg\<lparr>module_info_map := i\<rparr>) = field_sizes cfg"
  by (simp_all add: field_sizes_def)

lemma data_item_loop_sizes:
  "data_item_loop nodes cfg di = Inr (cfg', di') \<Longrightarrow> field_sizes cfg' = field_sizes cfg"
proof (induction nodes arbitrary: cfg di)
  case (Cons node nodes)
  have same: "data_item_loop nodes cfg di1 = Inr (cfg', di') \<Longrightarrow> field_sizes cfg' = field_sizes cfg" for di1
    by (rule Cons.IH)
  have map: "data_item_loop nodes (cfg\<lparr>data_item_map := m\<rparr>) di1 = Inr (cfg', di') \<Longrightarrow>
      field_sizes cfg' = field_sizes cfg" for m di1
    using Cons.IH[of "cfg\<lparr>data_item_map := m\<rparr>"] by simp
  show ?case
    using Cons.prems unfolding data_item_loop.simps
    by (auto simp: res_simps split: if_splits sum.splits dest: same map)
qed simp

lemma status_code_loop_sizes:
  "status_code_loop nodes cfg sc = Inr (cfg', sc') \<Longrightarrow> field_sizes cfg' = field_sizes cfg"
  by (induction nodes cfg sc rule: status_code_loop.induct) (auto simp: res_simps split: if_splits)

lemma signal_identify_sizes: "signal_identify cfg l = Inr (cfg', i, b) \<Longrightarrow> field_sizes cfg' = field_sizes cfg"
  by (auto simp: signal_identify_def Let_def res_simps split: if_splits sum.splits prod.splits)

lemma extract_module_parts_sizes:
  "extract_module_signal nodes st = Inr st' \<Longrightarrow> field_sizes (fst st') = field_sizes (fst st)"
  "extract_module_data_item nodes st = Inr st' \<Longrightarrow> field_sizes (fst st') = field_sizes (fst st)"
  "extract_module_status_code nodes st = Inr st' \<Longrightarrow> field_sizes (fst st') = field_sizes (fst st)"
proof -
  obtain cfg modinfo where st: "st = (cfg, modinfo)" by (cases st)
  show "field_sizes (fst st') = field_sizes (fst st)" if "extract_module_data_item nodes st = Inr st'"
    using that by (auto simp: extract_module_data_item_def st res_simps split: option.splits dest: data_item_loop_sizes)
  show "field_sizes (fst st') = field_sizes (fst st)" if "extract_module_status_code nodes st = Inr st'"
    using that by (auto simp: extract_module_status_code_def st res_simps split: option.splits dest: status_code_loop_sizes)
  show "field_sizes (fst st') = field_sizes (fst st)" if "extract_module_signal nodes st = Inr st'"
    using that by (auto simp: extract_module_signal_def st Let_def res_simps split: if_splits dest!: signal_identify_sizes)
qed

lemma module_loop_sizes: "module_loop nodes st = Inr st' \<Longrightarrow> field_sizes (fst st') = field_sizes (fst st)"
proof (induction nodes arbitrary: st)
  case (Cons node nodes)
  from Cons.prems consider
      (skip) m where "module_loop nodes (fst st, m) = Inr st'"
    | (part) st1 where "field_sizes (fst st1) = field_sizes (fst st)" "module_loop nodes st1 = Inr st'"
    by (simp only: module_loop.simps res_simps prod.collapse split: if_splits)
      (metis extract_module_parts_sizes prod.collapse)+
  then show ?case
    using Cons.IH by cases fastforce+
qed simp

lemma extract_module_loads:
  assumes "tables_ok cfg" and "module_conforms nodes"
  shows "loads (\<lambda>cfg'. tables_ok cfg' \<and> field_sizes cfg' = field_sizes cfg) (extract_module nodes cfg)"
proof -
  have "loads module_state_ok (module_loop nodes (cfg, new_ModuleInfo))"
    by (rule module_loop_loads) (use assms in \<open>simp_all add: module_state_ok_def\<close>)
  then show ?thesis
    unfolding extract_module_def
    by (rule loads_rbind)
      (auto dest!: module_loop_sizes simp: loads_def module_state_ok_def split: option.splits)
qed

text \<open>One node of the document: the tables stay well-formed, and so do the sizes once they are.\<close>

definition node_conforms :: "xml_node \<Rightarrow> bool" where
  "node_conforms n \<longleftrightarrow> (node_name n = ''module'' \<longrightarrow> module_conforms (node_children n))
     \<and> (node_name n = ''field_sizes'' \<longrightarrow> sizes_conform (node_children n))
     \<and> (node_name n = ''signal_prefix'' \<longrightarrow> node_children n \<noteq> [])"

lemma config_loop_loads:
  "tables_ok cfg \<Longrightarrow> list_all node_conforms nodes \<Longrightarrow>
   sizes_ok cfg \<or> list_ex (\<lambda>n. node_name n = ''field_sizes'') nodes \<Longrightarrow>
   loads (\<lambda>cfg'. tables_ok cfg' \<and> sizes_ok cfg') (config_loop nodes cfg)"
proof (induction nodes arbitrary: cfg)
  case (Cons node nodes)
  have conf: "node_conforms node" "list_all node_conforms nodes" using Cons.prems(2) by simp_all
  consider (version) "node_name node = ''version''" | (prefix) "node_name node = ''signal_prefix''"
    | (sizes) "node_name node = ''field_sizes''" | (module) "node_name node = ''module''"
    | (other) "node_name node \<notin> {''version'', ''signal_prefix'', ''field_sizes'', ''module''}" by blast
  then show ?case
  proof cases
    case version
    then show ?thesis using Cons.IH[of "extract_version (node_children node) cfg"] Cons.prems conf by simp
  next
    case prefix
    with conf obtain n ns where "node_children node = n # ns" by (cases "node_children node") (auto simp: node_conforms_def)
    then show ?thesis
      using Cons.IH[of "cfg\<lparr>signal_prefix := node_string n\<rparr>"] Cons.prems conf prefix
      by (simp add: extract_signal_prefix_def)
  next
    case sizes
    then have "sizes_ok (extract_field_sizes (node_children node) cfg)"
      using conf by (simp add: node_conforms_def extract_field_sizes_ok)
    then show ?thesis
      using Cons.IH[of "extract_field_sizes (node_children node) cfg"] Cons.prems conf sizes by simp
  next
    case module
    then have "module_conforms (node_children node)" using conf by (simp add: node_conforms_def)
    then have "loads (\<lambda>cfg'. tables_ok cfg' \<and> sizes_ok cfg')
        (rbind (extract_module (node_children node) cfg) (config_loop nodes))"
      by (rule loads_rbind[OF extract_module_loads[OF Cons.prems(1)]], intro Cons.IH)
        (use Cons.prems conf module in \<open>auto simp: sizes_ok_field_sizes\<close>)
    with module show ?thesis by simp
  next
    case other
    then show ?thesis using Cons.IH[of cfg] Cons.prems conf by simp
  qed
qed (simp add: loads_Inr)

lemma new_ProtocolConfig_tables: "tables_ok new_ProtocolConfig"
  by (simp add: tables_ok_def items_pending_def signal_tables_ok_def new_ProtocolConfig_def smap_ok_def
      bimap_ok_def signals_ok_def)

lemma extract_protocol_config_loads:
  assumes "document_conforms root"
  shows "loads config_ok (extract_protocol_config root)"
proof -
  have "loads (\<lambda>cfg'. tables_ok cfg' \<and> sizes_ok cfg') (config_loop (node_children root) new_ProtocolConfig)"
    by (rule config_loop_loads[OF new_ProtocolConfig_tables])
      (use assms in \<open>simp_all add: document_conforms_def list_all_iff node_conforms_def\<close>)
  then show ?thesis
    unfolding extract_protocol_config_def by (rule loads_weaken) (simp add: config_ok_split)
qed


section \<open>A small document\<close>

definition leaf :: "string \<Rightarrow> string \<Rightarrow> xml_node" where
  "leaf name content = XmlNode name content []"

definition ex_document :: xml_node where
  "ex_document = XmlNode ''protocol_config'' ''''
     [XmlNode ''version'' '''' [leaf ''major'' ''1'', leaf ''minor'' ''0''],
      XmlNode ''signal_prefix'' ''DLEP'' [leaf ''text'' ''DLEP''],
      XmlNode ''field_sizes'' '''' (map (\<lambda>s. leaf s ''2'') size_names),
      XmlNode ''module'' ''''
        [leaf ''name'' ''core'',
         XmlNode ''data_item'' '''' [leaf ''name'' ''MAC_Address'', leaf ''id'' ''7'', leaf ''type'' ''dlepmac''],
         XmlNode ''status_code'' '''' [leaf ''name'' ''Success'', leaf ''id'' ''0''],
         XmlNode ''signal'' '''' [leaf ''name'' ''Destination_Down'', leaf ''id'' ''11'', leaf ''message'' ''true'',
           leaf ''sender'' ''both'', XmlNode ''data_item'' '''' [leaf ''name'' ''MAC_Address'', leaf ''occurs'' ''1'']]]]"


text \<open>The document loads, and the message it defines is found with its reference.\<close>

lemma ex_document_loads:
  "rbind (extract_protocol_config ex_document) (\<lambda>cfg. rbind (get_signal_info cfg ''Destination_Down'') (\<lambda>si.
     Inr (si_id si, si_flags si, map sdi_id (si_data_items si)))) = Inr (11, 7, [7])"
  by code_simp

end
