(* ===== verification/Peer.thy ===== *)
theory Peer
  imports InfoBase Session_Monad
begin

text \<open>
  The session with one peer (\<open>src/Peer.cpp\<close>, \<open>src/Peer.h\<close>): the state of a \<open>Peer\<close>
  object, the methods that send messages, the queues of messages that await a response, and
  the handlers of received messages and timers. A method is a computation on the object;
  what it does to the outside (bytes written to the socket, calls on the client, the
  information base, the destination advertiser and the timers) is appended to a list of
  actions in the order the code does it.
\<close>

section \<open>Data\<close>

datatype PeerState = Nonexistent | Connected | In_session | Terminating

text \<open>
  \<open>rp_ref\<close> is the identity of the object a \<open>ResponsePendingPtr\<close> points to; pointers are
  compared by it.
\<close>

record ResponsePending =
  rp_ref :: nat
  rp_response_id :: u32
  rp_response_name :: string
  rp_destination :: DlepMac
  rp_queued :: bool
  rp_msg_buffer :: bytes
  rp_send_time :: int
  rp_send_tries :: u32

record PeerInfo =
  pi_peer_id :: string
  pi_peer_type :: string
  pi_extensions :: "u32 list"
  pi_experiment_names :: "string list"
  pi_data_items :: "DataItem list"
  pi_destinations :: "DlepMac list"
  pi_heartbeat_interval :: u32

datatype action =
    Send bytes
  | Client_peer_init string "DataItem list"
  | Client_peer_up PeerInfo
  | Client_peer_down string
  | Client_peer_update string "DataItem list"
  | Client_destination_up string DlepMac "DataItem list"
  | Client_destination_update string DlepMac "DataItem list"
  | Client_destination_down string DlepMac "DataItem list"
  | Client_linkchar_request string DlepMac "DataItem list"
  | Client_linkchar_reply string DlepMac "DataItem list"
  | Info_remove_peer string
  | Advert_add_destination DlepMac
  | Advert_clear_destinations
  | Start_heartbeat_timer u32
  | Start_acktivity_timer
  | Stop_timers
  | Read_some nat
  | Cancel_session

text \<open>
  \<open>p_recv_buffer\<close> is the first \<open>signal_recv_len\<close> bytes of \<open>signal_recv_buffer\<close>;
  \<open>p_rand_calls\<close> counts the calls of \<open>std::rand\<close> and \<open>p_next_ref\<close> the pending
  responses allocated so far.
\<close>

record Peer =
  p_peer_id :: string
  p_pdp :: PeerData
  p_peer_type :: string
  p_experiment_names :: "string list"
  p_state :: PeerState
  p_responses_pending :: "(DlepMac, ResponsePending list) smap"
  p_heartbeat_interval :: u32
  p_heartbeat_interval_sec :: u32
  p_heartbeat_msg :: ProtocolMessage
  p_last_receive_time :: int
  p_recv_buffer :: bytes
  p_mutual_extensions :: "u32 list"
  p_not_interested :: DlepMacAddrs
  p_next_ref :: nat
  p_rand_calls :: nat
  p_actions :: "action list"

type_synonym 'a peer_comp = "(Peer, 'a) comp"

text \<open>
  What a method reads from outside the object: the configuration, the client (its parameters
  and the answers of its callbacks), our own data items and destinations, the data of the
  peers in \<open>dlep->peers\<close>, the clock, the random numbers, and, for destination
  advertisement, whether it is enabled and the MAC address \<open>NetUtils\<close> finds for the peer.
\<close>

record session_env =
  env_cfg :: ProtocolConfig
  env_modem :: bool
  env_params :: client_config
  env_ip :: ip_text
  env_peer_init :: "string \<Rightarrow> DataItem list \<Rightarrow> bool \<times> DataItem list"
  env_destination_up :: "string \<Rightarrow> DlepMac \<Rightarrow> DataItem list \<Rightarrow> string"
  env_local_pdp :: PeerData
  env_peers :: "(string, PeerData) smap"
  env_time :: int
  env_rand :: "nat \<Rightarrow> u32"
  env_advert_enabled :: bool
  env_peer_mac :: "DlepMac option"

definition act :: "action \<Rightarrow> unit peer_comp" where
  "act a = change (\<lambda>p. p\<lparr>p_actions := p_actions p @ [a]\<rparr>)"

definition new_Peer :: "session_env \<Rightarrow> string \<Rightarrow> Peer res" where
  "new_Peer env peer_id =
     rbind (new_PeerData (env_cfg env) peer_id []) (\<lambda>pdp.
     Inr \<lparr>p_peer_id = peer_id, p_pdp = pdp, p_peer_type = ''unknown'', p_experiment_names = [],
          p_state = Connected, p_responses_pending = [], p_heartbeat_interval = 0,
          p_heartbeat_interval_sec = 0, p_heartbeat_msg = new_ProtocolMessage,
          p_last_receive_time = env_time env, p_recv_buffer = [], p_mutual_extensions = [],
          p_not_interested = [], p_next_ref = 0, p_rand_calls = 0, p_actions = []\<rparr>)"

text \<open>\<open>pm.parse_and_validate(dlep->is_modem(), __func__)\<close> on a message just built.\<close>

definition reparse :: "session_env \<Rightarrow> string \<Rightarrow> ProtocolMessage \<Rightarrow> (ProtocolMessage \<times> string) res" where
  "reparse env func pm = parse_and_validate (env_ip env) (env_cfg env) (env_modem env) func pm"

text \<open>The same, followed by \<open>assert(err == "")\<close>.\<close>

definition reparse_assert :: "session_env \<Rightarrow> string \<Rightarrow> ProtocolMessage \<Rightarrow> ProtocolMessage res" where
  "reparse_assert env func pm =
     rbind (reparse env func pm) (\<lambda>(pm', err). rbind (assert_that (err = '''') ''err'') (\<lambda>_. Inr pm'))"

text \<open>The destination of a message, the default value when it has none.\<close>

definition message_destination :: "ProtocolConfig \<Rightarrow> ProtocolMessage \<Rightarrow> DlepMac res" where
  "message_destination cfg pm = try_catch (get_mac cfg pm) is_DataItemNotPresent (Inr (DlepMac []))"

section \<open>Messages that expect a response\<close>

definition new_ResponsePending :: "ProtocolConfig \<Rightarrow> ProtocolMessage \<Rightarrow> nat \<Rightarrow> ResponsePending res" where
  "new_ResponsePending cfg pm r =
     rbind (pm_get_signal_name cfg pm) (\<lambda>name.
     rbind (get_signal_info cfg name) (\<lambda>siginfo.
     let response_id = si_response_id siginfo
     in rbind (assert_that (response_id \<noteq> 0) ''response_id != 0'') (\<lambda>_.
        rbind (if is_signal pm then get_signal_name cfg response_id else get_message_name cfg response_id)
          (\<lambda>response_name.
        rbind (message_destination cfg pm) (\<lambda>destination.
        Inr \<lparr>rp_ref = r, rp_response_id = response_id, rp_response_name = response_name,
             rp_destination = destination, rp_queued = False, rp_msg_buffer = msgbuf pm,
             rp_send_time = 0, rp_send_tries = 0\<rparr>)))))"

text \<open>\<open>ResponsePendingPtr rp(new ResponsePending(dlep->protocfg, pm))\<close>\<close>

definition make_ResponsePending :: "session_env \<Rightarrow> ProtocolMessage \<Rightarrow> ResponsePending peer_comp" where
  "make_ResponsePending env pm =
     bnd (asks p_next_ref) (\<lambda>r.
     bnd (lift (new_ResponsePending (env_cfg env) pm r)) (\<lambda>rp.
     next_do (change (\<lambda>p. p\<lparr>p_next_ref := Suc r\<rparr>)) (ret rp)))"

definition send_session_message :: "bytes \<Rightarrow> unit peer_comp" where
  "send_session_message packet = act (Send packet)"

definition is_not_interested :: "DlepMac \<Rightarrow> Peer \<Rightarrow> bool" where
  "is_not_interested destination p = (destination \<in> set (p_not_interested p))"

definition not_interested :: "DlepMac \<Rightarrow> unit peer_comp" where
  "not_interested destination =
     change (\<lambda>p. p\<lparr>p_not_interested := insort_insert destination (p_not_interested p)\<rparr>)"

text \<open>\<open>responses_pending[rp->destination].push(rp)\<close>\<close>

definition enqueue :: "ResponsePending \<Rightarrow> Peer \<Rightarrow> Peer" where
  "enqueue rp p =
     (let q = (case smap_find (p_responses_pending p) (rp_destination rp) of None \<Rightarrow> [] | Some q \<Rightarrow> q)
      in p\<lparr>p_responses_pending :=
             smap_insert (rp_destination rp) (q @ [rp\<lparr>rp_queued := True\<rparr>]) (p_responses_pending p)\<rparr>)"

text \<open>The head of the queue is \<open>rp\<close>: send it, and record when and how often it was sent.\<close>

definition send_head :: "session_env \<Rightarrow> DlepMac \<Rightarrow> nat \<Rightarrow> unit peer_comp" where
  "send_head env destination r =
     bnd (asks (\<lambda>p. smap_find (p_responses_pending p) destination)) (\<lambda>found.
     case found of
       None \<Rightarrow> throw (Undefined ''front() of an empty queue'')
     | Some q \<Rightarrow>
         (case q of
            [] \<Rightarrow> throw (Undefined ''front() of an empty queue'')
          | f # rest \<Rightarrow>
              when_do (rp_ref f = r)
                (next_do (send_session_message (rp_msg_buffer f))
                  (change (\<lambda>p. p\<lparr>p_responses_pending := smap_insert destination
                     (f\<lparr>rp_send_time := env_time env, rp_send_tries := rp_send_tries f + 1\<rparr> # rest)
                     (p_responses_pending p)\<rparr>)))))"

definition send_message_expecting_response :: "session_env \<Rightarrow> ResponsePending \<Rightarrow> unit peer_comp" where
  "send_message_expecting_response env rp =
     bnd (asks (is_not_interested (rp_destination rp))) (\<lambda>uninterested.
     if uninterested then ret ()
     else next_do (when_do (\<not> rp_queued rp) (change (enqueue rp)))
            (send_head env (rp_destination rp) (rp_ref rp)))"

text \<open>The new pending response of a message, sent or queued.\<close>

definition send_expecting :: "session_env \<Rightarrow> ProtocolMessage \<Rightarrow> unit peer_comp" where
  "send_expecting env pm =
     bnd (make_ResponsePending env pm) (send_message_expecting_response env)"

section \<open>Ending the session\<close>

definition set_state :: "PeerState \<Rightarrow> unit peer_comp" where
  "set_state newstate = change (\<lambda>p. if newstate = p_state p then p else p\<lparr>p_state := newstate\<rparr>)"

definition set_state_terminating :: "session_env \<Rightarrow> unit peer_comp" where
  "set_state_terminating env =
     bnd (asks p_state) (\<lambda>st.
     when_do (st \<noteq> Terminating)
       (next_do (set_state Terminating)
       (next_do (bnd (asks p_peer_id) (\<lambda>i. act (Client_peer_down i)))
       (when_do (env_advert_enabled env) (act Advert_clear_destinations)))))"

definition stop_timers :: "unit peer_comp" where
  "stop_timers = act Stop_timers"

definition stop_peer :: "session_env \<Rightarrow> unit peer_comp" where
  "stop_peer env = next_do stop_timers (set_state_terminating env)"

definition termination_message :: "session_env \<Rightarrow> string \<Rightarrow> string \<Rightarrow> ProtocolMessage res" where
  "termination_message env status_name reason =
     rbind (add_header (env_cfg env) ''Session_Termination'' new_ProtocolMessage) (\<lambda>pm.
     rbind (add_status (env_cfg env) status_name reason pm) (\<lambda>pm.
     reparse_assert env ''terminate'' pm))"

definition terminate :: "session_env \<Rightarrow> string \<Rightarrow> string \<Rightarrow> unit peer_comp" where
  "terminate env status_name reason =
     bnd (asks p_state) (\<lambda>st.
     when_do (st \<noteq> Terminating)
       (next_do (stop_peer env)
       (bnd (lift (termination_message env status_name reason)) (\<lambda>pm.
        next_do (send_expecting env pm)
        (bnd (asks p_peer_id) (\<lambda>i. act (Info_remove_peer i)))))))"

definition cancel_session :: "unit peer_comp" where
  "cancel_session = act Cancel_session"

section \<open>Responses\<close>

definition should_send_response :: "session_env \<Rightarrow> bool peer_comp" where
  "should_send_response env =
     bnd (asks p_rand_calls) (\<lambda>n.
     next_do (change (\<lambda>p. p\<lparr>p_rand_calls := Suc n\<rparr>))
     (bnd (lift (cp_unsigned (env_params env) ''ack-probability'')) (\<lambda>ack_probability.
      ret (env_rand env n mod 100 < ack_probability))))"

text \<open>The response built by \<open>send_simple_response\<close>.\<close>

definition simple_response ::
    "session_env \<Rightarrow> string \<Rightarrow> string \<Rightarrow> string \<Rightarrow> DlepMac option \<Rightarrow> ProtocolMessage res" where
  "simple_response env response_name status_name status_message mac =
     rbind (add_header (env_cfg env) response_name new_ProtocolMessage) (\<lambda>pm.
     rbind (if status_name \<noteq> '''' then add_status (env_cfg env) status_name status_message pm else Inr pm) (\<lambda>pm.
     rbind (case mac of None \<Rightarrow> Inr pm | Some m \<Rightarrow> add_mac (env_cfg env) m pm) (\<lambda>pm.
     reparse_assert env ''send_simple_response'' pm)))"

definition send_simple_response ::
    "session_env \<Rightarrow> string \<Rightarrow> string \<Rightarrow> string \<Rightarrow> DlepMac option \<Rightarrow> unit peer_comp" where
  "send_simple_response env response_name status_name status_message mac =
     bnd (should_send_response env) (\<lambda>sendit.
     when_do sendit
       (bnd (lift (simple_response env response_name status_name status_message mac))
         (\<lambda>pm. send_session_message (msgbuf pm))))"

text \<open>
  Whether the received message is the expected one, and the queue without its head. Inside
  the \<open>try\<close> block of the source only the lookup of the queue throws an exception.
\<close>

definition match_response :: "session_env \<Rightarrow> ProtocolMessage \<Rightarrow> DlepMac \<Rightarrow> bool peer_comp" where
  "match_response env pm destination =
     bnd (asks (\<lambda>p. smap_find (p_responses_pending p) destination)) (\<lambda>found.
     case found of
       None \<Rightarrow> ret False
     | Some q \<Rightarrow>
         (case q of
            [] \<Rightarrow> throw (Undefined ''front() of an empty queue'')
          | expected_response # rest \<Rightarrow>
              if pm_get_signal_id pm = Inr (rp_response_id expected_response)
              then next_do
                     (case rest of
                        [] \<Rightarrow> change (\<lambda>p. p\<lparr>p_responses_pending := smap_erase destination (p_responses_pending p)\<rparr>)
                      | front # _ \<Rightarrow>
                          next_do (change (\<lambda>p. p\<lparr>p_responses_pending :=
                                     smap_insert destination rest (p_responses_pending p)\<rparr>))
                            (send_message_expecting_response env front))
                     (ret True)
              else ret False))"

definition handle_response :: "session_env \<Rightarrow> ProtocolMessage \<Rightarrow> bool peer_comp" where
  "handle_response env pm =
     bnd (lift (pm_get_signal_name (env_cfg env) pm)) (\<lambda>received_response_name.
     bnd (lift (message_destination (env_cfg env) pm)) (\<lambda>destination.
     bnd (match_response env pm destination) (\<lambda>response_ok.
     next_do (when_do (\<not> response_ok) (terminate env ''Unexpected_Message'' received_response_name))
       (ret response_ok))))"

section \<open>Timers\<close>

definition schedule_acktivity_timer :: "unit peer_comp" where
  "schedule_acktivity_timer = act Start_acktivity_timer"

text \<open>
  \<open>unsigned int active_time = last_receive_time + peer_heartbeat_interval_sec *
  heartbeat_threshold\<close>: the product is computed in 32 bits, the sum in 64 and cut to 32.
\<close>

definition active_time :: "int \<Rightarrow> u32 \<Rightarrow> u32 \<Rightarrow> u32" where
  "active_time last_receive_time interval threshold = of_int (last_receive_time + uint (interval * threshold))"

definition check_for_activity :: "session_env \<Rightarrow> bool peer_comp" where
  "check_for_activity env =
     bnd (asks (\<lambda>p. p)) (\<lambda>p.
     if p_heartbeat_interval_sec p = 0 then ret True
     else bnd (lift (cp_unsigned (env_params env) ''heartbeat-threshold'')) (\<lambda>heartbeat_threshold.
       if uint (active_time (p_last_receive_time p) (p_heartbeat_interval_sec p) heartbeat_threshold) \<le> env_time env
       then next_do (terminate env ''Timed_Out'' '''') (ret False)
       else ret True))"

text \<open>The loop over the queues, \<open>dests\<close> being those still to be looked at.\<close>

fun retransmit_loop :: "session_env \<Rightarrow> u32 \<Rightarrow> u32 \<Rightarrow> DlepMac list \<Rightarrow> unit peer_comp" where
  "retransmit_loop env response_timeout send_tries [] = ret ()"
| "retransmit_loop env response_timeout send_tries (d # dests) =
     bnd (asks (\<lambda>p. smap_find (p_responses_pending p) d)) (\<lambda>found.
     case found of
       Some (expected_response # _) \<Rightarrow>
         if rp_send_time expected_response + uint response_timeout < env_time env
         then if rp_send_tries expected_response < send_tries
              then next_do (send_message_expecting_response env expected_response)
                     (retransmit_loop env response_timeout send_tries dests)
              else terminate env ''Timed_Out'' ''''
         else retransmit_loop env response_timeout send_tries dests
     | _ \<Rightarrow> retransmit_loop env response_timeout send_tries dests)"

definition check_for_retransmits :: "session_env \<Rightarrow> unit peer_comp" where
  "check_for_retransmits env =
     bnd (asks p_responses_pending) (\<lambda>pending.
     when_do (pending \<noteq> [])
       (bnd (lift (cp_unsigned (env_params env) ''ack-timeout'')) (\<lambda>response_timeout.
        bnd (lift (cp_unsigned (env_params env) ''send-tries'')) (\<lambda>send_tries.
        retransmit_loop env response_timeout send_tries (map fst pending)))))"

datatype timer_error = Timer_ok | Timer_aborted | Timer_failed

definition handle_acktivity_timeout :: "session_env \<Rightarrow> timer_error \<Rightarrow> unit peer_comp" where
  "handle_acktivity_timeout env error =
     (if error = Timer_aborted then ret ()
      else next_do
        (when_do (error = Timer_ok)
          (bnd (check_for_activity env) (\<lambda>active. when_do active (check_for_retransmits env))))
        (bnd (asks p_state) (\<lambda>st. when_do (st \<noteq> Terminating) schedule_acktivity_timer)))"

definition schedule_heartbeat :: "session_env \<Rightarrow> unit peer_comp" where
  "schedule_heartbeat env =
     bnd (lift (cp_unsigned (env_params env) ''heartbeat-interval'')) (\<lambda>heartbeat_interval.
     when_do (heartbeat_interval > 0) (act (Start_heartbeat_timer heartbeat_interval)))"

definition handle_heartbeat_timeout :: "session_env \<Rightarrow> timer_error \<Rightarrow> unit peer_comp" where
  "handle_heartbeat_timeout env error =
     (if error = Timer_aborted then ret ()
      else next_do
        (bnd (asks (\<lambda>p. p)) (\<lambda>p.
         when_do (error = Timer_ok \<and> p_state p = In_session)
           (send_session_message (msgbuf (p_heartbeat_msg p)))))
        (schedule_heartbeat env))"

section \<open>Sending\<close>

text \<open>
  Header, MAC address and data items of a message about a destination, parsed and validated
  for the log only: the verdict of \<open>validate\<close> is ignored.
\<close>

definition destination_message ::
    "session_env \<Rightarrow> string \<Rightarrow> string \<Rightarrow> DlepMac \<Rightarrow> DataItem list \<Rightarrow> ProtocolMessage res" where
  "destination_message env func msg_name mac items =
     rbind (add_header (env_cfg env) msg_name new_ProtocolMessage) (\<lambda>pm.
     rbind (add_mac (env_cfg env) mac pm) (\<lambda>pm.
     rbind (add_data_items (env_cfg env) items pm) (\<lambda>pm.
     rbind (reparse env func pm) (\<lambda>(pm, _). Inr pm))))"

text \<open>The message \<open>Peer::destination_up\<close> sends: its name, and whether it is a response.\<close>

definition destination_up_name :: "session_env \<Rightarrow> DlepMac \<Rightarrow> Peer \<Rightarrow> string \<times> bool" where
  "destination_up_name env mac p =
     (let response = needs_response mac (p_pdp p)
      in if response \<noteq> '''' then (response, True)
         else (if \<not> env_modem env \<and> \<not> isl (get_signal_id (env_cfg env) ''Destination_Announce'')
               then ''Destination_Announce'' else ''Destination_Up'', False))"

definition peer_destination_up :: "session_env \<Rightarrow> DlepMac \<Rightarrow> DataItem list \<Rightarrow> unit peer_comp" where
  "peer_destination_up env destination_mac initial_data_items =
     bnd (asks (destination_up_name env destination_mac)) (\<lambda>(msg_name, is_response).
     next_do (when_do is_response
       (change (\<lambda>p. p\<lparr>p_pdp := set_needs_response destination_mac '''' (p_pdp p)\<rparr>)))
     (bnd (lift (rbind (add_header (env_cfg env) msg_name new_ProtocolMessage) (\<lambda>pm.
                 rbind (add_mac (env_cfg env) destination_mac pm) (\<lambda>pm.
                 rbind (add_data_items (env_cfg env) initial_data_items pm) (\<lambda>pm.
                 rbind (add_common_data_items (env_cfg env) (env_params env) pm) (\<lambda>pm.
                 rbind (reparse env ''destination_up'' pm) (\<lambda>(pm, _). Inr pm))))))) (\<lambda>pm.
      if is_response then send_session_message (msgbuf pm) else send_expecting env pm)))"

definition peer_destination_down :: "session_env \<Rightarrow> DlepMac \<Rightarrow> DataItem list \<Rightarrow> unit peer_comp" where
  "peer_destination_down env destination_mac items =
     bnd (lift (destination_message env ''destination_down'' ''Destination_Down'' destination_mac items))
       (send_expecting env)"

definition peer_destination_update :: "session_env \<Rightarrow> DlepMac \<Rightarrow> DataItem list \<Rightarrow> unit peer_comp" where
  "peer_destination_update env mac updates =
     bnd (asks (is_not_interested mac)) (\<lambda>uninterested.
     if uninterested then ret ()
     else bnd (lift (destination_message env ''destination_update'' ''Destination_Update'' mac updates))
            (\<lambda>pm. send_session_message (msgbuf pm)))"

definition peer_update :: "session_env \<Rightarrow> DataItem list \<Rightarrow> bool peer_comp" where
  "peer_update env updates =
     bnd (asks p_state) (\<lambda>st.
     if st = In_session
     then bnd (lift (rbind (add_header (env_cfg env) ''Session_Update'' new_ProtocolMessage) (\<lambda>pm.
                     rbind (add_data_items (env_cfg env) updates pm) (\<lambda>pm.
                     rbind (reparse env ''peer_update'' pm) (\<lambda>(pm, _). Inr pm))))) (\<lambda>pm.
          next_do (send_expecting env pm) (ret True))
     else ret False)"

definition link_characteristics_request :: "session_env \<Rightarrow> DlepMac \<Rightarrow> DataItem list \<Rightarrow> unit peer_comp" where
  "link_characteristics_request env mac requests =
     bnd (lift (destination_message env ''link_characteristics_request'' ''Link_Characteristics_Request'' mac requests))
       (send_expecting env)"

definition link_characteristics_response :: "session_env \<Rightarrow> DlepMac \<Rightarrow> DataItem list \<Rightarrow> unit peer_comp" where
  "link_characteristics_response env mac updates =
     bnd (should_send_response env) (\<lambda>sendit.
     when_do sendit
       (bnd (lift (destination_message env ''link_characteristics_response'' ''Link_Characteristics_Response''
                     mac updates)) (\<lambda>pm. send_session_message (msgbuf pm))))"

text \<open>The calls the information base makes on a peer.\<close>

definition run_peer_call :: "session_env \<Rightarrow> peer_call \<Rightarrow> unit peer_comp" where
  "run_peer_call env call =
     (case call of
        Call_destination_up mac items \<Rightarrow> peer_destination_up env mac items
      | Call_destination_update mac items \<Rightarrow> peer_destination_update env mac items
      | Call_destination_down mac items \<Rightarrow> peer_destination_down env mac items
      | Call_peer_update items \<Rightarrow> bnd (peer_update env items) (\<lambda>_. ret ()))"

text \<open>The client may replace the data items of a message that opens a session.\<close>

definition offer_to_client :: "session_env \<Rightarrow> ProtocolMessage \<Rightarrow> ProtocolMessage peer_comp" where
  "offer_to_client env pm =
     bnd (asks p_peer_id) (\<lambda>i.
     next_do (act (Client_peer_init i (data_items pm)))
     (case env_peer_init env i (data_items pm) of
        (modified, items) \<Rightarrow>
          if modified
          then lift (rbind (rebuild_from_data_items (env_ip env) (env_cfg env) (env_modem env) items pm)
                 (\<lambda>(pm', _). Inr pm'))
          else ret pm))"

definition MAX_SIGNAL_SIZE :: nat where
  "MAX_SIGNAL_SIZE = 1024 * 64"

definition start_peer :: "session_env \<Rightarrow> unit peer_comp" where
  "start_peer env =
     bnd (asks p_heartbeat_msg) (\<lambda>hb.
     bnd (lift (rbind (add_header (env_cfg env) ''Heartbeat'' hb) (\<lambda>pm.
                rbind (add_common_data_items (env_cfg env) (env_params env) pm) (\<lambda>pm.
                reparse_assert env ''start_peer'' pm)))) (\<lambda>hb'.
     next_do (change (\<lambda>p. p\<lparr>p_heartbeat_msg := hb'\<rparr>))
     (next_do schedule_acktivity_timer
     (next_do (act (Read_some MAX_SIGNAL_SIZE))
     (when_do (\<not> env_modem env)
       (bnd (lift (rbind (add_header (env_cfg env) ''Session_Initialization'' new_ProtocolMessage) (\<lambda>pm.
                   rbind (add_common_data_items (env_cfg env) (env_params env) pm) (\<lambda>pm.
                   let v_extid = get_extension_ids (env_cfg env)
                   in rbind (if v_extid \<noteq> [] then add_extensions (env_cfg env) v_extid pm else Inr pm) (\<lambda>pm.
                      reparse_assert env ''start_peer'' pm))))) (\<lambda>pm.
        bnd (offer_to_client env pm) (send_expecting env))))))))"

definition send_peer_initialization_response :: "session_env \<Rightarrow> unit peer_comp" where
  "send_peer_initialization_response env =
     bnd (asks p_mutual_extensions) (\<lambda>exts.
     bnd (lift (rbind (add_header (env_cfg env) ''Session_Initialization_Response'' new_ProtocolMessage) (\<lambda>pm.
                rbind (add_common_data_items (env_cfg env) (env_params env) pm) (\<lambda>pm.
                rbind (if exts \<noteq> [] then add_extensions (env_cfg env) exts pm else Inr pm) (\<lambda>pm.
                rbind (add_allowed_data_items (env_cfg env) (get_data_items (env_local_pdp env)) pm) (\<lambda>pm.
                rbind (reparse env ''send_peer_initialization_response'' pm) (\<lambda>(pm, _). Inr pm))))))) (\<lambda>pm.
     bnd (offer_to_client env pm) (\<lambda>pm.
     bnd (should_send_response env) (\<lambda>sendit.
     when_do sendit (send_session_message (msgbuf pm))))))"

section \<open>Checks on received data items\<close>

text \<open>
  The peers as the session sees them now: among them it finds itself, with the data it holds
  at this moment.
\<close>

definition peers_now :: "session_env \<Rightarrow> Peer \<Rightarrow> PeerData list" where
  "peers_now env p = map (\<lambda>(i, pd). if i = p_peer_id p then p_pdp p else pd) (env_peers env)"

text \<open>The first owner of an address among the peers, \<open>""\<close> if none.\<close>

fun find_ip_in_peers :: "DataItem \<Rightarrow> PeerData list \<Rightarrow> string" where
  "find_ip_in_peers di [] = ''''"
| "find_ip_in_peers di (pd # pds) =
     (let ip_owner = peer_find_ip di pd in if ip_owner \<noteq> '''' then ip_owner else find_ip_in_peers di pds)"

definition ip_owner_of :: "session_env \<Rightarrow> Peer \<Rightarrow> DataItem \<Rightarrow> string" where
  "ip_owner_of env p di =
     (let ip_owner = peer_find_ip di (env_local_pdp env)
      in if ip_owner = '''' then find_ip_in_peers di (peers_now env p) else ip_owner)"

fun validate_ip_data_items :: "session_env \<Rightarrow> Peer \<Rightarrow> DataItem list \<Rightarrow> DataItem list \<Rightarrow> string res" where
  "validate_ip_data_items env p [] existing = Inr ''''"
| "validate_ip_data_items env p (ndi # ndis) existing =
     rbind (is_ipaddr (env_cfg env) (di_id ndi) None) (\<lambda>ip.
     if \<not> ip then validate_ip_data_items env p ndis existing
     else if ip_adding ndi
     then let ip_owner = ip_owner_of env p ndi
          in if ip_owner \<noteq> ''''
             then rbind (data_item_to_string (env_ip env) (env_cfg env) None ndi) (\<lambda>s.
                  Inr (''cannot add '' @ s @ '', '' @ ip_owner @ '' already has it''))
             else validate_ip_data_items env p ndis existing
     else if find_ip_data_item ndi existing = None
     then rbind (data_item_to_string (env_ip env) (env_cfg env) None ndi) (\<lambda>s.
          Inr (''cannot remove '' @ s @ '', it is not there''))
     else validate_ip_data_items env p ndis existing)"

definition check_ip :: "session_env \<Rightarrow> DataItem list \<Rightarrow> DataItem list \<Rightarrow> string peer_comp" where
  "check_ip env items existing = bnd (asks (\<lambda>p. validate_ip_data_items env p items existing)) lift"

definition extension_is_active :: "session_env \<Rightarrow> string \<Rightarrow> Peer \<Rightarrow> bool res" where
  "extension_is_active env extension_name p =
     (case get_module_info (env_cfg env) extension_name of
        Inl _ \<Rightarrow> Inr False
      | Inr m \<Rightarrow> Inr (mi_extension_id m \<in> set (p_mutual_extensions p)))"

definition get_info :: "Peer \<Rightarrow> PeerInfo" where
  "get_info p = \<lparr>pi_peer_id = p_peer_id p, pi_peer_type = p_peer_type p, pi_extensions = p_mutual_extensions p,
     pi_experiment_names = p_experiment_names p, pi_data_items = get_data_items (p_pdp p),
     pi_destinations = getDestinations (p_pdp p), pi_heartbeat_interval = p_heartbeat_interval p\<rparr>"

section \<open>Handlers of session messages\<close>

definition heartbeat_divisor :: "string \<Rightarrow> u32" where
  "heartbeat_divisor units =
     (if units = ''milliseconds'' then 1000 else if units = ''microseconds'' then 1000000 else 1)"

definition heartbeat_seconds :: "u32 \<Rightarrow> u32 \<Rightarrow> u32" where
  "heartbeat_seconds interval divisor =
     (if divisor > 1 then (interval + divisor div 2) div divisor else interval)"

definition store_heartbeat_interval :: "session_env \<Rightarrow> ProtocolMessage \<Rightarrow> unit peer_comp" where
  "store_heartbeat_interval env pm =
     bnd (lift (get_heartbeat_interval (env_cfg env) pm)) (\<lambda>interval.
     bnd (lift (get_data_item_info_by_name (env_cfg env) ''Heartbeat_Interval'')) (\<lambda>di_info.
     change (\<lambda>p. p\<lparr>p_heartbeat_interval := interval,
       p_heartbeat_interval_sec := heartbeat_seconds interval (heartbeat_divisor (dii_units di_info))\<rparr>)))"

text \<open>The optional peer type and experiment names of a message that opens a session.\<close>

definition store_peer_type :: "session_env \<Rightarrow> ProtocolMessage \<Rightarrow> unit peer_comp" where
  "store_peer_type env pm =
     (case get_peer_type (env_cfg env) pm of
        Inr t \<Rightarrow> change (\<lambda>p. p\<lparr>p_peer_type := t\<rparr>)
      | Inl e \<Rightarrow> if is_DataItemNotPresent e then ret () else throw e)"

definition store_experiment_names :: "session_env \<Rightarrow> ProtocolMessage \<Rightarrow> unit peer_comp" where
  "store_experiment_names env pm =
     (case pm_get_experiment_names (env_cfg env) pm of
        Inr ns \<Rightarrow> change (\<lambda>p. p\<lparr>p_experiment_names := ns\<rparr>)
      | Inl e \<Rightarrow> if is_DataItemNotPresent e \<or> is_BadDataItemName e then ret () else throw e)"

text \<open>The session is up: tell the client, send our destinations, start heartbeats.\<close>

definition session_up :: "session_env \<Rightarrow> (PeerInfo \<Rightarrow> PeerInfo) \<Rightarrow> unit peer_comp" where
  "session_up env f =
     next_do (set_state In_session)
     (next_do (bnd (asks get_info) (\<lambda>info. act (Client_peer_up (f info))))
     (next_do (each (run_peer_call env) (sendAllDestinations (env_local_pdp env)))
       (schedule_heartbeat env)))"

definition add_mutual_extensions :: "session_env \<Rightarrow> ProtocolMessage \<Rightarrow> unit peer_comp" where
  "add_mutual_extensions env pm =
     (case get_extensions (env_cfg env) pm of
        Inr peer_extensions \<Rightarrow>
          change (\<lambda>p. p\<lparr>p_mutual_extensions := p_mutual_extensions p @
            filter (\<lambda>extid. extid \<in> set (get_extension_ids (env_cfg env))) peer_extensions\<rparr>)
      | Inl e \<Rightarrow> if is_DataItemNotPresent e then ret () else throw e)"

definition handle_peer_initialization :: "session_env \<Rightarrow> ProtocolMessage \<Rightarrow> unit peer_comp" where
  "handle_peer_initialization env pm =
     bnd (check_ip env (data_items pm) []) (\<lambda>status_message.
     if status_message \<noteq> '''' then terminate env ''Inconsistent_Data'' status_message
     else
       next_do (store_peer_type env pm)
       (next_do (store_experiment_names env pm)
       (next_do (store_heartbeat_interval env pm)
       (next_do (add_mutual_extensions env pm)
       (next_do (send_peer_initialization_response env)
       (next_do (session_up env (\<lambda>info. info))
       (when_do (env_advert_enabled env)
         (bnd (lift (cp_string (env_params env) ''discovery-iface'')) (\<lambda>_.
          case env_peer_mac env of None \<Rightarrow> ret () | Some mac \<Rightarrow> act (Advert_add_destination mac))))))))))"

text \<open>\<open>peer_pdp->update_data_items(data_items, false)\<close>\<close>

definition update_peer_data :: "session_env \<Rightarrow> DataItem list \<Rightarrow> string peer_comp" where
  "update_peer_data env items =
     bnd (asks p_pdp) (\<lambda>pdp.
     bnd (lift (update_data_items (env_cfg env) [] items False pdp)) (\<lambda>(pdp', update_status, _).
     next_do (change (\<lambda>p. p\<lparr>p_pdp := pdp'\<rparr>)) (ret update_status)))"

definition handle_peer_initialization_response :: "session_env \<Rightarrow> ProtocolMessage \<Rightarrow> unit peer_comp" where
  "handle_peer_initialization_response env pm =
     bnd (handle_response env pm) (\<lambda>expected.
     when_do expected
       (next_do (store_peer_type env pm)
       (next_do (store_experiment_names env pm)
       (next_do (store_heartbeat_interval env pm)
       (next_do (case get_extensions (env_cfg env) pm of
                   Inr exts \<Rightarrow> change (\<lambda>p. p\<lparr>p_mutual_extensions := exts\<rparr>)
                 | Inl e \<Rightarrow> if is_DataItemNotPresent e then ret () else throw e)
       (next_do (update_peer_data env (data_items pm))
         (session_up env (\<lambda>info. info\<lparr>pi_data_items := data_items pm\<rparr>))))))))"

definition handle_peer_update :: "session_env \<Rightarrow> ProtocolMessage \<Rightarrow> unit peer_comp" where
  "handle_peer_update env pm =
     bnd (asks (\<lambda>p. p)) (\<lambda>p.
     bnd (check_ip env (data_items pm) (pd_ip_data_items (p_pdp p))) (\<lambda>status_message.
     if status_message \<noteq> '''' then terminate env ''Inconsistent_Data'' status_message
     else bnd (update_peer_data env (data_items pm)) (\<lambda>update_status.
       next_do (act (Client_peer_update (p_peer_id p) (data_items pm)))
         (send_simple_response env ''Session_Update_Response'' update_status '''' None))))"

definition handle_peer_update_response :: "session_env \<Rightarrow> ProtocolMessage \<Rightarrow> unit peer_comp" where
  "handle_peer_update_response env pm = bnd (handle_response env pm) (\<lambda>_. ret ())"

definition handle_peer_termination :: "session_env \<Rightarrow> ProtocolMessage \<Rightarrow> unit peer_comp" where
  "handle_peer_termination env pm =
     next_do (send_simple_response env ''Session_Termination_Response'' '''' '''' None) (stop_peer env)"

definition handle_peer_termination_response :: "session_env \<Rightarrow> ProtocolMessage \<Rightarrow> unit peer_comp" where
  "handle_peer_termination_response env pm =
     bnd (asks p_state) (\<lambda>st.
     when_do (st = Terminating) (bnd (handle_response env pm) (\<lambda>_. stop_peer env)))"

section \<open>Handlers of destination messages\<close>

text \<open>A destination the peer names again is no longer one it is not interested in.\<close>

definition regain_interest :: "DlepMac \<Rightarrow> unit peer_comp" where
  "regain_interest mac = change (\<lambda>p. p\<lparr>p_not_interested := removeAll mac (p_not_interested p)\<rparr>)"

text \<open>\<open>dlep_client.destination_up\<close>, with the empty status name turned into Success.\<close>

definition ask_client_destination_up :: "session_env \<Rightarrow> DlepMac \<Rightarrow> DataItem list \<Rightarrow> string peer_comp" where
  "ask_client_destination_up env mac items =
     bnd (asks p_peer_id) (\<lambda>i.
     next_do (act (Client_destination_up i mac items))
       (let statusname = env_destination_up env i mac items
        in ret (if statusname = '''' then ''Success'' else statusname)))"

text \<open>\<open>peer_pdp->addDestination(mac, items, false)\<close> and \<open>assert(ok)\<close>\<close>

definition add_peer_destination :: "session_env \<Rightarrow> DlepMac \<Rightarrow> DataItem list \<Rightarrow> unit peer_comp" where
  "add_peer_destination env mac items =
     bnd (asks p_pdp) (\<lambda>pdp.
     bnd (lift (addDestination (env_cfg env) [] mac items False pdp)) (\<lambda>(pdp', ok, _).
     next_do (change (\<lambda>p. p\<lparr>p_pdp := pdp'\<rparr>)) (bnd (lift (assert_that ok ''ok'')) (\<lambda>_. ret ()))))"

text \<open>Answer a destination message, if the configuration gives it a response.\<close>

definition respond_destination ::
    "session_env \<Rightarrow> ProtocolMessage \<Rightarrow> string \<Rightarrow> DlepMac \<Rightarrow> unit peer_comp" where
  "respond_destination env pm statusname mac =
     bnd (lift (rbind (pm_get_signal_name (env_cfg env) pm) (get_message_response_name (env_cfg env))))
       (\<lambda>response_name.
     when_do (response_name \<noteq> '''') (send_simple_response env response_name statusname '''' (Some mac)))"

definition handle_destination_up :: "session_env \<Rightarrow> ProtocolMessage \<Rightarrow> unit peer_comp" where
  "handle_destination_up env pm =
     bnd (lift (get_mac (env_cfg env) pm)) (\<lambda>mac.
     bnd (lift (pm_get_signal_name (env_cfg env) pm)) (\<lambda>_.
     bnd (asks (\<lambda>p. validDestination mac (p_pdp p))) (\<lambda>already_have_this_dest.
     if already_have_this_dest then respond_destination env pm ''Invalid_Message'' mac
     else bnd (check_ip env (data_items pm) []) (\<lambda>status_message.
       if status_message \<noteq> '''' then terminate env ''Inconsistent_Data'' status_message
       else next_do (regain_interest mac)
         (bnd (ask_client_destination_up env mac (data_items pm)) (\<lambda>statusname.
          next_do (when_do (statusname = ''Success'') (add_peer_destination env mac (data_items pm)))
            (respond_destination env pm statusname mac)))))))"

text \<open>
  The verdict of the status data item of a response: \<open>False\<close> when it is there and not
  Success. The exceptions of \<open>get_status\<close> other than its absence escape.
\<close>

definition response_successful :: "session_env \<Rightarrow> ProtocolMessage \<Rightarrow> DlepMac \<Rightarrow> bool peer_comp" where
  "response_successful env pm mac =
     (case get_status (env_cfg env) pm of
        Inr status_name \<Rightarrow>
          next_do (when_do (status_name = ''Not_Interested'') (not_interested mac))
            (ret (status_name = ''Success''))
      | Inl e \<Rightarrow> if is_DataItemNotPresent e then ret True else throw e)"

definition handle_destination_up_response :: "session_env \<Rightarrow> ProtocolMessage \<Rightarrow> unit peer_comp" where
  "handle_destination_up_response env pm =
     bnd (lift (get_mac (env_cfg env) pm)) (\<lambda>mac.
     bnd (lift (pm_get_signal_name (env_cfg env) pm)) (\<lambda>_.
     bnd (handle_response env pm) (\<lambda>expected.
     when_do expected
       (bnd (response_successful env pm mac) (\<lambda>successful.
        when_do (successful \<and> \<not> env_modem env) (handle_destination_up env pm))))))"

definition remember_response :: "DlepMac \<Rightarrow> string \<Rightarrow> unit peer_comp" where
  "remember_response mac response_name =
     change (\<lambda>p. p\<lparr>p_pdp := set_needs_response mac response_name (p_pdp p)\<rparr>)"

text \<open>The last part of \<open>handle_destination_announce\<close>.\<close>

definition announce_answer :: "session_env \<Rightarrow> string \<Rightarrow> string \<Rightarrow> DlepMac \<Rightarrow> unit peer_comp" where
  "announce_answer env response_name statusname mac =
     (if statusname = ''Success'' then remember_response mac response_name
      else send_simple_response env response_name statusname '''' (Some mac))"

definition handle_destination_announce :: "session_env \<Rightarrow> ProtocolMessage \<Rightarrow> unit peer_comp" where
  "handle_destination_announce env pm =
     bnd (lift (get_mac (env_cfg env) pm)) (\<lambda>mac.
     bnd (lift (rbind (pm_get_signal_name (env_cfg env) pm) (get_message_response_name (env_cfg env))))
       (\<lambda>response_name.
     bnd (lift (assert_that (response_name \<noteq> '''') ''response_name'')) (\<lambda>_.
     bnd (asks (\<lambda>p. validDestination mac (p_pdp p))) (\<lambda>already_have_this_dest.
     if already_have_this_dest then announce_answer env response_name ''Invalid_Message'' mac
     else next_do (regain_interest mac)
       (next_do (add_peer_destination env mac (data_items pm))
       (case getDestinationData mac (env_local_pdp env) of
          Some ddp \<Rightarrow>
            next_do (remember_response mac response_name)
              (peer_destination_up env mac (get_all_data_items ddp))
        | None \<Rightarrow>
            bnd (ask_client_destination_up env mac (data_items pm)) (\<lambda>statusname.
            announce_answer env response_name statusname mac)))))))"

definition handle_destination_announce_response :: "session_env \<Rightarrow> ProtocolMessage \<Rightarrow> unit peer_comp" where
  "handle_destination_announce_response env pm = handle_destination_up_response env pm"

text \<open>\<open>ddp->update(items, false)\<close> on a destination of the peer.\<close>

definition update_peer_destination :: "session_env \<Rightarrow> DlepMac \<Rightarrow> DataItem list \<Rightarrow> unit peer_comp" where
  "update_peer_destination env mac items =
     bnd (asks p_pdp) (\<lambda>pdp.
     bnd (lift (updateDestination (env_cfg env) [] mac items False pdp)) (\<lambda>(pdp', _, _).
     change (\<lambda>p. p\<lparr>p_pdp := pdp'\<rparr>)))"

definition handle_destination_update :: "session_env \<Rightarrow> ProtocolMessage \<Rightarrow> unit peer_comp" where
  "handle_destination_update env pm =
     bnd (lift (get_mac (env_cfg env) pm)) (\<lambda>mac.
     bnd (asks (\<lambda>p. p)) (\<lambda>p.
     case getDestinationData mac (p_pdp p) of
       Some ddp \<Rightarrow>
         bnd (lift (get_data_items_no_mac (env_cfg env) pm)) (\<lambda>updates.
         bnd (check_ip env updates (dd_ip_data_items ddp)) (\<lambda>status_message.
         if status_message \<noteq> '''' then terminate env ''Inconsistent_Data'' status_message
         else next_do (update_peer_destination env mac updates)
                (act (Client_destination_update (p_peer_id p) mac updates))))
     | None \<Rightarrow> terminate env ''Invalid_Message'' ''''))"

definition handle_destination_down :: "session_env \<Rightarrow> ProtocolMessage \<Rightarrow> unit peer_comp" where
  "handle_destination_down env pm =
     bnd (lift (get_mac (env_cfg env) pm)) (\<lambda>mac.
     bnd (asks (\<lambda>p. p)) (\<lambda>p.
     case removeDestination [] mac False [] (p_pdp p) of
       (pdp', ok, _) \<Rightarrow>
         if \<not> ok \<and> \<not> validDestination mac (env_local_pdp env)
         then terminate env ''Invalid_Destination'' ''''
         else next_do (if ok then change (\<lambda>p. p\<lparr>p_pdp := pdp'\<rparr>) else not_interested mac)
           (bnd (lift (get_data_items_no_mac (env_cfg env) pm)) (\<lambda>items.
            next_do (act (Client_destination_down (p_peer_id p) mac items))
              (send_simple_response env ''Destination_Down_Response'' ''Success'' '''' (Some mac))))))"

definition handle_destination_down_response :: "session_env \<Rightarrow> ProtocolMessage \<Rightarrow> unit peer_comp" where
  "handle_destination_down_response env pm =
     bnd (lift (get_mac (env_cfg env) pm)) (\<lambda>_. bnd (handle_response env pm) (\<lambda>_. ret ()))"

fun metric_data_items :: "ProtocolConfig \<Rightarrow> DataItem list \<Rightarrow> DataItem list res" where
  "metric_data_items cfg [] = Inr []"
| "metric_data_items cfg (di # dis) =
     rbind (is_metric cfg (di_id di) None) (\<lambda>m.
     rbind (metric_data_items cfg dis) (\<lambda>rest. Inr (if m then di # rest else rest)))"

definition handle_link_characteristics_request :: "session_env \<Rightarrow> ProtocolMessage \<Rightarrow> unit peer_comp" where
  "handle_link_characteristics_request env pm =
     bnd (lift (get_mac (env_cfg env) pm)) (\<lambda>mac.
     bnd (lift (get_data_items_no_mac (env_cfg env) pm)) (\<lambda>items.
     case getDestinationData mac (env_local_pdp env) of
       None \<Rightarrow> terminate env ''Invalid_Destination'' ''''
     | Some ddp \<Rightarrow>
         if items = []
         then bnd (lift (metric_data_items (env_cfg env) (get_all_data_items ddp)))
                (link_characteristics_response env mac)
         else bnd (asks p_peer_id) (\<lambda>i. act (Client_linkchar_request i mac items))))"

definition handle_link_characteristics_response :: "session_env \<Rightarrow> ProtocolMessage \<Rightarrow> unit peer_comp" where
  "handle_link_characteristics_response env pm =
     bnd (lift (get_mac (env_cfg env) pm)) (\<lambda>mac.
     bnd (handle_response env pm) (\<lambda>expected.
     when_do expected
       (bnd (asks (\<lambda>p. p)) (\<lambda>p.
        if validDestination mac (p_pdp p)
        then bnd (lift (get_data_items_no_mac (env_cfg env) pm)) (\<lambda>items.
             next_do (update_peer_destination env mac items)
               (act (Client_linkchar_reply (p_peer_id p) mac items)))
        else terminate env ''Invalid_Destination'' ''''))))"

definition handle_heartbeat :: "unit peer_comp" where
  "handle_heartbeat = ret ()"

section \<open>Dispatch\<close>

definition check_status_code_failure :: "session_env \<Rightarrow> ProtocolMessage \<Rightarrow> bool peer_comp" where
  "check_status_code_failure env pm =
     bnd (lift (pm_get_signal_name (env_cfg env) pm)) (\<lambda>msgname.
     if msgname = ''Session_Termination'' \<or> msgname = ''Session_Termination_Response'' then ret False
     else (case get_status (env_cfg env) pm of
             Inl e \<Rightarrow> if is_DataItemNotPresent e then ret False else throw e
           | Inr status_name \<Rightarrow>
               bnd (lift (get_status_code_info (env_cfg env) status_name)) (\<lambda>sc_info.
               if sc_failure_mode sc_info = ''terminate''
               then next_do (terminate env status_name '''') (ret True)
               else ret False)))"

definition dispatch :: "session_env \<Rightarrow> string \<Rightarrow> ProtocolMessage \<Rightarrow> unit peer_comp" where
  "dispatch env msgname pm =
     (if msgname = ''Heartbeat'' then handle_heartbeat
      else if msgname = ''Destination_Update'' then handle_destination_update env pm
      else if msgname = ''Destination_Up'' then
        (if env_modem env then handle_destination_announce env pm else handle_destination_up env pm)
      else if msgname = ''Destination_Up_Response'' then handle_destination_up_response env pm
      else if msgname = ''Destination_Announce'' then handle_destination_announce env pm
      else if msgname = ''Destination_Announce_Response'' then handle_destination_announce_response env pm
      else if msgname = ''Destination_Down'' then handle_destination_down env pm
      else if msgname = ''Destination_Down_Response'' then handle_destination_down_response env pm
      else if msgname = ''Link_Characteristics_Request'' then handle_link_characteristics_request env pm
      else if msgname = ''Link_Characteristics_Response'' then handle_link_characteristics_response env pm
      else if msgname = ''Session_Update'' then handle_peer_update env pm
      else if msgname = ''Session_Update_Response'' then handle_peer_update_response env pm
      else if msgname = ''Session_Initialization'' then handle_peer_initialization env pm
      else if msgname = ''Session_Initialization_Response'' then handle_peer_initialization_response env pm
      else if msgname = ''Session_Termination'' then handle_peer_termination env pm
      else if msgname = ''Session_Termination_Response'' then handle_peer_termination_response env pm
      else ret ())"

definition handle_peer_signal :: "session_env \<Rightarrow> bytes \<Rightarrow> unit peer_comp" where
  "handle_peer_signal env buf =
     bnd (lift (parse_and_validate_buffer (env_ip env) (env_cfg env) buf False (\<not> env_modem env)
                  ''handle_peer_signal'' new_ProtocolMessage)) (\<lambda>(pm, err).
     if err \<noteq> '''' then terminate env ''Invalid_Message'' err
     else bnd (check_status_code_failure env pm) (\<lambda>failed.
       if failed then ret ()
       else bnd (lift (pm_get_signal_name (env_cfg env) pm)) (\<lambda>msgname. dispatch env msgname pm)))"

section \<open>Receiving\<close>

text \<open>
  The loop over the complete messages in the buffer; its value is what is left. A message
  of size 0, which only a wrapped length can give, would be handled again for ever.
\<close>

function receive_loop :: "session_env \<Rightarrow> bytes \<Rightarrow> bytes peer_comp" where
  "receive_loop env buf p =
     (case is_complete_message (env_cfg env) buf 0 of
        Inl e \<Rightarrow> Inl e
      | Inr (complete, msg_size) \<Rightarrow>
          if \<not> complete then Inr (buf, p)
          else (case handle_peer_signal env (take (unat msg_size) buf) p of
                  Inl e \<Rightarrow> Inl e
                | Inr (_, p') \<Rightarrow>
                    if msg_size = 0 \<or> buf = [] then Inl Hang
                    else receive_loop env (drop (unat msg_size) buf) p'))"
  by auto
termination
  by (relation "measure (\<lambda>(env, buf, p). length buf)") (auto simp: unat_gt_0)

declare receive_loop.simps [simp del]

datatype receive_error = Receive_ok | Receive_message_size | Receive_aborted | Receive_eof | Receive_failed

text \<open>\<open>bytes_recvd\<close> are the bytes the read appended to the buffer.\<close>

definition handle_session_receive :: "session_env \<Rightarrow> receive_error \<Rightarrow> bytes \<Rightarrow> unit peer_comp" where
  "handle_session_receive env error bytes_recvd =
     (if error = Receive_aborted then ret ()
      else if error = Receive_eof then stop_peer env
      else next_do
        (when_do (error \<noteq> Receive_failed)
          (bnd (asks (\<lambda>p. p_recv_buffer p @ bytes_recvd)) (\<lambda>buf.
           next_do (change (\<lambda>p. p\<lparr>p_last_receive_time := env_time env\<rparr>))
           (bnd (receive_loop env buf) (\<lambda>rest. change (\<lambda>p. p\<lparr>p_recv_buffer := rest\<rparr>))))))
        (bnd (asks (\<lambda>p. MAX_SIGNAL_SIZE - length (p_recv_buffer p))) (\<lambda>room. act (Read_some room))))"

text \<open>The destinations of a peer, as \<open>Dlep\<close> asks for them.\<close>

definition get_destination :: "DlepMac \<Rightarrow> Peer \<Rightarrow> DestinationData option" where
  "get_destination mac p = getDestinationData mac (p_pdp p)"

text \<open>The calls on the other peers are returned, for \<open>Dlep\<close> to make them.\<close>

definition remove_destination ::
    "string list \<Rightarrow> DlepMac \<Rightarrow> DataItem list \<Rightarrow> Peer \<Rightarrow> Peer \<times> bool \<times> (string \<times> peer_call) list" where
  "remove_destination peers mac items p =
     (case removeDestination peers mac True items (p_pdp p) of
        (pdp', ok, calls) \<Rightarrow> (p\<lparr>p_pdp := pdp'\<rparr>, ok, calls))"

end
