(* ===== verification/PeerSteps.thy ===== *)
theory PeerSteps
  imports Peer
begin

text \<open>
  The events of a session and the sessions they lead to, and what an invariant of a session
  has to satisfy: it is enough that the few operations that touch the queues of pending
  responses, the session state, the data of the peer and the recorded actions keep it. The
  locale \<open>session_invariant\<close> states this contract and derives that every handler keeps the
  invariant; each invariant is then an interpretation.
\<close>

section \<open>Events\<close>

datatype event =
    Start
  | Receive receive_error bytes
  | Acktivity_timeout timer_error
  | Heartbeat_timeout timer_error
  | Peer_call peer_call
  | Linkchar_request DlepMac "DataItem list"
  | Linkchar_response DlepMac "DataItem list"
  | Terminate string string
  | Cancel

fun handle_event :: "session_env \<Rightarrow> event \<Rightarrow> unit peer_comp" where
  "handle_event env Start = start_peer env"
| "handle_event env (Receive error bs) = handle_session_receive env error bs"
| "handle_event env (Acktivity_timeout error) = handle_acktivity_timeout env error"
| "handle_event env (Heartbeat_timeout error) = handle_heartbeat_timeout env error"
| "handle_event env (Peer_call call) = run_peer_call env call"
| "handle_event env (Linkchar_request mac items) = link_characteristics_request env mac items"
| "handle_event env (Linkchar_response mac items) = link_characteristics_response env mac items"
| "handle_event env (Terminate status_name reason) = terminate env status_name reason"
| "handle_event env Cancel = cancel_session"

text \<open>
  The sessions reached when every event finds an environment that satisfies \<open>E\<close>; the
  environment may differ from event to event.
\<close>

inductive session :: "(session_env \<Rightarrow> bool) \<Rightarrow> Peer \<Rightarrow> bool" for E where
  new: "E env \<Longrightarrow> new_Peer env i = Inr p \<Longrightarrow> session E p"
| event: "session E p \<Longrightarrow> E env \<Longrightarrow> handle_event env ev p = Inr ((), p') \<Longrightarrow> session E p'"
| remove: "session E p \<Longrightarrow> remove_destination peers mac items p = (p', ok, calls) \<Longrightarrow> session E p'"

text \<open>What a session does to the data of its peer.\<close>

inductive pd_step :: "ProtocolConfig \<Rightarrow> PeerData \<Rightarrow> PeerData \<Rightarrow> bool" for cfg where
  add: "addDestination cfg peers mac dis t pd = Inr (pd', b, calls) \<Longrightarrow> pd_step cfg pd pd'"
| update: "updateDestination cfg peers mac dis t pd = Inr (pd', b, calls) \<Longrightarrow> pd_step cfg pd pd'"
| remove: "removeDestination peers mac t dis pd = (pd', b, calls) \<Longrightarrow> pd_step cfg pd pd'"
| items: "update_data_items cfg peers dis t pd = Inr (pd', s, calls) \<Longrightarrow> pd_step cfg pd pd'"
| needs: "pd_step cfg pd (set_needs_response mac r pd)"

fun is_peer_down :: "action \<Rightarrow> bool" where
  "is_peer_down (Client_peer_down i) = True"
| "is_peer_down _ = False"

fun is_peer_up :: "action \<Rightarrow> bool" where
  "is_peer_up (Client_peer_up info) = True"
| "is_peer_up _ = False"

text \<open>The fields no invariant of interest depends on.\<close>

definition same_core :: "Peer \<Rightarrow> Peer \<Rightarrow> bool" where
  "same_core p q \<longleftrightarrow> p_pdp p = p_pdp q \<and> p_state p = p_state q \<and> p_peer_id p = p_peer_id q
     \<and> p_responses_pending p = p_responses_pending q
     \<and> p_next_ref p = p_next_ref q \<and> p_actions p = p_actions q"

section \<open>Invariants\<close>

locale session_invariant =
  fixes cfg :: ProtocolConfig and env :: session_env and I :: "Peer \<Rightarrow> bool"
  assumes cfg: "env_cfg env = cfg"
    and core: "same_core p q \<Longrightarrow> I p \<Longrightarrow> I q"
    and acts: "\<not> is_peer_down a \<Longrightarrow> \<not> is_peer_up a \<Longrightarrow> I p \<Longrightarrow> I (p\<lparr>p_actions := p_actions p @ [a]\<rparr>)"
    and data: "I p \<Longrightarrow> pd_step cfg (p_pdp p) pd \<Longrightarrow> I (p\<lparr>p_pdp := pd\<rparr>)"
    and expecting: "keeps I (send_expecting env pm)"
    and resend: "I p \<Longrightarrow> smap_find (p_responses_pending p) d = Some (e # rest) \<Longrightarrow>
      rp_send_time e + uint (timeout :: u32) < env_time env \<Longrightarrow>
      cp_unsigned (env_params env) ''send-tries'' = Inr tries \<Longrightarrow> rp_send_tries e < tries \<Longrightarrow>
      send_message_expecting_response env e p = Inr (u, p') \<Longrightarrow> I p'"
    and matched: "keeps I (match_response env pm d)"
    and down: "keeps I (set_state_terminating env)"
    and up: "keeps I (next_do (set_state In_session) (bnd (asks get_info) (\<lambda>info. act (Client_peer_up (f info)))))"
begin

lemma change_core: "(\<And>p. same_core p (f p)) \<Longrightarrow> keeps I (change f)"
  using core by (auto simp: triple_def comp_simps)

lemma act: "\<not> is_peer_down a \<Longrightarrow> \<not> is_peer_up a \<Longrightarrow> keeps I (act a)"
  using acts by (auto simp: triple_def act_def comp_simps)

lemma change_data: "(\<And>p. I p \<Longrightarrow> pd_step cfg (p_pdp p) (g p)) \<Longrightarrow> keeps I (change (\<lambda>p. p\<lparr>p_pdp := g p\<rparr>))"
  using data by (auto simp: triple_def comp_simps)

lemmas rules = triple_rules act change_core expecting matched down

lemma keeps_send: "keeps I (send_session_message b)"
  unfolding send_session_message_def by (rule act) simp_all

lemma keeps_stop_peer: "keeps I (stop_peer env)"
  unfolding stop_peer_def stop_timers_def by (intro rules) simp_all

lemma keeps_terminate: "keeps I (terminate env s r)"
  unfolding terminate_def by (intro rules keeps_stop_peer) simp_all

lemma keeps_should_send: "keeps I (should_send_response env)"
  unfolding should_send_response_def by (intro rules) (simp add: same_core_def)

lemma keeps_simple_response: "keeps I (send_simple_response env n s m mac)"
  unfolding send_simple_response_def by (intro rules keeps_should_send keeps_send)

lemma keeps_handle_response: "keeps I (handle_response env pm)"
  unfolding handle_response_def by (intro rules keeps_terminate)

lemma keeps_check_activity: "keeps I (check_for_activity env)"
  unfolding check_for_activity_def by (intro rules keeps_terminate)

lemma keeps_retransmit_loop:
  assumes "cp_unsigned (env_params env) ''send-tries'' = Inr tries"
  shows "keeps I (retransmit_loop env timeout tries dests)"
proof (induction dests)
  case (Cons d dests)
  have step: "I p'" if inv: "I p" and run: "retransmit_loop env timeout tries (d # dests) p = Inr (u, p')" for p u p'
  proof -
    consider (skip) "retransmit_loop env timeout tries dests p = Inr (u, p')"
      | (stop) "terminate env ''Timed_Out'' '''' p = Inr (u, p')"
      | (again) e rest u1 p1 where "smap_find (p_responses_pending p) d = Some (e # rest)"
          "rp_send_time e + uint timeout < env_time env" "rp_send_tries e < tries"
          "send_message_expecting_response env e p = Inr (u1, p1)"
          "retransmit_loop env timeout tries dests p1 = Inr (u, p')"
      using run by (auto simp: comp_simps split: option.splits list.splits if_splits sum.splits)
    then show ?thesis
    proof cases
      case again
      then have "I p1" using resend[OF inv again(1,2) assms again(3,4)] by simp
      with again Cons.IH show ?thesis by (blast dest: tripleD)
    qed (use inv Cons.IH keeps_terminate in \<open>blast dest: tripleD\<close>)+
  qed
  show ?case by (rule tripleI) (rule step)
qed (simp add: triple_rules)

lemma keeps_check_retransmits: "keeps I (check_for_retransmits env)"
proof -
  have "keeps I (bnd (lift (cp_unsigned (env_params env) ''send-tries'')) (\<lambda>tries. retransmit_loop env t tries ds))" for t ds
  proof (cases "cp_unsigned (env_params env) ''send-tries''")
    case (Inr tries)
    have "bnd (lift (Inr tries)) (\<lambda>tries. retransmit_loop env t tries ds) = retransmit_loop env t tries ds"
      by (rule ext) (simp add: comp_simps)
    with Inr keeps_retransmit_loop[OF Inr] show ?thesis by simp
  qed (simp add: triple_def comp_simps)
  then show ?thesis
    unfolding check_for_retransmits_def
    by (rule keeps_bnd[OF keeps_asks keeps_when_do[OF keeps_bnd[OF keeps_lift]]])
qed

lemma keeps_acktivity: "keeps I (handle_acktivity_timeout env error)"
  unfolding handle_acktivity_timeout_def schedule_acktivity_timer_def
  by (intro rules keeps_check_activity keeps_check_retransmits) simp_all

lemma keeps_schedule_heartbeat: "keeps I (schedule_heartbeat env)"
  unfolding schedule_heartbeat_def by (intro rules) simp_all

lemma keeps_heartbeat_timeout: "keeps I (handle_heartbeat_timeout env error)"
  unfolding handle_heartbeat_timeout_def by (intro rules keeps_send keeps_schedule_heartbeat)

lemma keeps_destination_up: "keeps I (peer_destination_up env mac items)"
  unfolding peer_destination_up_def
  by (intro rules keeps_send change_data pd_step.needs)

lemma keeps_destination_down: "keeps I (peer_destination_down env mac items)"
  unfolding peer_destination_down_def by (intro rules)

lemma keeps_destination_update: "keeps I (peer_destination_update env mac items)"
  unfolding peer_destination_update_def by (intro rules keeps_send)

lemma keeps_peer_update: "keeps I (peer_update env items)"
  unfolding peer_update_def by (intro rules)

lemma keeps_linkchar_request: "keeps I (link_characteristics_request env mac items)"
  unfolding link_characteristics_request_def by (intro rules)

lemma keeps_linkchar_response: "keeps I (link_characteristics_response env mac items)"
  unfolding link_characteristics_response_def by (intro rules keeps_should_send keeps_send)

lemma keeps_peer_call: "keeps I (run_peer_call env call)"
  unfolding run_peer_call_def
  by (cases call) (auto intro!: rules keeps_destination_up keeps_destination_down keeps_destination_update keeps_peer_update)

lemma keeps_offer: "keeps I (offer_to_client env pm)"
  unfolding offer_to_client_def by (intro rules) simp_all

lemma keeps_start_peer: "keeps I (start_peer env)"
  unfolding start_peer_def schedule_acktivity_timer_def
  by (intro rules keeps_offer) (simp_all add: same_core_def)

lemma keeps_init_response: "keeps I (send_peer_initialization_response env)"
  unfolding send_peer_initialization_response_def by (intro rules keeps_offer keeps_should_send keeps_send)

lemma keeps_store:
  "keeps I (store_heartbeat_interval env pm)" "keeps I (store_peer_type env pm)"
  "keeps I (store_experiment_names env pm)" "keeps I (add_mutual_extensions env pm)"
  unfolding store_heartbeat_interval_def store_peer_type_def store_experiment_names_def add_mutual_extensions_def
  by (intro rules; simp add: same_core_def)+

lemma keeps_session_up: "keeps I (session_up env f)"
proof -
  have "session_up env f = next_do
      (next_do (set_state In_session) (bnd (asks get_info) (\<lambda>info. act (Client_peer_up (f info)))))
      (next_do (each (run_peer_call env) (sendAllDestinations (env_local_pdp env))) (schedule_heartbeat env))"
    by (rule ext) (auto simp: session_up_def comp_simps split: sum.splits)
  moreover have "keeps I (next_do (each (run_peer_call env) calls) (schedule_heartbeat env))" for calls
    by (intro rules keeps_peer_call keeps_schedule_heartbeat)
  ultimately show ?thesis by (simp add: keeps_next_do up)
qed

lemma keeps_check_ip: "keeps I (check_ip env items existing)"
  unfolding check_ip_def by (intro rules)

text \<open>A step of the data: read it, compute the new one, store it.\<close>

lemma keeps_data_step:
  assumes "\<And>pd pd' x y. r pd = Inr (pd', x, y) \<Longrightarrow> pd_step cfg pd pd'" and "\<And>x y. keeps I (k x y)"
  shows "keeps I (bnd (asks p_pdp) (\<lambda>pd. bnd (lift (r pd)) (\<lambda>(pd', x, y).
    next_do (change (\<lambda>p. p\<lparr>p_pdp := pd'\<rparr>)) (k x y))))"
proof (rule tripleI)
  fix p u p'
  assume inv: "I p" and run: "bnd (asks p_pdp) (\<lambda>pd. bnd (lift (r pd)) (\<lambda>(pd', x, y).
    next_do (change (\<lambda>p. p\<lparr>p_pdp := pd'\<rparr>)) (k x y))) p = Inr (u, p')"
  then obtain pd' x y where "r (p_pdp p) = Inr (pd', x, y)" and k: "k x y (p\<lparr>p_pdp := pd'\<rparr>) = Inr (u, p')"
    by (auto simp: comp_simps split: sum.splits)
  then have "I (p\<lparr>p_pdp := pd'\<rparr>)" using assms(1) data inv by blast
  with k assms(2) show "I p'" by (blast dest: tripleD)
qed

lemma keeps_data_step_last:
  assumes "\<And>pd pd' x y. r pd = Inr (pd', x, y) \<Longrightarrow> pd_step cfg pd pd'"
  shows "keeps I (bnd (asks p_pdp) (\<lambda>pd. bnd (lift (r pd)) (\<lambda>(pd', x, y). change (\<lambda>p. p\<lparr>p_pdp := pd'\<rparr>))))"
  using assms data by (auto simp: triple_def comp_simps split: sum.splits)

lemma keeps_add_destination: "keeps I (add_peer_destination env mac items)"
  unfolding add_peer_destination_def cfg by (intro keeps_data_step pd_step.add rules)

lemma keeps_update_destination: "keeps I (update_peer_destination env mac items)"
  unfolding update_peer_destination_def cfg by (intro keeps_data_step_last pd_step.update)

lemma keeps_peer_initialization: "keeps I (handle_peer_initialization env pm)"
  unfolding handle_peer_initialization_def
  by (intro rules keeps_check_ip keeps_terminate keeps_store keeps_init_response keeps_session_up) simp_all

lemma keeps_update_peer_data: "keeps I (update_peer_data env items)"
  unfolding update_peer_data_def cfg by (intro keeps_data_step pd_step.items rules)

lemma keeps_peer_initialization_response: "keeps I (handle_peer_initialization_response env pm)"
  unfolding handle_peer_initialization_response_def
  by (intro rules keeps_handle_response keeps_store keeps_session_up keeps_update_peer_data)
    (simp_all add: same_core_def)

lemma keeps_peer_update_received: "keeps I (handle_peer_update env pm)"
  unfolding handle_peer_update_def
  by (intro rules keeps_check_ip keeps_terminate keeps_update_peer_data keeps_simple_response) simp_all

lemma keeps_respond: "keeps I (respond_destination env pm s mac)"
  unfolding respond_destination_def by (intro rules keeps_simple_response)

lemma keeps_regain: "keeps I (regain_interest mac)" "keeps I (not_interested mac)"
  unfolding regain_interest_def not_interested_def by (intro change_core; simp add: same_core_def)+

lemma keeps_ask: "keeps I (ask_client_destination_up env mac items)"
  unfolding ask_client_destination_up_def Let_def by (intro rules) simp_all

lemma keeps_handle_destination_up: "keeps I (handle_destination_up env pm)"
  unfolding handle_destination_up_def
  by (intro rules keeps_check_ip keeps_respond keeps_terminate keeps_regain keeps_ask keeps_add_destination)

lemma keeps_handle_destination_up_response: "keeps I (handle_destination_up_response env pm)"
  unfolding handle_destination_up_response_def response_successful_def
  by (intro rules keeps_handle_response keeps_regain keeps_handle_destination_up)

lemma keeps_remember: "keeps I (remember_response mac r)"
  unfolding remember_response_def by (rule change_data) (rule pd_step.needs)

lemma keeps_announce_answer: "keeps I (announce_answer env r s mac)"
  unfolding announce_answer_def by (intro rules keeps_remember keeps_simple_response)

lemma keeps_handle_announce: "keeps I (handle_destination_announce env pm)"
  unfolding handle_destination_announce_def
  by (intro rules keeps_announce_answer keeps_regain keeps_add_destination keeps_remember keeps_destination_up keeps_ask)

lemma keeps_handle_destination_update: "keeps I (handle_destination_update env pm)"
  unfolding handle_destination_update_def
  by (intro rules keeps_check_ip keeps_terminate keeps_update_destination) simp_all

lemma keeps_handle_destination_down: "keeps I (handle_destination_down env pm)"
proof (rule tripleI)
  fix p u p'
  assume inv: "I p" and run: "handle_destination_down env pm p = Inr (u, p')"
  obtain mac where mac: "get_mac cfg pm = Inr mac"
    using run by (cases "get_mac cfg pm") (auto simp: handle_destination_down_def cfg comp_simps)
  obtain pdp' ok calls where r: "removeDestination [] mac False [] (p_pdp p) = (pdp', ok, calls)"
    by (metis prod_cases3)
  let ?k = "bnd (lift (get_data_items_no_mac cfg pm)) (\<lambda>items.
    next_do (act (Client_destination_down (p_peer_id p) mac items))
      (send_simple_response env ''Destination_Down_Response'' ''Success'' '''' (Some mac)))"
  have k: "keeps I ?k" by (intro rules keeps_simple_response) simp_all
  from run mac r consider "terminate env ''Invalid_Destination'' '''' p = Inr (u, p')"
    | "?k (p\<lparr>p_pdp := pdp'\<rparr>) = Inr (u, p')" | p1 where "not_interested mac p = Inr ((), p1)" "?k p1 = Inr (u, p')"
    by (auto simp: handle_destination_down_def cfg comp_simps not_interested_def split: if_splits sum.splits)
  then show "I p'"
  proof cases
    case 1
    then show ?thesis using inv keeps_terminate by (blast dest: tripleD)
  next
    case 2
    have "I (p\<lparr>p_pdp := pdp'\<rparr>)" using data[OF inv] r pd_step.remove by blast
    then show ?thesis using tripleD[OF k] 2 by blast
  next
    case 3
    have "I p1" by (rule tripleD[OF keeps_regain(2) inv 3(1)])
    then show ?thesis using tripleD[OF k] 3 by blast
  qed
qed

lemma keeps_handle_destination_down_response: "keeps I (handle_destination_down_response env pm)"
  unfolding handle_destination_down_response_def by (intro rules keeps_handle_response)

lemma keeps_handle_linkchar_request: "keeps I (handle_link_characteristics_request env pm)"
  unfolding handle_link_characteristics_request_def
  by (intro rules keeps_terminate keeps_linkchar_response) simp_all

lemma keeps_handle_linkchar_response: "keeps I (handle_link_characteristics_response env pm)"
  unfolding handle_link_characteristics_response_def
  by (intro rules keeps_handle_response keeps_terminate keeps_update_destination) simp_all

lemma keeps_termination: "keeps I (handle_peer_termination env pm)" "keeps I (handle_peer_termination_response env pm)"
  unfolding handle_peer_termination_def handle_peer_termination_response_def
  by (intro rules keeps_simple_response keeps_stop_peer keeps_handle_response)+

lemma keeps_dispatch: "keeps I (dispatch env name pm)"
  unfolding dispatch_def handle_heartbeat_def handle_destination_announce_response_def handle_peer_update_response_def
  by (intro rules keeps_handle_destination_update keeps_handle_announce keeps_handle_destination_up
      keeps_handle_destination_up_response keeps_handle_destination_down keeps_handle_destination_down_response
      keeps_handle_linkchar_request keeps_handle_linkchar_response keeps_peer_update_received keeps_handle_response
      keeps_peer_initialization keeps_peer_initialization_response keeps_termination)

lemma keeps_status_failure: "keeps I (check_status_code_failure env pm)"
  unfolding check_status_code_failure_def by (intro rules keeps_terminate)

lemma keeps_signal: "keeps I (handle_peer_signal env buf)"
  unfolding handle_peer_signal_def by (intro rules keeps_terminate keeps_status_failure keeps_dispatch)

lemma keeps_receive_loop: "I p \<Longrightarrow> receive_loop env buf p = Inr (rest, p') \<Longrightarrow> I p'"
proof (induction "length buf" arbitrary: buf p rule: less_induct)
  case less
  from less.prems(2) consider "p' = p"
    | n p1 where "handle_peer_signal env (take n buf) p = Inr ((), p1)" "receive_loop env (drop n buf) p1 = Inr (rest, p')"
        "n > 0" "buf \<noteq> []"
    by (subst (asm) receive_loop.simps) (auto split: sum.splits if_splits simp: unat_gt_0)
  then show ?case
  proof cases
    case 2
    then have "I p1" using keeps_signal less.prems(1) by (blast dest: tripleD)
    then show ?thesis using less.hyps[of "drop n buf"] 2 by simp
  qed (use less.prems in simp)
qed

lemma keeps_receive: "keeps I (handle_session_receive env error bs)"
proof -
  have "keeps I (receive_loop env buf)" for buf by (rule tripleI) (rule keeps_receive_loop)
  then show ?thesis
    unfolding handle_session_receive_def by (intro rules keeps_stop_peer) (simp_all add: same_core_def)
qed

lemma keeps_event: "keeps I (handle_event env ev)"
  by (cases ev) (auto intro!: keeps_start_peer keeps_receive keeps_acktivity keeps_heartbeat_timeout keeps_peer_call
      keeps_linkchar_request keeps_linkchar_response keeps_terminate act simp: cancel_session_def)

end

section \<open>Invariants of all sessions\<close>

lemma remove_destination_step:
  "remove_destination peers mac items p = (p', ok, calls) \<Longrightarrow> \<exists>pd. p' = p\<lparr>p_pdp := pd\<rparr> \<and> pd_step cfg (p_pdp p) pd"
  by (auto simp: remove_destination_def split: prod.splits intro: pd_step.remove)

lemma session_env_exists: "session E p \<Longrightarrow> \<exists>env. E env"
  by (induction rule: session.induct) auto

lemma session_keeps:
  assumes "session E p"
    and inv: "\<And>env. E env \<Longrightarrow> session_invariant (env_cfg env) env I"
    and init: "\<And>env i p. E env \<Longrightarrow> new_Peer env i = Inr p \<Longrightarrow> I p"
  shows "I p"
  using assms(1)
proof (induction rule: session.induct)
  case (new env i p)
  then show ?case by (rule init)
next
  case (event p env ev p')
  then show ?case using session_invariant.keeps_event[OF inv] by (blast dest: tripleD)
next
  case (remove p peers mac items p' ok calls)
  obtain env where "E env" using session_env_exists[OF remove(1)] by blast
  with remove remove_destination_step[OF remove(2), of "env_cfg env"] session_invariant.data[OF inv] show ?case by blast
qed

lemma new_Peer_simps:
  assumes "new_Peer env i = Inr p"
  shows "p_responses_pending p = []" "p_actions p = []" "p_state p = Connected" "p_next_ref p = 0"
    "new_PeerData (env_cfg env) i [] = Inr (p_pdp p)"
  using assms by (auto simp: new_Peer_def res_simps)

end
