(* ===== verification/PeerQueues.thy ===== *)
theory PeerQueues
  imports PeerSteps
begin

text \<open>
  The queues of messages that await a response: DLEP lets a peer have one message in flight
  per destination. The invariants of the queues, what sending and receiving do to them, and
  the bound on retransmissions.
\<close>

section \<open>The invariant\<close>

definition queue_ok :: "DlepMac \<Rightarrow> nat \<Rightarrow> ResponsePending list \<Rightarrow> bool" where
  "queue_ok d n q \<longleftrightarrow> q \<noteq> [] \<and> distinct (map rp_ref q)
     \<and> list_all (\<lambda>rp. rp_destination rp = d \<and> rp_queued rp \<and> rp_response_id rp \<noteq> 0 \<and> rp_ref rp < n) q
     \<and> list_all (\<lambda>rp. rp_send_tries rp = 0) (tl q)"

definition queues_ok :: "Peer \<Rightarrow> bool" where
  "queues_ok p \<longleftrightarrow> smap_ok (p_responses_pending p)
     \<and> list_all (\<lambda>(d, q). queue_ok d (p_next_ref p) q) (p_responses_pending p)"

lemma queues_ok_iff:
  "queues_ok p \<longleftrightarrow> smap_ok (p_responses_pending p)
     \<and> (\<forall>d q. smap_find (p_responses_pending p) d = Some q \<longrightarrow> queue_ok d (p_next_ref p) q)"
  by (auto simp: queues_ok_def list_all_iff smap_find_set)

lemma queues_okD: "queues_ok p \<Longrightarrow> smap_find (p_responses_pending p) d = Some q \<Longrightarrow> queue_ok d (p_next_ref p) q"
  by (simp add: queues_ok_iff)

lemma queue_ok_mono: "queue_ok d n q \<Longrightarrow> n \<le> m \<Longrightarrow> queue_ok d m q"
  by (auto simp: queue_ok_def list_all_iff)

lemma queues_ok_insert:
  assumes "queues_ok p" and "queue_ok d n q" and "p_next_ref p \<le> n"
  shows "queues_ok (p\<lparr>p_next_ref := n, p_responses_pending := smap_insert d q (p_responses_pending p)\<rparr>)"
  using assms queue_ok_mono[OF _ assms(3)] by (auto simp: queues_ok_iff smap_simps)

text \<open>The queue of a destination, empty when there is none.\<close>

definition pending_for :: "DlepMac \<Rightarrow> Peer \<Rightarrow> ResponsePending list" where
  "pending_for d p = (case smap_find (p_responses_pending p) d of None \<Rightarrow> [] | Some q \<Rightarrow> q)"

lemma new_ResponsePending_simps:
  assumes "new_ResponsePending cfg pm r = Inr rp"
  shows "rp_ref rp = r" "rp_response_id rp \<noteq> 0" "\<not> rp_queued rp" "rp_send_tries rp = 0"
    "rp_msg_buffer rp = msgbuf pm" "message_destination cfg pm = Inr (rp_destination rp)"
  using assms by (auto simp: new_ResponsePending_def res_simps Let_def assert_that_def split: if_splits)

section \<open>Sending\<close>

text \<open>
  A new message goes to the end of the queue of its destination, and is sent at once exactly
  when the queue was empty.
\<close>

definition after_send :: "session_env \<Rightarrow> ProtocolMessage \<Rightarrow> ResponsePending \<Rightarrow> Peer \<Rightarrow> Peer" where
  "after_send env pm rp p =
     (let d = rp_destination rp; q = pending_for d p; p1 = p\<lparr>p_next_ref := Suc (p_next_ref p)\<rparr>
      in if is_not_interested d p then p1
         else if q = [] then p1\<lparr>p_actions := p_actions p @ [Send (msgbuf pm)], p_responses_pending := smap_insert d
            [rp\<lparr>rp_queued := True, rp_send_time := env_time env, rp_send_tries := 1\<rparr>] (p_responses_pending p)\<rparr>
         else p1\<lparr>p_responses_pending := smap_insert d (q @ [rp\<lparr>rp_queued := True\<rparr>]) (p_responses_pending p)\<rparr>)"

lemma send_expecting_total:
  assumes ok: "queues_ok p" and rp: "new_ResponsePending (env_cfg env) pm (p_next_ref p) = Inr rp"
  shows "send_expecting env pm p = Inr ((), after_send env pm rp p)"
proof -
  note new = new_ResponsePending_simps[OF rp]
  let ?d = "rp_destination rp"
  let ?q = "pending_for ?d p"
  have fresh: "rp_ref (hd ?q) \<noteq> rp_ref rp" if "?q \<noteq> []"
  proof -
    from that obtain f rest where q: "smap_find (p_responses_pending p) ?d = Some (f # rest)"
      by (cases ?q) (auto simp: pending_for_def split: option.splits)
    from queues_okD[OF ok q] have "rp_ref f < p_next_ref p" by (simp add: queue_ok_def)
    with q new show ?thesis by (simp add: pending_for_def)
  qed
  have "send_message_expecting_response env rp (p\<lparr>p_next_ref := Suc (p_next_ref p)\<rparr>) = Inr ((), after_send env pm rp p)"
  proof (cases ?q)
    case Nil
    then show ?thesis
      using new by (auto simp: send_message_expecting_response_def after_send_def send_head_def enqueue_def Let_def pending_for_def
          is_not_interested_def act_def send_session_message_def comp_simps smap_simps split: if_splits option.splits)
  next
    case (Cons f rest)
    with fresh have "rp_ref f \<noteq> rp_ref rp" by simp
    with Cons show ?thesis
      using new by (auto simp: send_message_expecting_response_def after_send_def send_head_def enqueue_def Let_def pending_for_def
          is_not_interested_def comp_simps smap_simps split: if_splits option.splits)
  qed
  with rp show ?thesis by (simp add: send_expecting_def make_ResponsePending_def comp_simps)
qed

lemma send_expecting_result:
  assumes ok: "queues_ok p" and run: "send_expecting env pm p = Inr (u, p')"
  obtains rp where "new_ResponsePending (env_cfg env) pm (p_next_ref p) = Inr rp"
    and "p' = after_send env pm rp p"
proof -
  from run obtain rp where rp: "new_ResponsePending (env_cfg env) pm (p_next_ref p) = Inr rp"
    by (auto simp: send_expecting_def make_ResponsePending_def comp_simps split: sum.splits)
  with send_expecting_total[OF ok rp] run show thesis by (intro that) simp_all
qed

lemma keeps_send_expecting: "keeps queues_ok (send_expecting env pm)"
proof (rule tripleI)
  fix p u p'
  assume ok: "queues_ok p" and run: "send_expecting env pm p = Inr (u, p')"
  from send_expecting_result[OF ok run] obtain rp where rp: "new_ResponsePending (env_cfg env) pm (p_next_ref p) = Inr rp"
    and p': "p' = after_send env pm rp p" .
  note new = new_ResponsePending_simps[OF rp]
  let ?d = "rp_destination rp"
  let ?q = "pending_for ?d p"
  have "?q = [] \<or> queue_ok ?d (p_next_ref p) ?q"
    using ok by (auto simp: queues_ok_iff pending_for_def split: option.splits)
  then have tail: "queue_ok ?d (Suc (p_next_ref p)) (?q @ [rp\<lparr>rp_queued := True\<rparr>])" if "?q \<noteq> []"
    using that new by (cases ?q) (auto simp: queue_ok_def list_all_iff)
  have one: "queue_ok ?d (Suc (p_next_ref p)) [rp\<lparr>rp_queued := True, rp_send_time := t, rp_send_tries := k\<rparr>]" for t k
    using new by (simp add: queue_ok_def)
  have grow: "queues_ok (p\<lparr>p_next_ref := Suc (p_next_ref p)\<rparr>)"
    using ok queue_ok_mono by (fastforce simp: queues_ok_iff)
  note ins = queues_ok_insert[OF ok _ le_SucI[OF order_refl]]
  have acts: "queues_ok (q\<lparr>p_actions := a\<rparr>) = queues_ok q" for q a by (simp add: queues_ok_def)
  show "queues_ok p'"
    unfolding p' after_send_def Let_def using grow ins[OF tail] ins[OF one] by (auto simp: queues_ok_def)
qed

text \<open>Sending the head of a queue, for the first time or again.\<close>

definition after_resend :: "session_env \<Rightarrow> DlepMac \<Rightarrow> ResponsePending \<Rightarrow> ResponsePending list \<Rightarrow> Peer \<Rightarrow> Peer" where
  "after_resend env d e rest p =
     (if is_not_interested d p then p
      else p\<lparr>p_actions := p_actions p @ [Send (rp_msg_buffer e)], p_responses_pending := smap_insert d
             (e\<lparr>rp_send_time := env_time env, rp_send_tries := rp_send_tries e + 1\<rparr> # rest) (p_responses_pending p)\<rparr>)"

lemma resend_result:
  assumes "smap_find (p_responses_pending p) d = Some (e # rest)" and "rp_destination e = d" and "rp_queued e"
  shows "send_message_expecting_response env e p = Inr ((), after_resend env d e rest p)"
  using assms by (simp add: send_message_expecting_response_def send_head_def after_resend_def act_def
      send_session_message_def comp_simps)

lemma queue_ok_head:
  "queue_ok d n (e # rest) \<Longrightarrow> queue_ok d n (e\<lparr>rp_send_time := t, rp_send_tries := k\<rparr> # rest)"
  by (simp add: queue_ok_def)

lemma queue_ok_tl: "queue_ok d n (e # rest) \<Longrightarrow> rest \<noteq> [] \<Longrightarrow> queue_ok d n rest"
  by (cases rest) (auto simp: queue_ok_def)

lemma queues_ok_set_queue:
  assumes "queues_ok p" and "queue_ok d (p_next_ref p) q"
  shows "queues_ok (p\<lparr>p_responses_pending := smap_insert d q (p_responses_pending p)\<rparr>)"
  using queues_ok_insert[OF assms order_refl] by simp

lemma queues_ok_erase:
  "queues_ok p \<Longrightarrow> queues_ok (p\<lparr>p_responses_pending := smap_erase d (p_responses_pending p)\<rparr>)"
  by (auto simp: queues_ok_iff smap_simps split: if_splits)

lemma queues_ok_after_resend:
  assumes "queues_ok p" and "smap_find (p_responses_pending p) d = Some (e # rest)"
  shows "queues_ok (after_resend env d e rest p)"
proof -
  have "queues_ok (p\<lparr>p_responses_pending := smap_insert d
      (e\<lparr>rp_send_time := t, rp_send_tries := k\<rparr> # rest) (p_responses_pending p)\<rparr>)" for t k
    using queues_ok_set_queue[OF assms(1) queue_ok_head[OF queues_okD[OF assms]]] .
  with assms(1) show ?thesis by (simp add: after_resend_def queues_ok_def)
qed

section \<open>Receiving a response\<close>

text \<open>
  What \<open>match_response\<close> does: the response is the expected one exactly when the queue of its
  destination is there and its head awaits this id; then the head leaves the queue and the
  next message, if there is one, is sent.
\<close>

definition response_expected :: "ProtocolMessage \<Rightarrow> DlepMac \<Rightarrow> Peer \<Rightarrow> bool" where
  "response_expected pm d p =
     (case pending_for d p of [] \<Rightarrow> False | e # _ \<Rightarrow> pm_get_signal_id pm = Inr (rp_response_id e))"

definition after_response :: "session_env \<Rightarrow> DlepMac \<Rightarrow> Peer \<Rightarrow> Peer" where
  "after_response env d p =
     (case tl (pending_for d p) of
        [] \<Rightarrow> p\<lparr>p_responses_pending := smap_erase d (p_responses_pending p)\<rparr>
      | e # rest \<Rightarrow>
          after_resend env d e rest (p\<lparr>p_responses_pending := smap_insert d (e # rest) (p_responses_pending p)\<rparr>))"

lemma match_response_result:
  assumes ok: "queues_ok p"
  shows "match_response env pm d p =
     Inr (response_expected pm d p, if response_expected pm d p then after_response env d p else p)"
proof (cases "smap_find (p_responses_pending p) d")
  case None
  then show ?thesis by (simp add: match_response_def response_expected_def pending_for_def comp_simps)
next
  case (Some q)
  from queues_okD[OF ok Some] obtain e rest where q: "q = e # rest" by (cases q) (auto simp: queue_ok_def)
  show ?thesis
  proof (cases rest)
    case Nil
    with Some q show ?thesis
      by (simp add: match_response_def response_expected_def after_response_def pending_for_def comp_simps)
  next
    case (Cons f fs)
    have f: "rp_destination f = d" "rp_queued f"
      using queues_okD[OF ok Some] q Cons by (auto simp: queue_ok_def)
    let ?p = "p\<lparr>p_responses_pending := smap_insert d (f # fs) (p_responses_pending p)\<rparr>"
    have "send_message_expecting_response env f ?p = Inr ((), after_resend env d f fs ?p)"
      by (rule resend_result) (simp_all add: f smap_simps)
    with Some q Cons show ?thesis
      by (simp add: match_response_def response_expected_def after_response_def pending_for_def comp_simps)
  qed
qed

lemma queues_ok_after_response:
  assumes "queues_ok p" and "pending_for d p \<noteq> []"
  shows "queues_ok (after_response env d p)"
proof -
  obtain e rest where q: "smap_find (p_responses_pending p) d = Some (e # rest)"
    using assms(2) by (cases "pending_for d p") (auto simp: pending_for_def split: option.splits)
  show ?thesis
  proof (cases rest)
    case Nil
    with q assms(1) show ?thesis by (simp add: after_response_def pending_for_def queues_ok_erase)
  next
    case (Cons f fs)
    have "queue_ok d (p_next_ref p) (f # fs)" using queue_ok_tl[OF queues_okD[OF assms(1) q]] Cons by simp
    from queues_ok_set_queue[OF assms(1) this]
    have "queues_ok (after_resend env d f fs (p\<lparr>p_responses_pending := smap_insert d (f # fs) (p_responses_pending p)\<rparr>))"
      by (rule queues_ok_after_resend) (simp add: smap_simps)
    with q Cons show ?thesis by (simp add: after_response_def pending_for_def)
  qed
qed

lemma keeps_match_response: "keeps queues_ok (match_response env pm d)"
  by (rule tripleI) (auto simp: match_response_result response_expected_def split: if_splits
      intro: queues_ok_after_response)

interpretation queues: session_invariant "env_cfg env" env queues_ok for env
proof unfold_locales
  show "keeps queues_ok (send_expecting env pm)" for pm by (rule keeps_send_expecting)
  show "keeps queues_ok (match_response env pm d)" for pm d by (rule keeps_match_response)
  fix p p' :: Peer and d e rest u and timeout tries :: u32
  assume ok: "queues_ok p" and q: "smap_find (p_responses_pending p) d = Some (e # rest)"
    and run: "send_message_expecting_response env e p = Inr (u, p')"
  have e: "rp_destination e = d" "rp_queued e" using queues_okD[OF ok q] by (simp_all add: queue_ok_def)
  from resend_result[OF q e, of env] run queues_ok_after_resend[OF ok q, of env] show "queues_ok p'" by simp
next
  show "keeps queues_ok (set_state_terminating env)"
    by (auto simp: triple_def set_state_terminating_def set_state_def act_def comp_simps queues_ok_def split: if_splits)
  show "keeps queues_ok (next_do (set_state In_session) (bnd (asks get_info) (\<lambda>info. act (Client_peer_up (f info)))))" for f
    by (auto simp: triple_def set_state_def act_def comp_simps queues_ok_def split: if_splits)
qed (auto simp: same_core_def queues_ok_def)

lemma session_queues_ok: "session E p \<Longrightarrow> queues_ok p"
  by (erule session_keeps, rule queues.session_invariant_axioms)
    (simp add: queues_ok_def smap_ok_def new_Peer_simps)

text \<open>
  C4: in every session, whatever is received, sent, lost or timed out, at most one message per
  destination is in flight. Each queue of pending responses is non-empty and holds distinct
  messages for its own destination that all expect a response, and only the head of a queue
  has ever been sent.
\<close>

theorem one_in_flight:
  assumes "session E p" and "smap_find (p_responses_pending p) d = Some q"
  shows "q \<noteq> [] \<and> distinct (map rp_ref q)
    \<and> list_all (\<lambda>rp. rp_destination rp = d \<and> rp_queued rp \<and> rp_response_id rp \<noteq> 0) q
    \<and> list_all (\<lambda>rp. rp_send_tries rp = 0) (tl q)"
proof -
  from queues_okD[OF session_queues_ok[OF assms(1)] assms(2)] show ?thesis
    by (auto simp: queue_ok_def list_all_iff)
qed

lemma pending_for_erase: "queues_ok p \<Longrightarrow>
   pending_for d' (p\<lparr>p_responses_pending := smap_erase d (p_responses_pending p)\<rparr>) =
     (if d' = d then [] else pending_for d' p)"
  by (simp add: pending_for_def queues_ok_iff smap_simps)

lemma pending_for_insert:
  "pending_for d' (p\<lparr>p_responses_pending := smap_insert d q (p_responses_pending p)\<rparr>) =
     (if d' = d then q else pending_for d' p)"
  by (simp add: pending_for_def smap_simps)

lemma pending_for_resend:
  assumes "pending_for d p = e # rest"
  shows "map rp_ref (pending_for d (after_resend env d e rest p)) = map rp_ref (e # rest)"
    and "d' \<noteq> d \<Longrightarrow> pending_for d' (after_resend env d e rest p) = pending_for d' p"
  using assms by (auto simp: after_resend_def pending_for_def smap_simps)

lemma after_response_effect:
  assumes "queues_ok p" and "pending_for d p \<noteq> []"
  shows "map rp_ref (pending_for d (after_response env d p)) = map rp_ref (tl (pending_for d p))"
    and "d' \<noteq> d \<Longrightarrow> pending_for d' (after_response env d p) = pending_for d' p"
    and "p_actions (after_response env d p) = p_actions p @
      (case tl (pending_for d p) of [] \<Rightarrow> [] | e # _ \<Rightarrow> if is_not_interested d p then [] else [Send (rp_msg_buffer e)])"
    and "p_state (after_response env d p) = p_state p"
proof -

  let ?p = "\<lambda>q. p\<lparr>p_responses_pending := smap_insert d q (p_responses_pending p)\<rparr>"
  show "map rp_ref (pending_for d (after_response env d p)) = map rp_ref (tl (pending_for d p))"
    using pending_for_resend(1)[of d "?p (tl (pending_for d p))"] pending_for_erase[OF assms(1)]
    by (auto simp: after_response_def pending_for_insert split: list.splits)
  show "pending_for d' (after_response env d p) = pending_for d' p" if "d' \<noteq> d"
    using that pending_for_resend(2)[of d "?p (tl (pending_for d p))"] pending_for_erase[OF assms(1)]
    by (auto simp: after_response_def pending_for_insert split: list.splits)
  show "p_actions (after_response env d p) = p_actions p @
      (case tl (pending_for d p) of [] \<Rightarrow> [] | e # _ \<Rightarrow> if is_not_interested d p then [] else [Send (rp_msg_buffer e)])"
    by (auto simp: after_response_def after_resend_def is_not_interested_def split: list.splits)
  show "p_state (after_response env d p) = p_state p"
    by (auto simp: after_response_def after_resend_def split: list.splits)
qed

text \<open>
  C5: \<open>handle_response\<close> accepts a response exactly when a message for its destination is in
  flight that expects it. It then removes that message from the queue of the destination and
  sends the next one (unless the peer is not interested in the destination), and touches no
  other queue; any other response terminates the session with Unexpected Message.
\<close>

theorem handle_response_correct:
  assumes "session E p" and "pm_get_signal_name (env_cfg env) pm = Inr name"
    and "message_destination (env_cfg env) pm = Inr d"
  shows "if response_expected pm d p
    then \<exists>p'. handle_response env pm p = Inr (True, p')
      \<and> map rp_ref (pending_for d p') = map rp_ref (tl (pending_for d p))
      \<and> (\<forall>d'. d' \<noteq> d \<longrightarrow> pending_for d' p' = pending_for d' p)
      \<and> p_actions p' = p_actions p @ (case tl (pending_for d p) of [] \<Rightarrow> []
          | e # _ \<Rightarrow> if is_not_interested d p then [] else [Send (rp_msg_buffer e)])
      \<and> p_state p' = p_state p
    else handle_response env pm p =
      bnd (terminate env ''Unexpected_Message'' name) (\<lambda>_. ret False) p"
proof -
  note ok = session_queues_ok[OF assms(1)]
  show ?thesis
  proof (cases "response_expected pm d p")
    case True
    then have "pending_for d p \<noteq> []" by (auto simp: response_expected_def)
    note effect = after_response_effect[OF ok this]
    have "handle_response env pm p = Inr (True, after_response env d p)"
      using True assms(2,3) by (simp add: handle_response_def match_response_result[OF ok] comp_simps)
    with True effect[where env = env] show ?thesis by auto
  next
    case False
    with assms(2,3) show ?thesis by (simp add: handle_response_def match_response_result[OF ok] comp_simps)
  qed
qed

section \<open>Retransmission\<close>

definition tries_ok :: "u32 \<Rightarrow> Peer \<Rightarrow> bool" where
  "tries_ok n p \<longleftrightarrow> (\<forall>d. \<forall>rp\<in>set (pending_for d p). rp_send_tries rp \<le> n)"

lemma tries_ok_change:
  assumes "tries_ok n p" and "\<And>d. set (pending_for d q) \<subseteq> set (pending_for d p) \<union> {rp. rp_send_tries rp \<le> n}"
  shows "tries_ok n q"
  using assms by (fastforce simp: tries_ok_def)

lemma pending_for_after_resend:
  "pending_for d' (after_resend env d e rest p) =
     (if is_not_interested d p \<or> d' \<noteq> d then pending_for d' p
      else e\<lparr>rp_send_time := env_time env, rp_send_tries := rp_send_tries e + 1\<rparr> # rest)"
  by (simp add: after_resend_def pending_for_def smap_simps)

lemma tries_ok_after_resend:
  assumes "tries_ok n p" and "pending_for d p = e # rest" and "rp_send_tries e < n"
  shows "tries_ok n (after_resend env d e rest p)"
proof -
  have "rp_send_tries e + 1 \<le> n" using assms(3) by (metis inc_le)
  then show ?thesis
    by (intro tries_ok_change[OF assms(1)]) (use assms(2) in \<open>auto simp: pending_for_after_resend\<close>)
qed

lemma tries_ok_after_send:
  assumes "tries_ok n p" and "rp_send_tries rp = 0" and "0 < n"
  shows "tries_ok n (after_send env pm rp p)"
proof -
  have "1 \<le> n" using assms(3) by (metis inc_le add.left_neutral)
  then show ?thesis
    by (intro tries_ok_change[OF assms(1)])
      (use assms(2) in \<open>auto simp: after_send_def Let_def pending_for_def smap_simps split: option.splits if_splits\<close>)
qed

lemma tries_ok_after_response:
  assumes ok: "queues_ok p" and "tries_ok n p" and "0 < n"
  shows "tries_ok n (after_response env d p)"
proof (cases "tl (pending_for d p)")
  case Nil
  then show ?thesis
    by (intro tries_ok_change[OF assms(2)]) (auto simp: after_response_def pending_for_erase[OF ok])
next
  case (Cons e rest)
  let ?p = "p\<lparr>p_responses_pending := smap_insert d (e # rest) (p_responses_pending p)\<rparr>"
  obtain f where q: "pending_for d p = f # e # rest" using Cons by (cases "pending_for d p") auto
  then have "smap_find (p_responses_pending p) d = Some (f # e # rest)" by (auto simp: pending_for_def split: option.splits)
  from queues_okD[OF ok this] have "rp_send_tries e < n" using assms(3) by (simp add: queue_ok_def)
  moreover have "tries_ok n ?p"
    by (intro tries_ok_change[OF assms(2)]) (use q in \<open>auto simp: pending_for_insert\<close>)
  moreover have "pending_for d ?p = e # rest" by (simp add: pending_for_insert)
  ultimately have "tries_ok n (after_resend env d e rest ?p)" by (intro tries_ok_after_resend)
  with Cons show ?thesis by (simp add: after_response_def)
qed

lemma tries_invariant:
  assumes tries: "cp_unsigned (env_params env) ''send-tries'' = Inr n" and "0 < n"
  shows "session_invariant (env_cfg env) env (\<lambda>p. queues_ok p \<and> tries_ok n p)"
proof unfold_locales
  show "keeps (\<lambda>p. queues_ok p \<and> tries_ok n p) (send_expecting env pm)" for pm
  proof (rule tripleI)
    fix p u p'
    assume ok: "queues_ok p \<and> tries_ok n p" and run: "send_expecting env pm p = Inr (u, p')"
    obtain rp where rp: "new_ResponsePending (env_cfg env) pm (p_next_ref p) = Inr rp" and "p' = after_send env pm rp p"
      by (rule send_expecting_result[OF _ run]) (use ok in auto)
    then show "queues_ok p' \<and> tries_ok n p'"
      using ok assms(2) new_ResponsePending_simps(4)[OF rp] tripleD[OF keeps_send_expecting _ run]
      by (auto intro: tries_ok_after_send)
  qed
  show "keeps (\<lambda>p. queues_ok p \<and> tries_ok n p) (match_response env pm d)" for pm d
    using tripleD[OF keeps_match_response] tries_ok_after_response assms(2)
    by (fastforce simp: match_response_result intro!: tripleI)
  fix p p' :: Peer and d e rest u and timeout tries' :: u32
  assume ok: "queues_ok p \<and> tries_ok n p" and q: "smap_find (p_responses_pending p) d = Some (e # rest)"
    and run: "send_message_expecting_response env e p = Inr (u, p')"
    and t: "cp_unsigned (env_params env) ''send-tries'' = Inr tries'" "rp_send_tries e < tries'"
  have e: "rp_destination e = d" "rp_queued e" using queues_okD[OF _ q] ok by (simp_all add: queue_ok_def)
  have "p' = after_resend env d e rest p" using resend_result[OF q e, of env] run by simp
  moreover have "pending_for d p = e # rest" using q by (simp add: pending_for_def)
  ultimately show "queues_ok p' \<and> tries_ok n p'"
    using ok t tries queues_ok_after_resend[OF _ q] tries_ok_after_resend by auto
next
  show "keeps (\<lambda>p. queues_ok p \<and> tries_ok n p) (set_state_terminating env)"
    by (auto simp: triple_def set_state_terminating_def set_state_def act_def comp_simps queues_ok_def tries_ok_def
        pending_for_def split: if_splits)
  show "keeps (\<lambda>p. queues_ok p \<and> tries_ok n p)
      (next_do (set_state In_session) (bnd (asks get_info) (\<lambda>info. act (Client_peer_up (f info)))))" for f
    by (auto simp: triple_def set_state_def act_def comp_simps queues_ok_def tries_ok_def pending_for_def split: if_splits)
qed (auto simp: same_core_def queues_ok_def tries_ok_def pending_for_def)


section \<open>Ending the session\<close>

lemma new_ResponsePending_ref:
  "new_ResponsePending cfg pm r = Inr rp \<Longrightarrow> new_ResponsePending cfg pm r' = Inr (rp\<lparr>rp_ref := r'\<rparr>)"
  by (auto simp: new_ResponsePending_def res_simps Let_def assert_that_def split: if_splits)

text \<open>The session once the client was told that the peer is down.\<close>

definition after_stop :: "session_env \<Rightarrow> Peer \<Rightarrow> Peer" where
  "after_stop env p = p\<lparr>p_state := Terminating, p_actions := p_actions p @ [Stop_timers, Client_peer_down (p_peer_id p)]
     @ (if env_advert_enabled env then [Advert_clear_destinations] else [])\<rparr>"

lemma stop_peer_result: "p_state p \<noteq> Terminating \<Longrightarrow> stop_peer env p = Inr ((), after_stop env p)"
  by (auto simp: stop_peer_def stop_timers_def set_state_terminating_def set_state_def act_def after_stop_def comp_simps)

lemma after_stop_simps [simp]:
  "queues_ok (after_stop env p) = queues_ok p" "pending_for d (after_stop env p) = pending_for d p"
  "is_not_interested d (after_stop env p) = is_not_interested d p" "p_peer_id (after_stop env p) = p_peer_id p"
  "p_next_ref (after_stop env p) = p_next_ref p" "p_state (after_stop env p) = Terminating"
  by (simp_all add: after_stop_def queues_ok_def pending_for_def is_not_interested_def)

lemma terminate_result:
  assumes "queues_ok p" and "p_state p \<noteq> Terminating" and "termination_message env s reason = Inr pm"
    and "new_ResponsePending (env_cfg env) pm 0 = Inr rp"
  shows "terminate env s reason p = Inr ((), (let p' = after_send env pm (rp\<lparr>rp_ref := p_next_ref p\<rparr>) (after_stop env p)
    in p'\<lparr>p_actions := p_actions p' @ [Info_remove_peer (p_peer_id p)]\<rparr>))"
proof -
  have "send_expecting env pm (after_stop env p) = Inr ((), after_send env pm (rp\<lparr>rp_ref := p_next_ref p\<rparr>) (after_stop env p))"
    by (rule send_expecting_total) (simp_all add: assms new_ResponsePending_ref[OF assms(4)])
  with assms(2,3) show ?thesis
    by (simp add: terminate_def stop_peer_result act_def comp_simps Let_def after_send_def)
qed

text \<open>
  C6: \<open>terminate\<close> takes a session down exactly once and in order: the timers are stopped, the
  client is told that the peer is down (and the destination advertiser, when enabled, forgets
  its destinations), the Session Termination message is put behind the messages of the session
  that still await a response, sent at once when there is none, and the peer is removed from
  the information base. On a session that is terminating it does nothing.
\<close>

theorem terminate_correct:
  assumes "session E p" and "termination_message env s reason = Inr pm"
    and "new_ResponsePending (env_cfg env) pm 0 = Inr rp"
  shows "if p_state p = Terminating then terminate env s reason p = Inr ((), p)
    else \<exists>p'. terminate env s reason p = Inr ((), p') \<and> p_state p' = Terminating
      \<and> p_actions p' = p_actions p @ [Stop_timers, Client_peer_down (p_peer_id p)]
          @ (if env_advert_enabled env then [Advert_clear_destinations] else [])
          @ (if is_not_interested (rp_destination rp) p \<or> pending_for (rp_destination rp) p \<noteq> [] then []
             else [Send (msgbuf pm)])
          @ [Info_remove_peer (p_peer_id p)]
      \<and> (\<forall>d. map rp_msg_buffer (pending_for d p') = map rp_msg_buffer (pending_for d p)
          @ (if d = rp_destination rp \<and> \<not> is_not_interested d p then [msgbuf pm] else []))"
proof (cases "p_state p = Terminating")
  case False
  note run = terminate_result[OF session_queues_ok[OF assms(1)] False assms(2,3)]
  have "rp_msg_buffer rp = msgbuf pm" by (rule new_ResponsePending_simps[OF assms(3)])
  then show ?thesis
    using False unfolding run
    by (auto simp: Let_def after_send_def after_stop_def pending_for_def smap_simps is_not_interested_def split: option.splits)
qed (simp add: terminate_def comp_simps)

lemma terminate_ends:
  assumes "queues_ok p" and "termination_message env s reason = Inr pm"
    and "new_ResponsePending (env_cfg env) pm 0 = Inr rp"
  obtains p' where "terminate env s reason p = Inr ((), p')" and "p_state p' = Terminating"
proof (cases "p_state p = Terminating")
  case True
  then show ?thesis by (intro that[of p]) (simp_all add: terminate_def comp_simps)
next
  case False
  from terminate_result[OF assms(1) False assms(2,3)] show ?thesis
    by (rule that) (simp add: Let_def after_send_def)
qed

text \<open>
  A message that was sent as often as allowed and is overdue: the next round ends the session.
\<close>

lemma retransmit_loop_terminates:
  assumes "queues_ok p" and "d \<in> set dests" and "pending_for d p = e # rest"
    and "rp_send_time e + uint timeout < env_time env" and "\<not> rp_send_tries e < tries"
    and pm: "termination_message env ''Timed_Out'' '''' = Inr pm" "new_ResponsePending (env_cfg env) pm 0 = Inr rp"
  shows "\<exists>p'. retransmit_loop env timeout tries dests p = Inr ((), p') \<and> p_state p' = Terminating"
  using assms(1-5)
proof (induction dests arbitrary: p)
  case (Cons d' dests)
  have find: "smap_find (p_responses_pending p) d = Some (e # rest)"
    using Cons.prems(3) by (auto simp: pending_for_def split: option.splits)
  obtain pt where stop: "terminate env ''Timed_Out'' '''' p = Inr ((), pt)" "p_state pt = Terminating"
    by (rule terminate_ends[OF Cons.prems(1) pm])
  show ?case
  proof (cases "d' = d")
    case True
    then show ?thesis using Cons.prems find stop by (simp add: comp_simps)
  next
    case False
    then have IH: "\<exists>p'. retransmit_loop env timeout tries dests p = Inr ((), p') \<and> p_state p' = Terminating"
      using Cons by simp
    show ?thesis
    proof (cases "smap_find (p_responses_pending p) d'")
      case None
      with IH show ?thesis by (simp add: comp_simps)
    next
      case (Some q)
      from queues_okD[OF Cons.prems(1) Some] obtain f fs where q: "q = f # fs"
        and f: "rp_destination f = d'" "rp_queued f" by (cases q) (auto simp: queue_ok_def)
      let ?p1 = "after_resend env d' f fs p"
      have send: "send_message_expecting_response env f p = Inr ((), ?p1)"
        using resend_result[OF _ f] Some q by simp
      have "queues_ok ?p1" using queues_ok_after_resend[OF Cons.prems(1)] Some q by simp
      moreover have "pending_for d ?p1 = e # rest" using False Cons.prems(3) by (simp add: pending_for_after_resend)
      ultimately have "\<exists>p'. retransmit_loop env timeout tries dests ?p1 = Inr ((), p') \<and> p_state p' = Terminating"
        using Cons.IH[of ?p1] Cons.prems False by simp
      with Some q IH stop send show ?thesis by (simp add: comp_simps)
    qed
  qed
qed simp

text \<open>
  C7: a peer that does not answer is given up. When the timer fires after the response to a
  message is overdue and the message was already sent \<open>send-tries\<close> times, the check for
  retransmissions returns with the session in state terminating.
\<close>

theorem unanswered_terminates:
  assumes "session E p" and "smap_find (p_responses_pending p) d = Some (e # rest)"
    and "cp_unsigned (env_params env) ''ack-timeout'' = Inr timeout"
    and "cp_unsigned (env_params env) ''send-tries'' = Inr tries"
    and "rp_send_time e + uint timeout < env_time env" and "\<not> rp_send_tries e < tries"
    and "termination_message env ''Timed_Out'' '''' = Inr pm" and "new_ResponsePending (env_cfg env) pm 0 = Inr rp"
  shows "\<exists>p'. check_for_retransmits env p = Inr ((), p') \<and> p_state p' = Terminating"
proof -
  note ok = session_queues_ok[OF assms(1)]
  have "d \<in> set (map fst (p_responses_pending p))" and "p_responses_pending p \<noteq> []"
    using smap_find_set[of "p_responses_pending p" d "e # rest"] ok assms(2) by (force simp: queues_ok_def)+
  moreover have "pending_for d p = e # rest" using assms(2) by (simp add: pending_for_def)
  ultimately show ?thesis
    using retransmit_loop_terminates[OF ok _ _ assms(5-8)] assms(3,4) by (simp add: check_for_retransmits_def comp_simps)
qed

end
