(* ===== verification/PeerReports.thy ===== *)
theory PeerReports
  imports PeerQueues
begin

text \<open>
  What the client learns about a session, and how a session ends. The reports \<open>peer_up\<close> and
  \<open>peer_down\<close> follow the session state, the data kept about the peer stays consistent, and
  \<open>terminate\<close> takes the session down in a fixed order.
\<close>

section \<open>Reports to the client\<close>

definition is_report :: "action \<Rightarrow> bool" where
  "is_report a \<longleftrightarrow> is_peer_up a \<or> is_peer_down a"

definition reports :: "Peer \<Rightarrow> action list" where
  "reports p = filter is_report (p_actions p)"

text \<open>The session state as the reports tell it.\<close>

definition reported_state :: "action list \<Rightarrow> PeerState" where
  "reported_state rs = (if rs = [] then Connected else if is_peer_down (last rs) then Terminating else In_session)"

definition reports_ok :: "Peer \<Rightarrow> bool" where
  "reports_ok p \<longleftrightarrow> p_state p = reported_state (reports p)
     \<and> successively (\<lambda>a b. \<not> (is_peer_down a \<and> is_peer_down b)) (reports p)"

lemma reports_append: "reports (p\<lparr>p_actions := p_actions p @ as\<rparr>) = reports p @ filter is_report as"
  by (simp add: reports_def)

lemma reported_state_append:
  "reported_state (rs @ [a]) = (if is_peer_down a then Terminating else In_session)"
  by (simp add: reported_state_def)

lemma reports_cong: "p_state p = p_state q \<Longrightarrow> reports p = reports q \<Longrightarrow> reports_ok p = reports_ok q"
  by (simp add: reports_ok_def)

lemma reports_ok_after_send [simp]: "reports_ok (after_send env pm rp p) = reports_ok p"
  by (rule reports_cong) (auto simp: after_send_def Let_def reports_def is_report_def)

lemma reports_ok_after_resend [simp]: "reports_ok (after_resend env d e rest p) = reports_ok p"
  by (rule reports_cong) (auto simp: after_resend_def reports_def is_report_def)

lemma reports_ok_after_response [simp]: "reports_ok (after_response env d p) = reports_ok p"
proof -
  have "reports_ok (p\<lparr>p_responses_pending := m\<rparr>) = reports_ok p" for m
    by (rule reports_cong) (simp_all add: reports_def)
  then show ?thesis by (simp add: after_response_def split: list.splits)
qed

lemma reports_ok_down:
  assumes "reports_ok p" and "p_state p \<noteq> Terminating" and "p_state q = Terminating"
    and "reports q = reports p @ [Client_peer_down i]"
  shows "reports_ok q"
  using assms by (auto simp: reports_ok_def reported_state_def successively_append_iff split: if_splits)

lemma keeps_reports_down: "keeps reports_ok (set_state_terminating env)"
  by (rule tripleI) (auto simp: set_state_terminating_def set_state_def act_def comp_simps reports_def is_report_def
      split: if_splits intro: reports_ok_down)

lemma keeps_reports_up:
  "keeps reports_ok (next_do (set_state In_session) (bnd (asks get_info) (\<lambda>info. act (Client_peer_up (f info)))))"
  by (rule tripleI) (auto simp: set_state_def act_def comp_simps reports_def is_report_def reports_ok_def
      reported_state_append successively_append_iff split: if_splits)

lemma reports_ok_events: "reports_ok p \<Longrightarrow> \<not> is_peer_down a \<Longrightarrow> \<not> is_peer_up a \<Longrightarrow>
    reports_ok (p\<lparr>p_actions := p_actions p @ [a]\<rparr>)"
  by (simp add: reports_ok_def reports_def is_report_def)

lemma both_invariants:
  assumes "\<And>p q. same_core p q \<Longrightarrow> I p \<Longrightarrow> I q"
    and "\<And>a p. \<not> is_peer_down a \<Longrightarrow> \<not> is_peer_up a \<Longrightarrow> I p \<Longrightarrow> I (p\<lparr>p_actions := p_actions p @ [a]\<rparr>)"
    and "\<And>p pd. I p \<Longrightarrow> pd_step (env_cfg env) (p_pdp p) pd \<Longrightarrow> I (p\<lparr>p_pdp := pd\<rparr>)"
    and "\<And>pm rp p. I p \<Longrightarrow> I (after_send env pm rp p)"
    and "\<And>d e rest p. I p \<Longrightarrow> I (after_resend env d e rest p)"
    and "\<And>d p. I p \<Longrightarrow> I (after_response env d p)"
    and "keeps I (set_state_terminating env)"
    and "\<And>f. keeps I (next_do (set_state In_session) (bnd (asks get_info) (\<lambda>info. act (Client_peer_up (f info)))))"
  shows "session_invariant (env_cfg env) env (\<lambda>p. queues_ok p \<and> I p)"
proof unfold_locales
  show "keeps (\<lambda>p. queues_ok p \<and> I p) (send_expecting env pm)" for pm
  proof (rule tripleI)
    fix p u p'
    assume ok: "queues_ok p \<and> I p" and run: "send_expecting env pm p = Inr (u, p')"
    obtain rp where "p' = after_send env pm rp p" by (rule send_expecting_result[OF _ run]) (use ok in auto)
    then show "queues_ok p' \<and> I p'" using ok assms(4) tripleD[OF keeps_send_expecting _ run] by simp
  qed
  show "keeps (\<lambda>p. queues_ok p \<and> I p) (match_response env pm d)" for pm d
    using tripleD[OF keeps_match_response] assms(6) by (fastforce simp: match_response_result intro!: tripleI)
  show "keeps (\<lambda>p. queues_ok p \<and> I p) (set_state_terminating env)"
    using tripleD[OF queues.down] tripleD[OF assms(7)] by (fastforce intro!: tripleI)
  show "keeps (\<lambda>p. queues_ok p \<and> I p)
      (next_do (set_state In_session) (bnd (asks get_info) (\<lambda>info. act (Client_peer_up (f info)))))" for f
    using tripleD[OF queues.up] tripleD[OF assms(8)] by (fastforce intro!: tripleI)
  fix p p' :: Peer and d e rest u and timeout tries :: u32
  assume ok: "queues_ok p \<and> I p" and q: "smap_find (p_responses_pending p) d = Some (e # rest)"
    and run: "send_message_expecting_response env e p = Inr (u, p')"
  have e: "rp_destination e = d" "rp_queued e" using queues_okD[OF _ q] ok by (simp_all add: queue_ok_def)
  from resend_result[OF q e, of env] run queues_ok_after_resend[OF _ q, of env] assms(5) ok
  show "queues_ok p' \<and> I p'" by simp
qed (use queues.core queues.acts queues.data assms(1-3) in blast)+

lemma reports_invariant: "session_invariant (env_cfg env) env (\<lambda>p. queues_ok p \<and> reports_ok p)"
proof (rule both_invariants)
  show "reports_ok q" if "same_core p q" "reports_ok p" for p q
    using that reports_cong[of p q] by (simp add: same_core_def reports_def)
  show "reports_ok (p\<lparr>p_pdp := pd\<rparr>)" if "reports_ok p" for p pd
    using that reports_cong[of p "p\<lparr>p_pdp := pd\<rparr>"] by (simp add: reports_def)
qed (simp_all add: reports_ok_events keeps_reports_down keeps_reports_up)

lemma session_reports_ok: "session E p \<Longrightarrow> reports_ok p"
  using session_keeps[OF _ reports_invariant]
  by (simp add: queues_ok_def smap_ok_def reports_ok_def reports_def reported_state_def new_Peer_simps)

lemma session_exists: "session E p \<Longrightarrow> p_state p \<noteq> Nonexistent"
  by (drule session_reports_ok) (auto simp: reports_ok_def reported_state_def split: if_splits)

text \<open>
  C8: the client learns of every change of a session, in step with its state. No report is
  made while a session is being set up; once \<open>peer_up\<close> was reported last the session is in
  session, once \<open>peer_down\<close> was reported last it is terminating, and \<open>peer_down\<close> is never
  reported twice without a \<open>peer_up\<close> in between.
\<close>

theorem reports_follow_state:
  assumes "session E p"
  shows "p_state p = (case rev (filter (\<lambda>a. is_peer_up a \<or> is_peer_down a) (p_actions p)) of
      [] \<Rightarrow> Connected | a # _ \<Rightarrow> if is_peer_down a then Terminating else In_session)
    \<and> successively (\<lambda>a b. \<not> (is_peer_down a \<and> is_peer_down b))
        (filter (\<lambda>a. is_peer_up a \<or> is_peer_down a) (p_actions p))"
proof -
  have "reports_ok p" by (rule session_reports_ok[OF assms])
  moreover have eq: "filter (\<lambda>a. is_peer_up a \<or> is_peer_down a) (p_actions p) = reports p"
    by (auto simp: reports_def is_report_def intro: filter_cong)
  ultimately show ?thesis
    unfolding eq by (cases "reports p" rule: rev_cases) (auto simp: reports_ok_def reported_state_def)
qed

section \<open>The data of the peer\<close>

lemma pd_step_reachable: "pd_step cfg pd pd' \<Longrightarrow> peer_data_reachable cfg pd \<Longrightarrow> peer_data_reachable cfg pd'"
  by (induction rule: pd_step.induct) (auto intro: peer_data_reachable.intros)

lemma data_invariant:
  "session_invariant (env_cfg env) env (\<lambda>p. queues_ok p \<and> peer_data_reachable (env_cfg env) (p_pdp p))"
proof (rule both_invariants)
  show "keeps (\<lambda>p. peer_data_reachable (env_cfg env) (p_pdp p)) (set_state_terminating env)"
    by (auto simp: triple_def set_state_terminating_def set_state_def act_def comp_simps split: if_splits)
  show "keeps (\<lambda>p. peer_data_reachable (env_cfg env) (p_pdp p))
      (next_do (set_state In_session) (bnd (asks get_info) (\<lambda>info. act (Client_peer_up (f info)))))" for f
    by (auto simp: triple_def set_state_def act_def comp_simps split: if_splits)
qed (auto simp: same_core_def after_send_def Let_def after_resend_def after_response_def
    split: list.splits intro: pd_step_reachable)

lemma session_data_reachable:
  assumes "session E p" and "\<And>env. E env \<Longrightarrow> env_cfg env = cfg"
  shows "peer_data_reachable cfg (p_pdp p)"
proof -
  have "queues_ok p \<and> peer_data_reachable cfg (p_pdp p)"
    using session_keeps[OF assms(1), of "\<lambda>p. queues_ok p \<and> peer_data_reachable cfg (p_pdp p)"] data_invariant assms(2)
      new_Peer_simps(1,5)
    by (fastforce simp: queues_ok_def smap_ok_def intro: peer_data_reachable.new)
  then show ?thesis by simp
qed


end
