(* ===== verification/DestAdvert.thy ===== *)
theory DestAdvert
  imports InfoBase
begin

text \<open>
  Destination advertisement (\<open>src/DestAdvert.cpp\<close>, \<open>src/DestAdvertDataBase.h\<close>,
  \<open>src/DestAdvertInfo.h\<close>, \<open>src/DestAdvertMessage.h\<close>): modems tell each other over
  multicast which destinations are behind which radio. A modem keeps the latest advertisement
  of every radio and turns it into destinations of its own once its client says the radio is
  up. The operations act on the advertiser and on \<open>dlep->local_pdp\<close>; the calls on the peers
  are returned in order. The protocol buffer library is a parameter: what it serializes and
  parses.
\<close>

section \<open>Data\<close>

text \<open>\<open>da_uptime\<close> is an \<open>int64_t\<close>, kept as its bits.\<close>

record DestAdvertInfo =
  da_reportInterval :: u32
  da_uptime :: u64
  da_sequenceNumber :: u32
  da_rfId :: DlepMac
  da_destinations :: DlepMacAddrs

definition new_DestAdvertInfo :: DestAdvertInfo where
  "new_DestAdvertInfo = \<lparr>da_reportInterval = 0, da_uptime = 0, da_sequenceNumber = 0, da_rfId = DlepMac [],
     da_destinations = []\<rparr>"

datatype EntryState = Entry_down | Entry_up

record DestAdvertDBEntry =
  de_timestamp :: int
  de_estate :: EntryState
  de_placeholder :: bool
  de_info :: DestAdvertInfo
  de_data_items :: "DataItem list"

record DestAdvert =
  da_begin_time :: int
  da_seq_num :: u32
  da_send_interval :: u32
  da_local_rfid :: DlepMac
  da_own_destinations :: DlepMacAddrs
  da_db :: "(DlepMac, DestAdvertDBEntry) smap"

definition new_DestAdvert :: "int \<Rightarrow> u32 \<Rightarrow> DlepMac \<Rightarrow> DestAdvert" where
  "new_DestAdvert now send_interval local_rfid = \<lparr>da_begin_time = now, da_seq_num = 0,
     da_send_interval = send_interval, da_local_rfid = local_rfid, da_own_destinations = [], da_db = []\<rparr>"

section \<open>Messages\<close>

text \<open>The message of \<open>destadvert.proto\<close>; a \<open>bytes\<close> field is a \<open>std::string\<close>.\<close>

record DestinationAdvertisement =
  pb_reportinterval :: u32
  pb_sequencenumber :: u32
  pb_uptimeinseconds :: u64
  pb_localid :: string
  pb_destinations :: "string list"

definition doCopyStrToMac :: "string \<Rightarrow> DlepMac" where
  "doCopyStrToMac str = DlepMac (map byte_of_char str)"

definition doCopyMacToSTR :: "DlepMac \<Rightarrow> string" where
  "doCopyMacToSTR mac = map char_of_byte (mac_addr mac)"

definition build_destination_advert ::
    "(DestinationAdvertisement \<Rightarrow> bool \<times> string) \<Rightarrow> DestAdvertInfo \<Rightarrow> bool \<times> string" where
  "build_destination_advert SerializeToString info =
     SerializeToString \<lparr>pb_reportinterval = da_reportInterval info, pb_sequencenumber = da_sequenceNumber info,
       pb_uptimeinseconds = da_uptime info, pb_localid = doCopyMacToSTR (da_rfId info),
       pb_destinations = map doCopyMacToSTR (da_destinations info)\<rparr>"

fun insert_destinations :: "string list \<Rightarrow> DlepMacAddrs \<Rightarrow> DlepMacAddrs" where
  "insert_destinations [] ds = ds"
| "insert_destinations (s # ss) ds = insert_destinations ss (insort_insert (doCopyStrToMac s) ds)"

definition unbuild_destination_advert ::
    "(bytes \<Rightarrow> DestinationAdvertisement option) \<Rightarrow> bytes \<Rightarrow> DestAdvertInfo option" where
  "unbuild_destination_advert ParseFromArray buff =
     (case ParseFromArray buff of
        None \<Rightarrow> None
      | Some da \<Rightarrow> Some \<lparr>da_reportInterval = pb_reportinterval da, da_uptime = pb_uptimeinseconds da,
          da_sequenceNumber = pb_sequencenumber da, da_rfId = doCopyStrToMac (pb_localid da),
          da_destinations = insert_destinations (pb_destinations da) []\<rparr>)"

text \<open>The advertisement this modem sends next, empty when it cannot be built.\<close>

definition get_message_to_send ::
    "(DestinationAdvertisement \<Rightarrow> bool \<times> string) \<Rightarrow> int \<Rightarrow> DestAdvert \<Rightarrow> DestAdvert \<times> bytes" where
  "get_message_to_send SerializeToString now da =
     (let da' = da\<lparr>da_seq_num := da_seq_num da + 1\<rparr>;
          info = \<lparr>da_reportInterval = da_send_interval da, da_uptime = of_int (now - da_begin_time da),
                  da_sequenceNumber = da_seq_num da', da_rfId = da_local_rfid da,
                  da_destinations = da_own_destinations da\<rparr>
      in case build_destination_advert SerializeToString info of
           (True, s) \<Rightarrow> (da', map byte_of_char s)
         | (False, _) \<Rightarrow> (da', []))"

section \<open>Local destinations\<close>

text \<open>\<open>local_pdp->addDestination(mac, data_items, true)\<close> for each address; a refusal is only logged.\<close>

fun add_all ::
    "ProtocolConfig \<Rightarrow> string list \<Rightarrow> DataItem list \<Rightarrow> DlepMacAddrs \<Rightarrow> PeerData
     \<Rightarrow> (PeerData \<times> (string \<times> peer_call) list) res" where
  "add_all cfg peers items [] pdp = Inr (pdp, [])"
| "add_all cfg peers items (mac # macs) pdp =
     rbind (addDestination cfg peers mac items True pdp) (\<lambda>(pdp1, _, calls1).
     rbind (add_all cfg peers items macs pdp1) (\<lambda>(pdp2, calls2). Inr (pdp2, calls1 @ calls2)))"

text \<open>\<open>local_pdp->removeDestination(mac, true, data_items)\<close> for each address; were all there?\<close>

fun remove_all ::
    "string list \<Rightarrow> DataItem list \<Rightarrow> DlepMacAddrs \<Rightarrow> PeerData \<Rightarrow> PeerData \<times> bool \<times> (string \<times> peer_call) list" where
  "remove_all peers items [] pdp = (pdp, True, [])"
| "remove_all peers items (mac # macs) pdp =
     (case removeDestination peers mac True items pdp of
        (pdp1, ok1, calls1) \<Rightarrow>
          (case remove_all peers items macs pdp1 of
             (pdp2, ok2, calls2) \<Rightarrow> (pdp2, ok1 \<and> ok2, calls1 @ calls2)))"

section \<open>Receiving\<close>

text \<open>An advertisement from a radio that is known.\<close>

definition update_entry ::
    "ProtocolConfig \<Rightarrow> string list \<Rightarrow> DestAdvertInfo \<Rightarrow> DestAdvertDBEntry \<Rightarrow> PeerData
     \<Rightarrow> (PeerData \<times> (string \<times> peer_call) list) res" where
  "update_entry cfg peers dainfo entry pdp =
     (if de_estate entry = Entry_up
      then let added = getDifference (da_destinations dainfo) (da_destinations (de_info entry)) [];
               deleted = getDifference (da_destinations (de_info entry)) (da_destinations dainfo) []
           in rbind (add_all cfg peers (de_data_items entry) added pdp) (\<lambda>(pdp1, calls1).
              case remove_all peers [] deleted pdp1 of
                (pdp2, _, calls2) \<Rightarrow> Inr (pdp2, calls1 @ calls2))
      else Inr (pdp, []))"

definition advert_handle_message ::
    "ProtocolConfig \<Rightarrow> string list \<Rightarrow> (bytes \<Rightarrow> DestinationAdvertisement option) \<Rightarrow> int \<Rightarrow> bytes
     \<Rightarrow> DestAdvert \<times> PeerData \<Rightarrow> ((DestAdvert \<times> PeerData) \<times> (string \<times> peer_call) list) res" where
  "advert_handle_message cfg peers ParseFromArray now msg_buffer = (\<lambda>(da, pdp).
     if msg_buffer = [] then Inr ((da, pdp), [])
     else case unbuild_destination_advert ParseFromArray msg_buffer of
       None \<Rightarrow> Inr ((da, pdp), [])
     | Some dainfo \<Rightarrow>
         (case smap_find (da_db da) (da_rfId dainfo) of
            None \<Rightarrow>
              Inr ((da\<lparr>da_db := smap_insert (da_rfId dainfo) \<lparr>de_timestamp = now, de_estate = Entry_down,
                     de_placeholder = False, de_info = dainfo, de_data_items = []\<rparr> (da_db da)\<rparr>, pdp), [])
          | Some entry \<Rightarrow>
              rbind (update_entry cfg peers dainfo entry pdp) (\<lambda>(pdp', calls).
              Inr ((da\<lparr>da_db := smap_insert (da_rfId dainfo)
                     (entry\<lparr>de_timestamp := now, de_info := dainfo\<rparr>) (da_db da)\<rparr>, pdp'), calls))))"

section \<open>Our own destinations and the table\<close>

definition advert_add_destination :: "DlepMac \<Rightarrow> DestAdvert \<Rightarrow> DestAdvert" where
  "advert_add_destination mac da = da\<lparr>da_own_destinations := insort_insert mac (da_own_destinations da)\<rparr>"

definition advert_del_destination :: "DlepMac \<Rightarrow> DestAdvert \<Rightarrow> DestAdvert" where
  "advert_del_destination mac da = da\<lparr>da_own_destinations := removeAll mac (da_own_destinations da)\<rparr>"

definition advert_clear_destinations :: "DestAdvert \<Rightarrow> DestAdvert" where
  "advert_clear_destinations da = da\<lparr>da_own_destinations := []\<rparr>"

definition add_advert_entry :: "DlepMac \<Rightarrow> DestAdvertDBEntry \<Rightarrow> DestAdvert \<Rightarrow> DestAdvert" where
  "add_advert_entry rfId advert_entry da = da\<lparr>da_db := smap_insert rfId advert_entry (da_db da)\<rparr>"

definition find_advert_entry :: "DlepMac \<Rightarrow> DestAdvert \<Rightarrow> DestAdvertDBEntry option" where
  "find_advert_entry rfId da = smap_find (da_db da) rfId"

definition update_advert_entry_data_items :: "DlepMac \<Rightarrow> DataItem list \<Rightarrow> DestAdvert \<Rightarrow> DestAdvert" where
  "update_advert_entry_data_items rfId items da =
     da\<lparr>da_db := smap_modify rfId (\<lambda>entry. entry\<lparr>de_data_items := items\<rparr>) (da_db da)\<rparr>"

definition update_advert_entry_state :: "DlepMac \<Rightarrow> EntryState \<Rightarrow> DestAdvert \<Rightarrow> DestAdvert" where
  "update_advert_entry_state rfId newstate da =
     da\<lparr>da_db := smap_modify rfId (\<lambda>entry. entry\<lparr>de_estate := newstate\<rparr>) (da_db da)\<rparr>"

section \<open>Purging\<close>

definition hold_expired :: "u32 \<Rightarrow> int \<Rightarrow> DestAdvertDBEntry \<Rightarrow> bool" where
  "hold_expired hold_interval now entry \<longleftrightarrow>
     hold_interval > 0 \<and> de_placeholder entry \<and> de_estate entry = Entry_up
     \<and> now - de_timestamp entry \<ge> uint hold_interval"

text \<open>The product is computed in 32 bits.\<close>

definition advert_expired :: "u32 \<Rightarrow> int \<Rightarrow> DestAdvertDBEntry \<Rightarrow> bool" where
  "advert_expired expire_count now entry \<longleftrightarrow>
     expire_count > 0 \<and> now - de_timestamp entry \<ge> uint (expire_count * da_reportInterval (de_info entry))"

fun purge_loop ::
    "string list \<Rightarrow> u32 \<Rightarrow> u32 \<Rightarrow> int \<Rightarrow> (DlepMac, DestAdvertDBEntry) smap \<Rightarrow> PeerData
     \<Rightarrow> (DlepMac, DestAdvertDBEntry) smap \<times> PeerData \<times> (string \<times> peer_call) list" where
  "purge_loop peers hold_interval expire_count now [] pdp = ([], pdp, [])"
| "purge_loop peers hold_interval expire_count now ((rfId, entry) # db) pdp =
     (if hold_expired hold_interval now entry then purge_loop peers hold_interval expire_count now db pdp
      else if advert_expired expire_count now entry
      then (case (if de_estate entry = Entry_up then remove_all peers [] (da_destinations (de_info entry)) pdp
                  else (pdp, True, [])) of
              (pdp1, _, calls1) \<Rightarrow>
                (case purge_loop peers hold_interval expire_count now db pdp1 of
                   (db', pdp2, calls2) \<Rightarrow> (db', pdp2, calls1 @ calls2)))
      else (case purge_loop peers hold_interval expire_count now db pdp of
              (db', pdp', calls) \<Rightarrow> ((rfId, entry) # db', pdp', calls)))"

text \<open>\<open>aborted\<close>: the timer was cancelled. The second component tells whether it is started again.\<close>

definition handle_purge_advert_timeout ::
    "client_config \<Rightarrow> string list \<Rightarrow> int \<Rightarrow> bool \<Rightarrow> DestAdvert \<times> PeerData
     \<Rightarrow> ((DestAdvert \<times> PeerData) \<times> bool \<times> (string \<times> peer_call) list) res" where
  "handle_purge_advert_timeout params peers now aborted = (\<lambda>(da, pdp).
     if aborted then Inr ((da, pdp), False, [])
     else rbind (cp_unsigned params ''destination-advert-hold-interval'') (\<lambda>hold_interval.
       rbind (cp_unsigned params ''destination-advert-expire-count'') (\<lambda>expire_count.
       case purge_loop peers hold_interval expire_count now (da_db da) pdp of
         (db', pdp', calls) \<Rightarrow> Inr ((da\<lparr>da_db := db'\<rparr>, pdp'), True, calls))))"

section \<open>The local destinations\<close>

lemma validDestination_add:
  "addDestination cfg peers mac items t pdp = Inr (pdp', ok, calls) \<Longrightarrow>
   validDestination m pdp' \<longleftrightarrow> validDestination m pdp \<or> m = mac"
  by (auto simp: addDestination_def validDestination_def res_simps smap_simps split: option.splits if_splits)

lemma validDestination_remove:
  "smap_ok (pd_destination_data pdp) \<Longrightarrow> removeDestination peers mac t items pdp = (pdp', ok, calls) \<Longrightarrow>
   (validDestination m pdp' \<longleftrightarrow> validDestination m pdp \<and> m \<noteq> mac) \<and> smap_ok (pd_destination_data pdp')
     \<and> (ok \<longleftrightarrow> validDestination mac pdp)"
  by (auto simp: removeDestination_def validDestination_def smap_simps split: option.splits if_splits)

lemma smap_ok_addDestination:
  "smap_ok (pd_destination_data pdp) \<Longrightarrow> addDestination cfg peers mac items t pdp = Inr (pdp', ok, calls) \<Longrightarrow>
   smap_ok (pd_destination_data pdp')"
  by (auto simp: addDestination_def res_simps split: option.splits)

lemma addDestination_total:
  assumes "ids_known cfg items"
  shows "\<exists>r. addDestination cfg peers mac items t pdp = Inr r"
proof -
  let ?dd = "\<lparr>dd_mac_address = mac, dd_metric_data_items = [], dd_ip_data_items = [], dd_needs_response = ''''\<rparr>"
  obtain dd n where "destination_items cfg items ?dd 0 = Inr (dd, n)"
    using destination_items_total[OF assms, of ?dd 0] by auto
  then have "new_DestinationData cfg mac items = Inr dd" by (simp add: new_DestinationData_def)
  then show ?thesis by (auto simp: addDestination_def split: option.splits)
qed

lemma add_all_effect:
  assumes "ids_known cfg items"
  shows "\<exists>pdp' calls. add_all cfg peers items macs pdp = Inr (pdp', calls)
    \<and> (\<forall>m. validDestination m pdp' \<longleftrightarrow> validDestination m pdp \<or> m \<in> set macs)
    \<and> (smap_ok (pd_destination_data pdp) \<longrightarrow> smap_ok (pd_destination_data pdp'))"
proof (induction macs arbitrary: pdp)
  case (Cons mac macs)
  obtain pdp1 ok calls1 where add: "addDestination cfg peers mac items True pdp = Inr (pdp1, ok, calls1)"
    using addDestination_total[OF assms, of peers mac True pdp] by auto
  from Cons[of pdp1] obtain pdp2 calls2 where "add_all cfg peers items macs pdp1 = Inr (pdp2, calls2)"
    and "\<forall>m. validDestination m pdp2 \<longleftrightarrow> validDestination m pdp1 \<or> m \<in> set macs"
    and "smap_ok (pd_destination_data pdp1) \<longrightarrow> smap_ok (pd_destination_data pdp2)" by blast
  with add validDestination_add[OF add] smap_ok_addDestination[OF _ add] show ?case by auto
qed simp

lemma remove_all_effect:
  assumes "smap_ok (pd_destination_data pdp)" and "remove_all peers items macs pdp = (pdp', ok, calls)"
  shows "(validDestination m pdp' \<longleftrightarrow> validDestination m pdp \<and> m \<notin> set macs) \<and> smap_ok (pd_destination_data pdp')"
  using assms
proof (induction macs arbitrary: pdp pdp' ok calls)
  case (Cons mac macs)
  obtain pdp1 ok1 calls1 where r: "removeDestination peers mac True items pdp = (pdp1, ok1, calls1)" by (metis prod_cases3)
  obtain pdp2 ok2 calls2 where rs: "remove_all peers items macs pdp1 = (pdp2, ok2, calls2)" by (metis prod_cases3)
  note one = validDestination_remove[OF Cons.prems(1) r]
  with Cons.IH[OF _ rs] have "(validDestination m pdp2 \<longleftrightarrow> validDestination m pdp1 \<and> m \<notin> set macs)
      \<and> smap_ok (pd_destination_data pdp2)" by blast
  with one Cons.prems(2) r rs show ?case by auto
qed simp

lemma getDifference_elems: "set (getDifference A B []) = set A - set B"
  using getDifference_set[of A B "[]"] by simp

section \<open>Properties\<close>

lemma update_entry_effect:
  assumes "smap_ok (pd_destination_data pdp)" and "ids_known cfg (de_data_items entry)"
  shows "\<exists>pdp' calls. update_entry cfg peers dainfo entry pdp = Inr (pdp', calls)
    \<and> (\<forall>m. validDestination m pdp' \<longleftrightarrow>
        (if de_estate entry = Entry_up
         then m \<in> set (da_destinations dainfo) - set (da_destinations (de_info entry))
           \<or> validDestination m pdp \<and> m \<notin> set (da_destinations (de_info entry)) - set (da_destinations dainfo)
         else validDestination m pdp))"
proof (cases "de_estate entry")
  case Entry_up
  let ?new = "da_destinations dainfo" and ?old = "da_destinations (de_info entry)"
  from add_all_effect[OF assms(2), of peers "getDifference ?new ?old []" pdp] obtain pdp1 calls1 where
    add: "add_all cfg peers (de_data_items entry) (getDifference ?new ?old []) pdp = Inr (pdp1, calls1)"
    and valid: "\<forall>m. validDestination m pdp1 \<longleftrightarrow> validDestination m pdp \<or> m \<in> set ?new - set ?old"
    and ok: "smap_ok (pd_destination_data pdp1)" using assms(1) by (auto simp: getDifference_elems)
  obtain pdp2 ok2 calls2 where rm: "remove_all peers [] (getDifference ?old ?new []) pdp1 = (pdp2, ok2, calls2)"
    by (metis prod_cases3)
  from remove_all_effect[OF ok rm] valid have
    "\<forall>m. validDestination m pdp2 \<longleftrightarrow> m \<in> set ?new - set ?old \<or> validDestination m pdp \<and> m \<notin> set ?old - set ?new"
    by (auto simp: getDifference_elems)
  with Entry_up add rm show ?thesis by (simp add: update_entry_def Let_def)
qed (simp add: update_entry_def)

text \<open>
  C24: an advertisement from a known radio replaces what that radio advertised before. If the
  client says the radio is up, exactly the newly advertised destinations become local
  destinations and exactly those no longer advertised cease to be; otherwise no destination
  changes. The entries of other radios are untouched.
\<close>

theorem advert_update_correct:
  assumes "smap_ok (pd_destination_data pdp)" and "ids_known cfg (de_data_items entry)"
    and "msg \<noteq> []" and "unbuild_destination_advert ParseFromArray msg = Some dainfo"
    and "find_advert_entry (da_rfId dainfo) da = Some entry"
  shows "\<exists>da' pdp' calls. advert_handle_message cfg peers ParseFromArray now msg (da, pdp) = Inr ((da', pdp'), calls)
    \<and> find_advert_entry (da_rfId dainfo) da' = Some (entry\<lparr>de_timestamp := now, de_info := dainfo\<rparr>)
    \<and> (\<forall>rf. rf \<noteq> da_rfId dainfo \<longrightarrow> find_advert_entry rf da' = find_advert_entry rf da)
    \<and> (\<forall>m. validDestination m pdp' \<longleftrightarrow>
        (if de_estate entry = Entry_up
         then m \<in> set (da_destinations dainfo) - set (da_destinations (de_info entry))
           \<or> validDestination m pdp \<and> m \<notin> set (da_destinations (de_info entry)) - set (da_destinations dainfo)
         else validDestination m pdp))"
proof -
  from update_entry_effect[OF assms(1,2), of peers dainfo] obtain pdp' calls where
    run: "update_entry cfg peers dainfo entry pdp = Inr (pdp', calls)" and
    valid: "\<forall>m. validDestination m pdp' \<longleftrightarrow>
        (if de_estate entry = Entry_up
         then m \<in> set (da_destinations dainfo) - set (da_destinations (de_info entry))
           \<or> validDestination m pdp \<and> m \<notin> set (da_destinations (de_info entry)) - set (da_destinations dainfo)
         else validDestination m pdp)" by blast
  show ?thesis
    using run assms(3-5) by (intro exI conjI, simp add: advert_handle_message_def find_advert_entry_def)
      (simp_all add: find_advert_entry_def smap_simps valid)
qed


text \<open>
  A placeholder, the entry of a radio the client declared up before any advertisement came,
  has a report interval of 0: with an expire count it is discarded by the first purge,
  whatever the hold interval is.
\<close>

lemma placeholder_discarded:
  assumes "0 < expire_count" and "de_timestamp e \<le> now" and "de_info e = new_DestAdvertInfo"
  shows "fst (purge_loop peers hold_interval expire_count now [(rf, e)] pdp) = []"
  using assms by (auto simp: advert_expired_def new_DestAdvertInfo_def split: prod.splits)

text \<open>
  An advertisement that reaches a placeholder leaves it marked as one: when the radio then
  falls silent for the hold interval, the entry is dropped but its destinations stay.
\<close>

lemma placeholder_leaks:
  assumes "de_placeholder e" and "de_estate e = Entry_up" and "0 < hold_interval"
    and "de_timestamp e + uint hold_interval \<le> now"
  shows "purge_loop peers hold_interval expire_count now [(rf, e)] pdp = ([], pdp, [])"
  using assms by (simp add: hold_expired_def)

lemma insert_destinations_set:
  "set (insert_destinations ss ds) = set (map doCopyStrToMac ss) \<union> set ds"
  by (induction ss arbitrary: ds) (auto simp: set_insort_insert)

lemma insert_destinations_sorted:
  "sorted ds \<Longrightarrow> distinct ds \<Longrightarrow> sorted (insert_destinations ss ds) \<and> distinct (insert_destinations ss ds)"
  by (induction ss arbitrary: ds) (simp_all add: sorted_insort_insert distinct_insort_insert)

lemma str_mac_inverse [simp]: "doCopyStrToMac (doCopyMacToSTR mac) = mac"
  by (simp add: doCopyStrToMac_def doCopyMacToSTR_def)

text \<open>
  What one modem advertises is what the others read: an advertisement that was built is
  parsed back into the same interval, uptime, sequence number, radio and set of destinations,
  for any protocol buffer library that reads back what it wrote.
\<close>

lemma advert_round_trip:
  assumes protobuf_reads_back: "\<And>da s. SerializeToString da = (True, s) \<Longrightarrow> ParseFromArray (map byte_of_char s) = Some da"
    and "build_destination_advert SerializeToString info = (True, s)"
    and "sorted (da_destinations info)" and "distinct (da_destinations info)"
  shows "unbuild_destination_advert ParseFromArray (map byte_of_char s) = Some info"
proof -
  have "insert_destinations (map doCopyMacToSTR (da_destinations info)) [] = da_destinations info"
    using insert_destinations_sorted[of "[]" "map doCopyMacToSTR (da_destinations info)"] assms(3,4)
    by (intro sorted_distinct_set_unique) (simp_all add: insert_destinations_set image_image)
  with protobuf_reads_back[OF assms(2)[unfolded build_destination_advert_def]] show ?thesis
    by (simp add: unbuild_destination_advert_def)
qed

text \<open>The set of destinations a modem advertises stays a sorted list without duplicates.\<close>

lemma own_destinations_set:
  assumes "sorted (da_own_destinations da)" and "distinct (da_own_destinations da)"
  shows "sorted (da_own_destinations (advert_add_destination mac da))"
    "distinct (da_own_destinations (advert_add_destination mac da))"
    "set (da_own_destinations (advert_add_destination mac da)) = insert mac (set (da_own_destinations da))"
    "sorted (da_own_destinations (advert_del_destination mac da))"
    "distinct (da_own_destinations (advert_del_destination mac da))"
    "set (da_own_destinations (advert_del_destination mac da)) = set (da_own_destinations da) - {mac}"
  using assms by (auto simp: advert_add_destination_def advert_del_destination_def sorted_insort_insert
      distinct_insort_insert set_insort_insert removeAll_filter_not_eq sorted_wrt_filter)

end
