(* ===== verification/Dlep.thy ===== *)
theory Dlep
  imports PeerReports DestAdvert
begin

text \<open>
  A DLEP node and the service it offers its client (\<open>src/Dlep.cpp\<close>, \<open>src/Dlep.h\<close>,
  \<open>src/DlepServiceImpl.cpp\<close>, \<open>src/DlepService.h\<close>): the sessions with all peers, our own
  data items and destinations, the destination advertiser, and the operations that make,
  find and remove sessions and pass the client's requests on to them. A method is a
  computation on the node; it runs methods of single sessions in the environment the node
  gives them. Sockets, threads and locks are left out.
\<close>

section \<open>Data\<close>

text \<open>
  \<open>d_info_base\<close> are the ids of the peers in \<open>info_base_manager\<close>; the data it holds for a
  peer is the object the session holds. \<open>d_advert\<close> is there when destination advertisement
  is enabled.
\<close>

datatype node_action = Start_accept | Delete_socket | Stop_io_service

record Dlep =
  d_peers :: "(string, Peer) smap"
  d_local_pdp :: PeerData
  d_info_base :: "string list"
  d_advert :: "DestAdvert option"
  d_actions :: "node_action list"

type_synonym 'a node_comp = "(Dlep, 'a) comp"

datatype ReturnStatus =
    rs_ok
  | invalid_data_item
  | invalid_mac_address
  | destination_exists
  | destination_does_not_exist
  | peer_does_not_exist

record DestinationInfo =
  di_mac_address :: DlepMac
  di_peer_id :: string
  di_flags :: u32
  di_data_items :: "DataItem list"

section \<open>Running the methods of a session\<close>

definition node_env :: "session_env \<Rightarrow> Dlep \<Rightarrow> session_env" where
  "node_env env d = env\<lparr>env_local_pdp := d_local_pdp d, env_peers := map (\<lambda>(i, p). (i, p_pdp p)) (d_peers d),
     env_advert_enabled := (d_advert d \<noteq> None)\<rparr>"

text \<open>What a session does to the rest of the node.\<close>

fun absorb :: "action \<Rightarrow> Dlep \<Rightarrow> Dlep" where
  "absorb (Info_remove_peer i) d = d\<lparr>d_info_base := removeAll i (d_info_base d)\<rparr>"
| "absorb (Advert_add_destination mac) d = d\<lparr>d_advert := map_option (advert_add_destination mac) (d_advert d)\<rparr>"
| "absorb Advert_clear_destinations d = d\<lparr>d_advert := map_option advert_clear_destinations (d_advert d)\<rparr>"
| "absorb _ d = d"

definition peer_do :: "session_env \<Rightarrow> string \<Rightarrow> (session_env \<Rightarrow> 'a peer_comp) \<Rightarrow> 'a node_comp" where
  "peer_do env i m d =
     (case smap_find (d_peers d) i of
        None \<Rightarrow> Inl (Undefined ''no such peer'')
      | Some p \<Rightarrow>
          (case m (node_env env d) p of
             Inl e \<Rightarrow> Inl e
           | Inr (x, p') \<Rightarrow>
               Inr (x, fold absorb (drop (length (p_actions p)) (p_actions p'))
                      (d\<lparr>d_peers := smap_insert i p' (d_peers d)\<rparr>))))"

text \<open>The calls the information base makes on the peers.\<close>

definition tell_peers :: "session_env \<Rightarrow> (string \<times> peer_call) list \<Rightarrow> unit node_comp" where
  "tell_peers env calls = each (\<lambda>(i, call). peer_do env i (\<lambda>e. run_peer_call e call)) calls"

definition peer_ids :: "Dlep \<Rightarrow> string list" where
  "peer_ids d = map fst (d_peers d)"

definition node_act :: "node_action \<Rightarrow> unit node_comp" where
  "node_act a = change (\<lambda>d. d\<lparr>d_actions := d_actions d @ [a]\<rparr>)"

section \<open>The node\<close>

text \<open>A default data item for each configured metric.\<close>

fun initial_local_data_items :: "ip_text \<Rightarrow> ProtocolConfig \<Rightarrow> DataItemInfo list \<Rightarrow> DataItem list res" where
  "initial_local_data_items ip cfg [] = Inr []"
| "initial_local_data_items ip cfg (minfo # infos) =
     rbind (is_metric cfg (dii_id minfo) None) (\<lambda>m.
     if \<not> m then initial_local_data_items ip cfg infos
     else rbind (make_default_DataItem cfg (dii_name minfo) None) (\<lambda>di.
       rbind (data_item_to_string ip cfg None di) (\<lambda>_.
       rbind (initial_local_data_items ip cfg infos) (\<lambda>rest. Inr (di # rest)))))"

definition init_local_pdp :: "ip_text \<Rightarrow> ProtocolConfig \<Rightarrow> PeerData res" where
  "init_local_pdp ip cfg =
     rbind (initial_local_data_items ip cfg (get_data_item_info_list cfg [])) (\<lambda>items. new_PeerData cfg ''local_pdp'' items)"

text \<open>
  The node when \<open>initialize\<close> has set up its data; \<open>advert\<close> is the advertiser, if enabled.
\<close>

definition new_Dlep :: "session_env \<Rightarrow> DestAdvert option \<Rightarrow> Dlep res" where
  "new_Dlep env advert =
     rbind (init_local_pdp (env_ip env) (env_cfg env)) (\<lambda>pdp.
     Inr \<lparr>d_peers = [], d_local_pdp = pdp, d_info_base = [], d_advert = advert, d_actions = []\<rparr>)"

definition start_async_accept :: "session_env \<Rightarrow> unit node_comp" where
  "start_async_accept env = next_do (bnd (lift (assert_that (env_modem env) ''modem'')) ret) (node_act Start_accept)"

text \<open>A new connection, accepted or made: \<open>peer_id\<close> is that of its endpoint.\<close>

definition handle_async_make_peer :: "session_env \<Rightarrow> string \<Rightarrow> bool \<Rightarrow> unit node_comp" where
  "handle_async_make_peer env peer_id error =
     next_do
       (if \<not> error
        then bnd (lift (try_catch (rbind (cp_unsigned (env_params env) ''session-ttl'') (\<lambda>_. Inr ()))
                    is_BadParameterName (Inr ()))) (\<lambda>_.
             bnd (asks (\<lambda>d. new_Peer (node_env env d) peer_id)) (\<lambda>new.
             bnd (lift new) (\<lambda>peer.
             next_do (change (\<lambda>d. d\<lparr>d_info_base := insort_insert peer_id (d_info_base d),
                                     d_peers := smap_insert peer_id peer (d_peers d)\<rparr>))
               (peer_do env peer_id start_peer))))
        else node_act Delete_socket)
       (when_do (env_modem env) (start_async_accept env))"

fun cleanup_loop :: "(string, Peer) smap \<Rightarrow> (string, Peer) smap" where
  "cleanup_loop [] = []"
| "cleanup_loop ((i, p) # peers) =
     (if p_state p = Terminating then cleanup_loop peers else (i, p) # cleanup_loop peers)"

text \<open>
  \<open>cancel_session\<close> closes the connection of each session that is removed; what it records
  goes with the session.
\<close>

definition cleanup_ex_peers :: "unit node_comp" where
  "cleanup_ex_peers = change (\<lambda>d. d\<lparr>d_peers := cleanup_loop (d_peers d)\<rparr>)"

definition get_peer_id_from_endpoint :: "string \<Rightarrow> u16 \<Rightarrow> string" where
  "get_peer_id_from_endpoint session_ip session_port = session_ip @ '':'' @ to_string_word session_port"

fun find_peer_loop :: "DlepMac \<Rightarrow> (string, Peer) smap \<Rightarrow> string option" where
  "find_peer_loop mac [] = None"
| "find_peer_loop mac ((i, p) # peers) =
     (if get_destination mac p \<noteq> None then Some i else find_peer_loop mac peers)"

definition find_peer :: "DlepMac \<Rightarrow> Dlep \<Rightarrow> string option" where
  "find_peer mac d = find_peer_loop mac (d_peers d)"

definition peer_state :: "session_env \<Rightarrow> string \<Rightarrow> Dlep \<Rightarrow> PeerState" where
  "peer_state env peer_id d =
     (if env_modem env
      then (case d_peers d of [] \<Rightarrow> Nonexistent | (_, p) # _ \<Rightarrow> p_state p)
      else (case smap_find (d_peers d) peer_id of None \<Rightarrow> Nonexistent | Some p \<Rightarrow> p_state p))"

section \<open>Our own destinations\<close>

text \<open>\<open>local_pdp->addDestination(mac, data_items, true)\<close>\<close>

definition local_add :: "session_env \<Rightarrow> DlepMac \<Rightarrow> DataItem list \<Rightarrow> bool node_comp" where
  "local_add env mac items =
     bnd (asks (\<lambda>d. addDestination (env_cfg env) (peer_ids d) mac items True (d_local_pdp d))) (\<lambda>r.
     bnd (lift r) (\<lambda>(pdp, done, calls).
     next_do (change (\<lambda>d. d\<lparr>d_local_pdp := pdp\<rparr>)) (next_do (tell_peers env calls) (ret done))))"

text \<open>\<open>local_pdp->updateDestination(mac, data_items, tell_peers)\<close>\<close>

definition local_update :: "session_env \<Rightarrow> DlepMac \<Rightarrow> DataItem list \<Rightarrow> bool \<Rightarrow> bool node_comp" where
  "local_update env mac items tell_them =
     bnd (asks (\<lambda>d. updateDestination (env_cfg env) (peer_ids d) mac items tell_them (d_local_pdp d))) (\<lambda>r.
     bnd (lift r) (\<lambda>(pdp, done, calls).
     next_do (change (\<lambda>d. d\<lparr>d_local_pdp := pdp\<rparr>)) (next_do (tell_peers env calls) (ret done))))"

text \<open>\<open>local_pdp->removeDestination(mac, true, data_items)\<close>\<close>

definition local_remove :: "session_env \<Rightarrow> DlepMac \<Rightarrow> DataItem list \<Rightarrow> bool node_comp" where
  "local_remove env mac items =
     bnd (asks (\<lambda>d. removeDestination (peer_ids d) mac True items (d_local_pdp d))) (\<lambda>(pdp, done, calls).
     next_do (change (\<lambda>d. d\<lparr>d_local_pdp := pdp\<rparr>)) (next_do (tell_peers env calls) (ret done)))"

definition change_advert :: "(DestAdvert \<Rightarrow> DestAdvert) \<Rightarrow> unit node_comp" where
  "change_advert f = change (\<lambda>d. d\<lparr>d_advert := map_option f (d_advert d)\<rparr>)"

section \<open>The service\<close>

text \<open>The entry of a radio in the destination advertisements, when they are enabled.\<close>

definition advert_entry :: "DlepMac \<Rightarrow> Dlep \<Rightarrow> DestAdvertDBEntry option option" where
  "advert_entry mac d = map_option (find_advert_entry mac) (d_advert d)"

definition service_destination_up :: "session_env \<Rightarrow> DlepMac \<Rightarrow> DataItem list \<Rightarrow> ReturnStatus node_comp" where
  "service_destination_up env mac items =
     bnd (asks (advert_entry mac)) (\<lambda>result.
     case result of
       Some (Some entry) \<Rightarrow>
         next_do (change_advert (update_advert_entry_data_items mac items))
           (if de_estate entry = Entry_down
            then next_do (each (\<lambda>dest. bnd (local_add env dest items) (\<lambda>_. ret ())) (da_destinations (de_info entry)))
                   (next_do (change_advert (update_advert_entry_state mac Entry_up)) (ret rs_ok))
            else ret destination_exists)
     | Some None \<Rightarrow>
         next_do (change_advert (add_advert_entry mac \<lparr>de_timestamp = env_time env, de_estate = Entry_up,
                    de_placeholder = True, de_info = new_DestAdvertInfo, de_data_items = items\<rparr>)) (ret rs_ok)
     | None \<Rightarrow> bnd (local_add env mac items) (\<lambda>done. ret (if done then rs_ok else destination_exists)))"

text \<open>The peer that owns the destination, if any, is told of the update.\<close>

definition update_at_owner :: "session_env \<Rightarrow> DlepMac \<Rightarrow> DataItem list \<Rightarrow> ReturnStatus node_comp" where
  "update_at_owner env mac items =
     bnd (asks (find_peer mac)) (\<lambda>peer.
     case peer of
       None \<Rightarrow> ret destination_does_not_exist
     | Some i \<Rightarrow> next_do (peer_do env i (\<lambda>e. peer_destination_update e mac items)) (ret rs_ok))"

definition service_destination_update :: "session_env \<Rightarrow> DlepMac \<Rightarrow> DataItem list \<Rightarrow> ReturnStatus node_comp" where
  "service_destination_update env mac items =
     bnd (asks (advert_entry mac)) (\<lambda>result.
     case result of
       Some (Some entry) \<Rightarrow>
         next_do (change_advert (update_advert_entry_data_items mac items))
         (next_do (when_do (de_estate entry = Entry_up)
            (each (\<lambda>dest. bnd (local_update env dest items True) (\<lambda>_. ret ())) (da_destinations (de_info entry))))
            (ret rs_ok))
     | Some None \<Rightarrow> update_at_owner env mac items
     | None \<Rightarrow> bnd (local_update env mac items True) (\<lambda>done. if done then ret rs_ok else update_at_owner env mac items))"

text \<open>\<open>removeDestination\<close> on our own data, and on that of the peer that owns the destination.\<close>

definition peer_remove :: "session_env \<Rightarrow> string \<Rightarrow> DlepMac \<Rightarrow> DataItem list \<Rightarrow> bool node_comp" where
  "peer_remove env i mac items =
     bnd (asks (\<lambda>d. map_option (remove_destination (peer_ids d) mac items) (smap_find (d_peers d) i))) (\<lambda>r.
     case r of
       None \<Rightarrow> throw (Undefined ''no such peer'')
     | Some (p, done, calls) \<Rightarrow>
         next_do (change (\<lambda>d. d\<lparr>d_peers := smap_insert i p (d_peers d)\<rparr>)) (next_do (tell_peers env calls) (ret done)))"

definition remove_anywhere :: "session_env \<Rightarrow> DlepMac \<Rightarrow> DataItem list \<Rightarrow> ReturnStatus node_comp" where
  "remove_anywhere env mac items =
     bnd (local_remove env mac items) (\<lambda>ours.
     if ours then ret rs_ok
     else bnd (asks (find_peer mac)) (\<lambda>peer.
       case peer of
         None \<Rightarrow> ret destination_does_not_exist
       | Some i \<Rightarrow>
           bnd (peer_remove env i mac items) (\<lambda>done.
           bnd (lift (assert_that done ''ok'')) (\<lambda>_. ret rs_ok))))"

text \<open>The destinations of a radio; were all of them ours?\<close>

fun remove_dests :: "session_env \<Rightarrow> DataItem list \<Rightarrow> DlepMacAddrs \<Rightarrow> bool node_comp" where
  "remove_dests env items [] = ret True"
| "remove_dests env items (dest # dests) =
     bnd (local_remove env dest items) (\<lambda>done. bnd (remove_dests env items dests) (\<lambda>rest. ret (done \<and> rest)))"

definition service_destination_down :: "session_env \<Rightarrow> DlepMac \<Rightarrow> DataItem list \<Rightarrow> ReturnStatus node_comp" where
  "service_destination_down env mac items =
     bnd (asks (advert_entry mac)) (\<lambda>result.
     case result of
       Some (Some entry) \<Rightarrow>
         if de_estate entry = Entry_up
         then bnd (remove_dests env items (da_destinations (de_info entry))) (\<lambda>all_done.
              next_do (change_advert (update_advert_entry_state mac Entry_down))
                (ret (if all_done then rs_ok else destination_does_not_exist)))
         else ret rs_ok
     | _ \<Rightarrow> remove_anywhere env mac items)"

definition service_peer_update :: "session_env \<Rightarrow> DataItem list \<Rightarrow> ReturnStatus node_comp" where
  "service_peer_update env items =
     bnd (asks (\<lambda>d. update_data_items (env_cfg env) (peer_ids d) items True (d_local_pdp d))) (\<lambda>r.
     bnd (lift r) (\<lambda>(pdp, err, calls).
     next_do (change (\<lambda>d. d\<lparr>d_local_pdp := pdp\<rparr>))
     (next_do (tell_peers env calls) (ret (if err = ''Success'' then rs_ok else invalid_data_item)))))"

definition service_peer_remove_data_items :: "DataItem list \<Rightarrow> ReturnStatus node_comp" where
  "service_peer_remove_data_items items =
     next_do (change (\<lambda>d. d\<lparr>d_local_pdp := remove_data_items items (d_local_pdp d)\<rparr>)) (ret rs_ok)"

definition service_get_peers :: "string list \<Rightarrow> Dlep \<Rightarrow> string list" where
  "service_get_peers peers d = peers @ map (\<lambda>(i, p). p_peer_id p) (d_peers d)"

definition service_get_peer_info :: "string \<Rightarrow> Dlep \<Rightarrow> ReturnStatus + PeerInfo" where
  "service_get_peer_info peer_id d =
     (case smap_find (d_peers d) peer_id of None \<Rightarrow> Inl peer_does_not_exist | Some p \<Rightarrow> Inr (get_info p))"

definition service_get_destination_info :: "string \<Rightarrow> DlepMac \<Rightarrow> Dlep \<Rightarrow> ReturnStatus + DestinationInfo" where
  "service_get_destination_info peer_id mac d =
     (case smap_find (d_peers d) peer_id of
        None \<Rightarrow> Inl peer_does_not_exist
      | Some p \<Rightarrow>
          (case get_destination mac p of
             None \<Rightarrow> Inl destination_does_not_exist
           | Some ddp \<Rightarrow> Inr \<lparr>di_mac_address = mac, di_peer_id = peer_id, di_flags = 0,
                              di_data_items = get_all_data_items ddp\<rparr>))"

definition service_linkchar_request :: "session_env \<Rightarrow> DlepMac \<Rightarrow> DataItem list \<Rightarrow> ReturnStatus node_comp" where
  "service_linkchar_request env mac items =
     bnd (asks (find_peer mac)) (\<lambda>peer.
     case peer of
       None \<Rightarrow> ret peer_does_not_exist
     | Some i \<Rightarrow> next_do (peer_do env i (\<lambda>e. link_characteristics_request e mac items)) (ret rs_ok))"

definition service_linkchar_reply ::
    "session_env \<Rightarrow> string \<Rightarrow> DlepMac \<Rightarrow> DataItem list \<Rightarrow> ReturnStatus node_comp" where
  "service_linkchar_reply env peer_id mac items =
     bnd (asks (\<lambda>d. smap_find (d_peers d) peer_id)) (\<lambda>peer.
     case peer of
       None \<Rightarrow> ret peer_does_not_exist
     | Some _ \<Rightarrow>
         next_do (peer_do env peer_id (\<lambda>e. link_characteristics_response e mac items))
         (bnd (local_update env mac items False) (\<lambda>done. ret (if done then rs_ok else destination_does_not_exist))))"

definition service_terminate :: "session_env \<Rightarrow> unit node_comp" where
  "service_terminate env =
     next_do (bnd (asks peer_ids) (each (\<lambda>i. peer_do env i (\<lambda>e. terminate e ''Success'' ''''))))
     (next_do (change (\<lambda>d. d\<lparr>d_peers := []\<rparr>)) (node_act Stop_io_service))"

end
