(* ===== verification/DlepSteps.thy ===== *)
theory DlepSteps
  imports Dlep
begin

text \<open>
  The events of a node and the nodes they lead to. The locale \<open>node_invariant\<close> states what an
  invariant of a node has to satisfy: that the steps of a single session, making and removing
  sessions, and the steps of our own data keep it. It derives that every request of the client
  and every event of the network keeps it, and is interpreted by the invariants of the node.
\<close>

section \<open>Events\<close>

definition node_advert_message ::
    "session_env \<Rightarrow> (bytes \<Rightarrow> DestinationAdvertisement option) \<Rightarrow> bytes \<Rightarrow> unit node_comp" where
  "node_advert_message env ParseFromArray msg =
     bnd (asks d_advert) (\<lambda>advert.
     case advert of
       None \<Rightarrow> ret ()
     | Some da \<Rightarrow>
         bnd (asks (\<lambda>d. advert_handle_message (env_cfg env) (peer_ids d) ParseFromArray (env_time env) msg
                      (da, d_local_pdp d))) (\<lambda>r.
         bnd (lift r) (\<lambda>((da', pdp), calls).
         next_do (change (\<lambda>d. d\<lparr>d_local_pdp := pdp\<rparr>))
         (next_do (change (\<lambda>d. d\<lparr>d_advert := Some da'\<rparr>)) (tell_peers env calls)))))"

definition node_advert_purge :: "session_env \<Rightarrow> bool \<Rightarrow> unit node_comp" where
  "node_advert_purge env aborted =
     bnd (asks d_advert) (\<lambda>advert.
     case advert of
       None \<Rightarrow> ret ()
     | Some da \<Rightarrow>
         bnd (asks (\<lambda>d. handle_purge_advert_timeout (env_params env) (peer_ids d) (env_time env) aborted
                      (da, d_local_pdp d))) (\<lambda>r.
         bnd (lift r) (\<lambda>((da', pdp), again, calls).
         next_do (change (\<lambda>d. d\<lparr>d_local_pdp := pdp\<rparr>))
         (next_do (change (\<lambda>d. d\<lparr>d_advert := Some da'\<rparr>)) (tell_peers env calls)))))"

datatype node_event =
    Connection string bool
  | Session_event string event
  | Cleanup
  | Advert_message bytes
  | Advert_purge bool
  | Up DlepMac "DataItem list"
  | Update DlepMac "DataItem list"
  | Down DlepMac "DataItem list"
  | Our_update "DataItem list"
  | Our_removal "DataItem list"
  | Request DlepMac "DataItem list"
  | Reply string DlepMac "DataItem list"
  | Shutdown

abbreviation ignoring :: "'a node_comp \<Rightarrow> unit node_comp" where
  "ignoring m \<equiv> bnd m (\<lambda>_. ret ())"

fun handle_node_event ::
    "session_env \<Rightarrow> (bytes \<Rightarrow> DestinationAdvertisement option) \<Rightarrow> node_event \<Rightarrow> unit node_comp" where
  "handle_node_event env pb_parse (Connection i error) = handle_async_make_peer env i error"
| "handle_node_event env pb_parse (Session_event i ev) = peer_do env i (\<lambda>e. handle_event e ev)"
| "handle_node_event env pb_parse Cleanup = cleanup_ex_peers"
| "handle_node_event env pb_parse (Advert_message msg) = node_advert_message env pb_parse msg"
| "handle_node_event env pb_parse (Advert_purge aborted) = node_advert_purge env aborted"
| "handle_node_event env pb_parse (Up mac items) = ignoring (service_destination_up env mac items)"
| "handle_node_event env pb_parse (Update mac items) = ignoring (service_destination_update env mac items)"
| "handle_node_event env pb_parse (Down mac items) = ignoring (service_destination_down env mac items)"
| "handle_node_event env pb_parse (Our_update items) = ignoring (service_peer_update env items)"
| "handle_node_event env pb_parse (Our_removal items) = ignoring (service_peer_remove_data_items items)"
| "handle_node_event env pb_parse (Request mac items) = ignoring (service_linkchar_request env mac items)"
| "handle_node_event env pb_parse (Reply i mac items) = ignoring (service_linkchar_reply env i mac items)"
| "handle_node_event env pb_parse Shutdown = service_terminate env"

inductive node :: "(session_env \<Rightarrow> bool) \<Rightarrow> Dlep \<Rightarrow> bool" for E where
  new: "E env \<Longrightarrow> new_Dlep env advert = Inr d \<Longrightarrow> node E d"
| event: "node E d \<Longrightarrow> E env \<Longrightarrow> handle_node_event env pb_parse ev d = Inr ((), d') \<Longrightarrow> node E d'"

section \<open>Steps of our own data\<close>

inductive local_step :: "ProtocolConfig \<Rightarrow> PeerData \<Rightarrow> PeerData \<Rightarrow> bool" for cfg where
  stay: "local_step cfg pd pd"
| step: "local_step cfg pd pd' \<Longrightarrow> pd_step cfg pd' pd'' \<Longrightarrow> local_step cfg pd pd''"
| removal: "local_step cfg pd pd' \<Longrightarrow> local_step cfg pd (remove_data_items items pd')"

lemma local_step_one: "pd_step cfg pd pd' \<Longrightarrow> local_step cfg pd pd'"
  by (blast intro: local_step.intros)

lemma local_step_trans: "local_step cfg pd' pd'' \<Longrightarrow> local_step cfg pd pd' \<Longrightarrow> local_step cfg pd pd''"
  by (induction rule: local_step.induct) (auto intro: local_step.intros)

lemma local_step_add_all: "add_all cfg peers items macs pd = Inr (pd', calls) \<Longrightarrow> local_step cfg pd pd'"
proof (induction macs arbitrary: pd pd' calls)
  case (Cons mac macs)
  then obtain pd1 b c1 c2 where add: "addDestination cfg peers mac items True pd = Inr (pd1, b, c1)"
    and rest: "add_all cfg peers items macs pd1 = Inr (pd', c2)" by (auto simp: res_simps)
  from local_step_trans[OF Cons.IH[OF rest] local_step_one[OF pd_step.add[OF add]]] show ?case .
qed (simp add: local_step.stay)

lemma local_step_remove_all: "remove_all peers items macs pd = (pd', b, calls) \<Longrightarrow> local_step cfg pd pd'"
proof (induction macs arbitrary: pd pd' b calls)
  case (Cons mac macs)
  obtain pd1 b1 c1 where rm: "removeDestination peers mac True items pd = (pd1, b1, c1)" by (metis prod_cases3)
  obtain pd2 b2 c2 where rest: "remove_all peers items macs pd1 = (pd2, b2, c2)" by (metis prod_cases3)
  from local_step_trans[OF Cons.IH[OF rest] local_step_one[OF pd_step.remove[OF rm]]] Cons.prems rm rest show ?case by simp
qed (simp add: local_step.stay)

lemma local_step_message:
  assumes "advert_handle_message cfg peers pb_parse now msg (da, pd) = Inr ((da', pd'), calls)"
  shows "local_step cfg pd pd'"
proof -
  have "local_step cfg pd pd2" if run: "update_entry cfg peers dainfo entry pd = Inr (pd2, c)" for dainfo entry pd2 c
  proof (cases "de_estate entry")
    case Entry_up
    let ?new = "da_destinations dainfo" and ?old = "da_destinations (de_info entry)"
    obtain pd1 c1 where add: "add_all cfg peers (de_data_items entry) (getDifference ?new ?old []) pd = Inr (pd1, c1)"
      using run Entry_up
      by (cases "add_all cfg peers (de_data_items entry) (getDifference ?new ?old []) pd")
        (auto simp: update_entry_def Let_def)
    obtain pd3 b c2 where rm: "remove_all peers [] (getDifference ?old ?new []) pd1 = (pd3, b, c2)" by (metis prod_cases3)
    have "pd3 = pd2" using run Entry_up add rm by (simp add: update_entry_def Let_def)
    with add rm show ?thesis by (blast intro: local_step_trans local_step_add_all local_step_remove_all)
  qed (use run in \<open>simp add: update_entry_def local_step.stay\<close>)
  then show ?thesis
    using assms by (auto simp: advert_handle_message_def res_simps intro: local_step.stay split: if_splits option.splits)
qed

lemma local_step_purge: "purge_loop peers h x now db pd = (db', pd', calls) \<Longrightarrow> local_step cfg pd pd'"
proof (induction db arbitrary: pd db' pd' calls)
  case (Cons y db)
  obtain rf e where y: "y = (rf, e)" by (cases y)
  obtain pd1 b1 c1 where r: "(if de_estate e = Entry_up then remove_all peers [] (da_destinations (de_info e)) pd
      else (pd, True, [])) = (pd1, b1, c1)" by (metis prod_cases3)
  then have one: "local_step cfg pd pd1" by (auto intro: local_step_remove_all local_step.stay split: if_splits)
  obtain db2 pd2 c2 where rest: "purge_loop peers h x now db pd = (db2, pd2, c2)" by (metis prod_cases3)
  obtain db3 pd3 c3 where rest1: "purge_loop peers h x now db pd1 = (db3, pd3, c3)" by (metis prod_cases3)
  from Cons.prems y r rest rest1 Cons.IH[OF rest] local_step_trans[OF Cons.IH[OF rest1] one]
  show ?case by (auto split: if_splits)
qed (simp add: local_step.stay)

lemma local_step_timeout:
  assumes "handle_purge_advert_timeout params peers now aborted (da, pd) = Inr ((da', pd'), again, calls)"
  shows "local_step cfg pd pd'"
proof (cases aborted)
  case False
  then obtain h x where "cp_unsigned params ''destination-advert-hold-interval'' = Inr h"
    and "cp_unsigned params ''destination-advert-expire-count'' = Inr x"
    using assms by (auto simp: handle_purge_advert_timeout_def res_simps)
  moreover obtain db' pd2 calls2 where "purge_loop peers h x now (da_db da) pd = (db', pd2, calls2)" by (metis prod_cases3)
  ultimately show ?thesis using assms False by (auto simp: handle_purge_advert_timeout_def intro: local_step_purge)
qed (use assms in \<open>simp add: handle_purge_advert_timeout_def local_step.stay\<close>)

section \<open>Invariants of a node\<close>

locale node_invariant =
  fixes env :: session_env and J :: "Dlep \<Rightarrow> bool"
  assumes session: "keeps J (peer_do env i (\<lambda>e. handle_event e ev))"
    and make: "J d \<Longrightarrow> new_Peer (node_env env d) i = Inr p \<Longrightarrow>
      J (d\<lparr>d_info_base := ids, d_peers := smap_insert i p (d_peers d)\<rparr>)"
    and remove: "J d \<Longrightarrow> smap_find (d_peers d) i = Some p \<Longrightarrow> remove_destination peers mac items p = (p', b, calls) \<Longrightarrow>
      J (d\<lparr>d_peers := smap_insert i p' (d_peers d)\<rparr>)"
    and drop: "J d \<Longrightarrow> J (d\<lparr>d_peers := filter (\<lambda>(i, p). P p) (d_peers d)\<rparr>)"
    and data: "J d \<Longrightarrow> local_step (env_cfg env) (d_local_pdp d) pd \<Longrightarrow> J (d\<lparr>d_local_pdp := pd\<rparr>)"
    and advert: "J d \<Longrightarrow> J (d\<lparr>d_advert := a\<rparr>)"
    and acts: "J d \<Longrightarrow> J (d\<lparr>d_actions := as\<rparr>)"
begin

lemma keeps_advert: "keeps J (change_advert f)" "keeps J (change (\<lambda>d. d\<lparr>d_advert := a\<rparr>))"
  unfolding change_advert_def by (intro keeps_change advert; assumption)+

lemma keeps_node_act: "keeps J (node_act a)"
  unfolding node_act_def by (intro keeps_change acts)

lemma keeps_run_call: "keeps J (peer_do env i (\<lambda>e. run_peer_call e call))"
  using session[of i "Peer_call call"] by simp

lemma keeps_tell: "keeps J (tell_peers env calls)"
  unfolding tell_peers_def by (intro triple_rules keeps_run_call)

text \<open>Our own data: compute the new one, store it, tell the peers.\<close>

lemma keeps_local:
  assumes "\<And>d pd x y. r d = Inr (pd, x, y) \<Longrightarrow> local_step (env_cfg env) (d_local_pdp d) pd"
    and "\<And>x y. keeps J (k x y)"
  shows "keeps J (bnd (asks r) (\<lambda>z. bnd (lift z) (\<lambda>(pd, x, y).
    next_do (change (\<lambda>d. d\<lparr>d_local_pdp := pd\<rparr>)) (k x y))))"
proof (rule tripleI)
  fix d u d'
  assume inv: "J d" and run: "bnd (asks r) (\<lambda>z. bnd (lift z) (\<lambda>(pd, x, y).
    next_do (change (\<lambda>d. d\<lparr>d_local_pdp := pd\<rparr>)) (k x y))) d = Inr (u, d')"
  then obtain pd x y where r: "r d = Inr (pd, x, y)" and k: "k x y (d\<lparr>d_local_pdp := pd\<rparr>) = Inr (u, d')"
    by (auto simp: comp_simps split: sum.splits)
  from data[OF inv assms(1)[OF r]] have "J (d\<lparr>d_local_pdp := pd\<rparr>)" .
  with k assms(2) show "J d'" by (blast dest: tripleD)
qed

lemma keeps_local_add: "keeps J (local_add env mac items)"
  unfolding local_add_def
  by (intro keeps_local local_step_one pd_step.add triple_rules keeps_tell)

lemma keeps_local_update: "keeps J (local_update env mac items t)"
  unfolding local_update_def
  by (intro keeps_local local_step_one pd_step.update triple_rules keeps_tell)

lemma keeps_local_remove: "keeps J (local_remove env mac items)"
proof -
  have "local_remove env mac items = bnd (asks (\<lambda>d. Inr (removeDestination (peer_ids d) mac True items (d_local_pdp d)))) (\<lambda>z.
      bnd (lift z) (\<lambda>(pd, x, y). next_do (change (\<lambda>d. d\<lparr>d_local_pdp := pd\<rparr>)) (next_do (tell_peers env y) (ret x))))"
    by (rule ext) (simp add: local_remove_def comp_simps)
  moreover have "keeps J \<dots>"
    by (intro keeps_local local_step_one triple_rules keeps_tell) (auto intro: pd_step.remove)
  ultimately show ?thesis by simp
qed

lemma keeps_update_at_owner: "keeps J (update_at_owner env mac items)"
proof -
  have "(\<lambda>e. peer_destination_update e mac items) = (\<lambda>e. run_peer_call e (Call_destination_update mac items))"
    by (simp add: run_peer_call_def)
  then show ?thesis
    unfolding update_at_owner_def by (simp only:) (intro triple_rules keeps_run_call)
qed

lemma keeps_up: "keeps J (service_destination_up env mac items)"
  unfolding service_destination_up_def by (intro triple_rules keeps_advert keeps_local_add)

lemma keeps_update: "keeps J (service_destination_update env mac items)"
  unfolding service_destination_update_def
  by (intro triple_rules keeps_advert keeps_local_update keeps_update_at_owner)

lemma keeps_peer_remove: "keeps J (peer_remove env i mac items)"
proof (rule tripleI)
  fix d x d'
  assume inv: "J d" and run: "peer_remove env i mac items d = Inr (x, d')"
  then obtain p p1 b calls where find: "smap_find (d_peers d) i = Some p"
    and rm: "remove_destination (peer_ids d) mac items p = (p1, b, calls)"
    by (cases "smap_find (d_peers d) i") (auto simp: peer_remove_def comp_simps, metis prod_cases3)
  have "next_do (tell_peers env calls) (ret b) (d\<lparr>d_peers := smap_insert i p1 (d_peers d)\<rparr>) = Inr (x, d')"
    using run find rm by (simp add: peer_remove_def comp_simps)
  moreover have "keeps J (next_do (tell_peers env calls) (ret b))" by (intro triple_rules keeps_tell)
  ultimately show "J d'" using remove[OF inv find rm] by (blast dest: tripleD)
qed

lemma keeps_remove_anywhere: "keeps J (remove_anywhere env mac items)"
  unfolding remove_anywhere_def by (intro triple_rules keeps_local_remove keeps_peer_remove)

lemma keeps_remove_dests: "keeps J (remove_dests env items dests)"
  by (induction dests) (auto intro!: triple_rules keeps_local_remove)

lemma keeps_down: "keeps J (service_destination_down env mac items)"
  unfolding service_destination_down_def
  by (intro triple_rules keeps_remove_dests keeps_advert keeps_remove_anywhere)

lemma keeps_our_update: "keeps J (service_peer_update env items)"
  unfolding service_peer_update_def
  by (intro keeps_local local_step_one pd_step.items triple_rules keeps_tell)

lemma keeps_our_removal: "keeps J (service_peer_remove_data_items items)"
  unfolding service_peer_remove_data_items_def
  by (intro triple_rules keeps_change data local_step.removal local_step.stay)

lemma keeps_request: "keeps J (service_linkchar_request env mac items)"
  using session[of _ "Linkchar_request mac items"]
  unfolding service_linkchar_request_def by (intro triple_rules) simp

lemma keeps_reply: "keeps J (service_linkchar_reply env i mac items)"
  using session[of _ "Linkchar_response mac items"]
  unfolding service_linkchar_reply_def by (intro triple_rules keeps_local_update) simp_all

lemma keeps_shutdown: "keeps J (service_terminate env)"
proof -
  have "keeps J (peer_do env i (\<lambda>e. terminate e s r))" for i s r using session[of i "Terminate s r"] by simp
  moreover have "keeps J (change (\<lambda>d. d\<lparr>d_peers := []\<rparr>))"
    using drop[where P = "\<lambda>_. False"] by (intro keeps_change) simp
  ultimately show ?thesis
    unfolding service_terminate_def by (intro triple_rules keeps_node_act)
qed

lemma keeps_cleanup: "keeps J cleanup_ex_peers"
proof -
  have "cleanup_loop peers = filter (\<lambda>(i, p). p_state p \<noteq> Terminating) peers" for peers
    by (induction peers rule: cleanup_loop.induct) auto
  then show ?thesis
    unfolding cleanup_ex_peers_def using drop[where P = "\<lambda>p. p_state p \<noteq> Terminating"] by (intro keeps_change) simp
qed

lemma keeps_accept: "keeps J (start_async_accept env)"
  unfolding start_async_accept_def by (intro triple_rules keeps_node_act)

lemma keeps_connection: "keeps J (handle_async_make_peer env i error)"
proof -
  have start: "keeps J (peer_do env i start_peer)" using session[of i Start] by simp
  have made: "keeps J (bnd (asks (\<lambda>d. new_Peer (node_env env d) i)) (\<lambda>new. bnd (lift new) (\<lambda>peer.
      next_do (change (\<lambda>d. d\<lparr>d_info_base := insort_insert i (d_info_base d), d_peers := smap_insert i peer (d_peers d)\<rparr>))
        (peer_do env i start_peer))))"
  proof (rule tripleI)
    fix d x d'
    assume inv: "J d" and run: "bnd (asks (\<lambda>d. new_Peer (node_env env d) i)) (\<lambda>new. bnd (lift new) (\<lambda>peer.
      next_do (change (\<lambda>d. d\<lparr>d_info_base := insort_insert i (d_info_base d), d_peers := smap_insert i peer (d_peers d)\<rparr>))
        (peer_do env i start_peer))) d = Inr (x, d')"
    then obtain p where "new_Peer (node_env env d) i = Inr p"
      and "peer_do env i start_peer (d\<lparr>d_info_base := insort_insert i (d_info_base d),
        d_peers := smap_insert i p (d_peers d)\<rparr>) = Inr (x, d')"
      by (auto simp: comp_simps split: sum.splits)
    with make[OF inv] start show "J d'" by (blast dest: tripleD)
  qed
  show ?thesis
    unfolding handle_async_make_peer_def
    by (rule keeps_next_do[OF keeps_if[OF keeps_bnd[OF keeps_lift made] keeps_node_act] keeps_when_do[OF keeps_accept]])
qed

lemma keeps_advert_message: "keeps J (node_advert_message env pb_parse msg)"
proof (rule tripleI)
  fix d x d'
  assume inv: "J d" and run: "node_advert_message env pb_parse msg d = Inr (x, d')"
  then consider "d' = d"
    | da da' pd calls where "advert_handle_message (env_cfg env) (peer_ids d) pb_parse (env_time env) msg (da, d_local_pdp d)
          = Inr ((da', pd), calls)"
        "tell_peers env calls (d\<lparr>d_local_pdp := pd, d_advert := Some da'\<rparr>) = Inr (x, d')"
    by (cases "d_advert d") (auto simp: node_advert_message_def comp_simps split: sum.splits)
  then show "J d'"
  proof cases
    case 2
    from advert[OF data[OF inv local_step_message[OF 2(1)]]] show ?thesis using keeps_tell 2(2) by (blast dest: tripleD)
  qed (use inv in simp)
qed

lemma keeps_advert_purge: "keeps J (node_advert_purge env aborted)"
proof (rule tripleI)
  fix d x d'
  assume inv: "J d" and run: "node_advert_purge env aborted d = Inr (x, d')"
  then consider "d' = d"
    | da da' pd again calls where "handle_purge_advert_timeout (env_params env) (peer_ids d) (env_time env) aborted (da, d_local_pdp d)
          = Inr ((da', pd), again, calls)"
        "tell_peers env calls (d\<lparr>d_local_pdp := pd, d_advert := Some da'\<rparr>) = Inr (x, d')"
    by (cases "d_advert d") (auto simp: node_advert_purge_def comp_simps split: sum.splits)
  then show "J d'"
  proof cases
    case 2
    from advert[OF data[OF inv local_step_timeout[OF 2(1)]]] show ?thesis using keeps_tell 2(2) by (blast dest: tripleD)
  qed (use inv in simp)
qed

lemma keeps_node_event: "keeps J (handle_node_event env pb_parse ev)"
  by (cases ev) (auto intro!: triple_rules keeps_connection session keeps_cleanup keeps_advert_message
      keeps_advert_purge keeps_up keeps_update keeps_down keeps_our_update keeps_our_removal keeps_request
      keeps_reply keeps_shutdown)

end

end
