(* ===== verification/DlepNode.thy ===== *)
theory DlepNode
  imports DlepSteps
begin

text \<open>
  What holds of a node and its service: every session of a node is one of the sessions the
  properties of single sessions are about, our own data stays consistent, and the requests of
  the client have the effect their documentation promises.
\<close>

section \<open>The sessions of a node\<close>

lemma absorb_peers [simp]: "d_peers (absorb a d) = d_peers d" "d_local_pdp (absorb a d) = d_local_pdp d"
  by (cases a; simp)+

lemma fold_absorb_peers [simp]:
  "d_peers (fold absorb as d) = d_peers d" "d_local_pdp (fold absorb as d) = d_local_pdp d"
  by (induction as arbitrary: d) simp_all

lemma peer_do_result:
  assumes "peer_do env i m d = Inr (x, d')"
  obtains p p' where "smap_find (d_peers d) i = Some p" and "m (node_env env d) p = Inr (x, p')"
    and "d_peers d' = smap_insert i p' (d_peers d)" and "d_local_pdp d' = d_local_pdp d"
  using assms by (auto simp: peer_do_def split: option.splits sum.splits prod.splits)

definition node_envs :: "(session_env \<Rightarrow> bool) \<Rightarrow> session_env \<Rightarrow> bool" where
  "node_envs E e \<longleftrightarrow> (\<exists>env d. E env \<and> e = node_env env d)"

definition sessions_ok :: "(session_env \<Rightarrow> bool) \<Rightarrow> Dlep \<Rightarrow> bool" where
  "sessions_ok E d \<longleftrightarrow> smap_ok (d_peers d) \<and>
     (\<forall>i p. smap_find (d_peers d) i = Some p \<longrightarrow> session (node_envs E) p \<and> p_peer_id p = i)"

lemma peer_id_invariant: "session_invariant (env_cfg env) env (\<lambda>q. queues_ok q \<and> p_peer_id q = i)"
proof (rule both_invariants)
  show "keeps (\<lambda>q. p_peer_id q = i) (set_state_terminating env)"
    by (auto simp: triple_def set_state_terminating_def set_state_def act_def comp_simps split: if_splits)
  show "keeps (\<lambda>q. p_peer_id q = i)
      (next_do (set_state In_session) (bnd (asks get_info) (\<lambda>info. act (Client_peer_up (f info)))))" for f
    by (auto simp: triple_def set_state_def act_def comp_simps split: if_splits)
qed (auto simp: same_core_def after_send_def Let_def after_resend_def after_response_def split: list.splits)

lemma peer_id_kept:
  assumes "queues_ok p" and "handle_event env ev p = Inr ((), p')"
  shows "p_peer_id p' = p_peer_id p"
  using tripleD[OF session_invariant.keeps_event[OF peer_id_invariant] _ assms(2), of "p_peer_id p"] assms(1) by simp

lemma sessions_ok_insert:
  assumes "sessions_ok E d" and "session (node_envs E) p" and "p_peer_id p = i"
    and "d_peers d' = smap_insert i p (d_peers d)"
  shows "sessions_ok E d'"
  using assms by (auto simp: sessions_ok_def smap_simps)

lemma sessions_invariant:
  assumes "E env"
  shows "node_invariant env (sessions_ok E)"
proof
  have E: "node_envs E (node_env env d)" for d using assms by (auto simp: node_envs_def)
  show "keeps (sessions_ok E) (peer_do env i (\<lambda>e. handle_event e ev))" for i ev
  proof (rule tripleI)
    fix d x d'
    assume inv: "sessions_ok E d" and run: "peer_do env i (\<lambda>e. handle_event e ev) d = Inr (x, d')"
    then obtain p p' where p: "smap_find (d_peers d) i = Some p" "handle_event (node_env env d) ev p = Inr ((), p')"
      "d_peers d' = smap_insert i p' (d_peers d)" by (auto elim: peer_do_result)
    with inv have "session (node_envs E) p" "p_peer_id p = i" by (auto simp: sessions_ok_def)
    with p E show "sessions_ok E d'"
      by (intro sessions_ok_insert[OF inv _ _ p(3)]) (auto intro: session.event simp: peer_id_kept session_queues_ok)
  qed
  show "sessions_ok E (d\<lparr>d_info_base := ids, d_peers := smap_insert i p (d_peers d)\<rparr>)"
    if "sessions_ok E d" and new: "new_Peer (node_env env d) i = Inr p" for d i p ids
    by (rule sessions_ok_insert[OF that(1), of p i])
      (use session.new[where E = "node_envs E", OF E new] new in \<open>auto simp: new_Peer_def res_simps\<close>)
  show "sessions_ok E (d\<lparr>d_peers := smap_insert i p' (d_peers d)\<rparr>)"
    if inv: "sessions_ok E d" and find: "smap_find (d_peers d) i = Some p"
      and rm: "remove_destination peers mac items p = (p', b, calls)" for d i p peers mac items p' b calls
  proof (rule sessions_ok_insert[OF inv, of p' i])
    from inv find have "session (node_envs E) p" "p_peer_id p = i" by (auto simp: sessions_ok_def)
    with session.remove[OF _ rm] rm show "session (node_envs E) p'" "p_peer_id p' = i"
      by (auto simp: remove_destination_def split: prod.splits)
  qed simp
  show "sessions_ok E (d\<lparr>d_peers := filter (\<lambda>(i, p). P p) (d_peers d)\<rparr>)" if "sessions_ok E d" for d P
  proof -
    have "smap_ok (filter (\<lambda>(i, p). P p) (d_peers d))"
      using that by (auto simp: sessions_ok_def smap_ok_def sorted_wrt_map sorted_wrt_filter)
    with that show ?thesis
      by (auto simp: sessions_ok_def smap_find_set[symmetric])
  qed
qed (simp_all add: sessions_ok_def)

lemma node_keeps:
  assumes "node E d"
    and inv: "\<And>env. E env \<Longrightarrow> node_invariant env J"
    and init: "\<And>env advert d. E env \<Longrightarrow> new_Dlep env advert = Inr d \<Longrightarrow> J d"
  shows "J d"
  using assms(1)
proof (induction rule: node.induct)
  case (event d env parse ev d')
  then show ?case using node_invariant.keeps_node_event[OF inv] by (blast dest: tripleD)
qed (rule init)

text \<open>
  C10: every session of a node, however it was made and whatever the network, the client and
  the other sessions did, is a session in the sense of the properties of single sessions, and
  it is the one found under its own peer id.
\<close>

theorem node_sessions:
  assumes "node E d" and "smap_find (d_peers d) i = Some p"
  shows "session (node_envs E) p \<and> p_peer_id p = i"
proof -
  have "sessions_ok E d"
    by (rule node_keeps[OF assms(1) sessions_invariant]) (auto simp: new_Dlep_def res_simps sessions_ok_def)
  with assms(2) show ?thesis by (auto simp: sessions_ok_def)
qed

section \<open>Our own data\<close>

lemma local_step_reachable: "local_step cfg pd pd' \<Longrightarrow> peer_data_reachable cfg pd \<Longrightarrow> peer_data_reachable cfg pd'"
  by (induction rule: local_step.induct) (auto intro: pd_step_reachable peer_data_reachable.remove_items)

interpretation local_data: node_invariant env "\<lambda>d. peer_data_reachable (env_cfg env) (d_local_pdp d)" for env
  by unfold_locales (auto intro: local_step_reachable intro!: tripleI elim!: peer_do_result)

lemma node_local_reachable:
  assumes "node E d" and "\<And>env. E env \<Longrightarrow> env_cfg env = cfg"
  shows "peer_data_reachable cfg (d_local_pdp d)"
proof (rule node_keeps[OF assms(1)])
  fix env assume "E env"
  with assms(2) have cfg: "cfg = env_cfg env" by simp
  show "node_invariant env (\<lambda>d. peer_data_reachable cfg (d_local_pdp d))"
    unfolding cfg by (rule local_data.node_invariant_axioms)
  show "peer_data_reachable cfg (d_local_pdp d)" if "new_Dlep env advert = Inr d" for advert d
    using that by (auto simp: cfg new_Dlep_def init_local_pdp_def res_simps intro: peer_data_reachable.new)
qed


lemma helper_destinations:
  "update_data_items_helper cfg sid dis pd = Inr (pd', ups) \<Longrightarrow> pd_destination_data pd' = pd_destination_data pd"
  by (induction dis arbitrary: pd ups) (auto simp: res_simps split: if_splits)

lemma new_Dlep_empty:
  assumes "new_Dlep env advert = Inr d"
  shows "d_peers d = []" "d_advert d = advert" "d_info_base d = []" "pd_destination_data (d_local_pdp d) = []"
  using assms by (auto simp: new_Dlep_def init_local_pdp_def new_PeerData_def res_simps dest: helper_destinations)

section \<open>Finding and removing\<close>

lemma find_peer_loop_Some:
  "find_peer_loop mac peers = Some i \<Longrightarrow> \<exists>p. (i, p) \<in> set peers \<and> get_destination mac p \<noteq> None"
  by (induction peers rule: find_peer_loop.induct) (auto split: if_splits)

lemma find_peer_loop_None:
  "find_peer_loop mac peers = None \<longleftrightarrow> (\<forall>(i, p)\<in>set peers. get_destination mac p = None)"
  by (induction peers rule: find_peer_loop.induct) auto

lemma node_sessions_ok: "node E d \<Longrightarrow> sessions_ok E d"
  by (erule node_keeps, rule sessions_invariant) (auto simp: new_Dlep_def res_simps sessions_ok_def)

lemma node_session_reachable:
  assumes "node E d" and "\<And>env. E env \<Longrightarrow> env_cfg env = cfg" and "smap_find (d_peers d) i = Some p"
  shows "peer_data_reachable cfg (p_pdp p)"
proof (rule session_data_reachable)
  show "session (node_envs E) p" using node_sessions_ok[OF assms(1)] assms(3) by (auto simp: sessions_ok_def)
  show "env_cfg e = cfg" if "node_envs E e" for e using that assms(2) by (auto simp: node_envs_def node_env_def)
qed

text \<open>
  C26: \<open>find_peer\<close> finds the owner of a destination: it returns no peer exactly when no session
  has the destination, and a peer it returns has it, so that removing the destination from
  that peer succeeds, as \<open>destination_down\<close> asserts, and takes the destination away.
\<close>

theorem owner_found:
  assumes "node E d" and "\<And>env. E env \<Longrightarrow> env_cfg env = cfg"
  shows "case find_peer mac d of
      None \<Rightarrow> \<forall>i p. smap_find (d_peers d) i = Some p \<longrightarrow> \<not> validDestination mac (p_pdp p)
    | Some i \<Rightarrow> \<exists>p p' calls. smap_find (d_peers d) i = Some p \<and> validDestination mac (p_pdp p)
        \<and> remove_destination (peer_ids d) mac items p = (p', True, calls) \<and> \<not> validDestination mac (p_pdp p')"
proof (cases "find_peer mac d")
  case None
  then have "get_destination mac p = None" if "smap_find (d_peers d) i = Some p" for i p
    using that node_sessions_ok[OF assms(1)]
    by (auto simp: find_peer_def find_peer_loop_None sessions_ok_def smap_find_set[symmetric])
  with None show ?thesis by (auto simp: get_destination_def getDestinationData_def validDestination_def)
next
  case (Some i)
  then obtain p where p: "smap_find (d_peers d) i = Some p" and has: "get_destination mac p \<noteq> None"
    using node_sessions_ok[OF assms(1)] find_peer_loop_Some[of mac "d_peers d" i]
    by (auto simp: find_peer_def sessions_ok_def smap_find_set[symmetric])
  from has have valid: "validDestination mac (p_pdp p)"
    by (simp add: get_destination_def getDestinationData_def validDestination_def)
  obtain pd b calls where rm: "removeDestination (peer_ids d) mac True items (p_pdp p) = (pd, b, calls)" by (metis prod_cases3)
  have "smap_ok (pd_destination_data (p_pdp p))"
    using peer_data_reachable_ok[OF node_session_reachable[OF assms p]] by (simp add: pd_ok_def dests_ok_def)
  from validDestination_remove[OF this rm] valid have "b" "\<not> validDestination mac pd" by blast+
  with Some p valid rm show ?thesis by (auto simp: remove_destination_def)
qed

text \<open>
  The periodic cleanup removes exactly the sessions that are terminating, and a shutdown
  that goes through leaves no session.
\<close>

lemma cleanup_correct:
  assumes "node E d"
  shows "(\<exists>d'. cleanup_ex_peers d = Inr ((), d') \<and> (\<forall>i. smap_find (d_peers d') i =
      (case smap_find (d_peers d) i of None \<Rightarrow> None | Some p \<Rightarrow> if p_state p = Terminating then None else Some p)))
    \<and> (\<forall>d'. service_terminate env d = Inr ((), d') \<longrightarrow> d_peers d' = [])"
proof -
  have ok: "smap_ok (d_peers d)" using node_sessions_ok[OF assms] by (simp add: sessions_ok_def)
  have loop: "smap_find (cleanup_loop peers) i =
      (case smap_find peers i of None \<Rightarrow> None | Some p \<Rightarrow> if p_state p = Terminating then None else Some p)"
    if "smap_ok peers" for peers i
    using that
  proof (induction peers rule: cleanup_loop.induct)
    case (2 j p peers)
    have "smap_find peers j = None" using 2(3) by (auto simp: smap_ok_Cons smap_find_None)
    with 2 show ?case by (auto simp: smap_ok_Cons split: option.splits)
  qed simp
  moreover have "d_peers d' = []" if "service_terminate env d = Inr ((), d')" for d'
    using that by (auto simp: service_terminate_def comp_simps node_act_def split: sum.splits)
  ultimately show ?thesis using ok by (simp add: cleanup_ex_peers_def comp_simps)
qed

section \<open>Destinations\<close>

text \<open>Telling every session of a list: each is told once, the others are untouched.\<close>

definition told :: "session_env \<Rightarrow> peer_call \<Rightarrow> Peer \<Rightarrow> Peer \<Rightarrow> bool" where
  "told env c p p' \<longleftrightarrow> (\<exists>d. run_peer_call (node_env env d) c p = Inr ((), p'))"

lemma tell_each:
  assumes "distinct ids" and "tell_peers env (map (\<lambda>i. (i, c)) ids) d = Inr (x, d')"
  shows "d_local_pdp d' = d_local_pdp d \<and> (\<forall>i. if i \<in> set ids
    then \<exists>p p'. smap_find (d_peers d) i = Some p \<and> told env c p p' \<and> smap_find (d_peers d') i = Some p'
    else smap_find (d_peers d') i = smap_find (d_peers d) i)"
  using assms
proof (induction ids arbitrary: d)
  case (Cons i ids)
  then obtain y d1 where one: "peer_do env i (\<lambda>e. run_peer_call e c) d = Inr (y, d1)"
    and rest: "tell_peers env (map (\<lambda>i. (i, c)) ids) d1 = Inr (x, d')"
    by (auto simp: tell_peers_def comp_simps split: sum.splits)
  from one obtain p p' where "smap_find (d_peers d) i = Some p" "run_peer_call (node_env env d) c p = Inr ((), p')"
    "d_peers d1 = smap_insert i p' (d_peers d)" "d_local_pdp d1 = d_local_pdp d"
    by (auto elim: peer_do_result)
  then have p: "smap_find (d_peers d) i = Some p" "told env c p p'" "d_peers d1 = smap_insert i p' (d_peers d)"
    "d_local_pdp d1 = d_local_pdp d" by (auto simp: told_def)
  from Cons.prems(1) have i: "i \<notin> set ids" "distinct ids" by simp_all
  note IH = Cons.IH[OF i(2) rest]
  show ?case
  proof (intro conjI allI)
    show "d_local_pdp d' = d_local_pdp d" using IH p(4) by simp
    show "if j \<in> set (i # ids)
      then \<exists>p p'. smap_find (d_peers d) j = Some p \<and> told env c p p' \<and> smap_find (d_peers d') j = Some p'
      else smap_find (d_peers d') j = smap_find (d_peers d) j" for j
      using IH[THEN conjunct2, THEN spec, of j] p i(1) by (cases "j = i") (auto simp: smap_simps)
  qed
qed (simp add: tell_peers_def comp_simps)


end
