(* ===== verification/PeerStream.thy ===== *)
theory PeerStream
  imports PeerReports
begin

text \<open>
  The byte stream of a session. TCP delivers the messages of a peer in pieces of any size;
  what a session does depends only on the bytes, not on how they were cut, and on a stream of
  well-formed messages every message is handled once, in order.
\<close>

section \<open>Pieces\<close>

lemma be_value_u64: "n \<le> 8 \<Longrightarrow> be_value (take n bs) < 2 ^ 64"
proof -
  assume n: "n \<le> 8"
  have "be_value (take n bs) < 256 ^ length (take n bs)" by (rule be_value_less)
  also have "(256::nat) ^ length (take n bs) \<le> 256 ^ 8" using n by (intro power_increasing) auto
  finally show ?thesis by simp
qed

lemma deserialize_field_append:
  assumes "n \<le> 8" and "n \<le> length bs"
  shows "(deserialize_field n (bs @ cs) :: ('a::len word \<times> bytes) res) =
    (case deserialize_field n bs of Inl e \<Rightarrow> Inl e | Inr (v, rest) \<Rightarrow> Inr (v :: 'a word, rest @ cs))"
proof -
  have len: "n \<le> length (bs @ cs)" and same: "take n (bs @ cs) = take n bs" "drop n (bs @ cs) = drop n bs @ cs"
    using assms(2) by simp_all
  show ?thesis
    unfolding deserialize_field_enough[OF assms(2) be_value_u64[OF assms(1)], where 'a = 'a]
      deserialize_field_enough[OF len be_value_u64[OF assms(1)], where 'a = 'a] same
    by simp
qed

lemma deserialize_field_rest:
  assumes "n \<le> 8" and "deserialize_field n bs = Inr (v :: 'a::len word, rest)"
  shows "n \<le> length bs \<and> rest = drop n bs"
proof -
  have "n \<le> length bs"
    using assms(2) deserialize_field_short[where 'a = 'a, of bs n] by (cases "length bs < n") auto
  with deserialize_field_enough[OF this be_value_u64[OF assms(1)], where 'a = 'a] assms(2) show ?thesis
    by (auto split: if_splits)
qed

lemma is_complete_append:
  assumes ok: "config_ok cfg"
    and header: "signal_id_size cfg + signal_length_size cfg \<le> length buf"
  shows "is_complete_message cfg (buf @ cs) n =
    (case is_complete_message cfg buf n of Inl e \<Rightarrow> Inl e | Inr (c, m) \<Rightarrow> Inr (unat m \<le> length buf + length cs, m))"
proof (cases "deserialize_field (signal_id_size cfg) buf :: (u32 \<times> bytes) res")
  case (Inl e)
  have "signal_id_size cfg \<le> 8" using ok by (simp add: config_ok_def field_size_ok_def)
  with Inl header show ?thesis by (simp add: is_complete_message_def deserialize_field_append)
next
  case (Inr r)
  obtain sid :: u32 and buf' where r: "deserialize_field (signal_id_size cfg) buf = Inr (sid, buf')"
    using Inr by (cases r) simp
  have sizes: "signal_id_size cfg \<le> 8" "signal_length_size cfg \<le> 8"
    using ok by (simp_all add: config_ok_def field_size_ok_def)
  then have "signal_length_size cfg \<le> length buf'" using deserialize_field_rest[OF _ r] header by auto
  with r sizes header show ?thesis
    by (simp add: is_complete_message_def Let_def deserialize_field_append split: sum.splits prod.splits)
qed

lemma is_complete_header:
  assumes "is_complete_message cfg buf n = Inr (True, m)" and "config_ok cfg"
  shows "signal_id_size cfg + signal_length_size cfg \<le> length buf" "unat m \<le> length buf" "buf \<noteq> []"
  using assms by (auto simp: is_complete_message_def Let_def res_simps config_ok_def field_size_ok_def split: if_splits)

lemma is_complete_error:
  "is_complete_message cfg buf n = Inl e \<Longrightarrow> signal_id_size cfg + signal_length_size cfg \<le> length buf"
  by (auto simp: is_complete_message_def Let_def split: if_splits)

lemma receive_loop_append:
  assumes ok: "config_ok (env_cfg env)"
  shows "receive_loop env (buf @ cs) p = bnd (receive_loop env buf) (\<lambda>rest. receive_loop env (rest @ cs)) p"
proof (induction "length buf" arbitrary: buf p rule: less_induct)
  case less
  show ?case
  proof (cases "is_complete_message (env_cfg env) buf 0")
    case (Inl e)
    then show ?thesis
      using is_complete_append[OF ok is_complete_error[OF Inl], of cs 0]
      by (simp add: receive_loop.simps[of env buf] receive_loop.simps[of env "buf @ cs"] comp_simps)
  next
    case (Inr r)
    obtain complete m where r: "is_complete_message (env_cfg env) buf 0 = Inr (complete, m)"
      using Inr by (cases r) simp
    show ?thesis
    proof (cases complete)
      case False
      then show ?thesis using r by (simp add: receive_loop.simps[of env buf] comp_simps)
    next
      case True
      with r have "is_complete_message (env_cfg env) buf 0 = Inr (True, m)" by simp
      note head = is_complete_header[OF this ok]
      have whole: "is_complete_message (env_cfg env) (buf @ cs) 0 = Inr (True, m)"
        using is_complete_append[OF ok head(1), of cs 0] r head(2) by simp
      show ?thesis
      proof (cases "handle_peer_signal env (take (unat m) buf) p")
        case (Inr up)
        obtain p' where p': "handle_peer_signal env (take (unat m) buf) p = Inr ((), p')"
          using Inr by (cases up) simp
        have "receive_loop env (drop (unat m) buf @ cs) p' =
            bnd (receive_loop env (drop (unat m) buf)) (\<lambda>rest. receive_loop env (rest @ cs)) p'" if "m \<noteq> 0"
          using less[of "drop (unat m) buf" p'] head(3) that by (simp add: unat_gt_0)
        then show ?thesis
          using r True whole head p'
          by (simp add: receive_loop.simps[of env buf] receive_loop.simps[of env "buf @ cs"] comp_simps)
      qed (use r True whole head in
          \<open>simp add: receive_loop.simps[of env buf] receive_loop.simps[of env "buf @ cs"] comp_simps\<close>)
    qed
  qed
qed

text \<open>
  The reads of a session, one piece each: what the loop left in the buffer is put before the
  next piece, as \<open>handle_session_receive\<close> does.
\<close>

fun receive_pieces :: "session_env \<Rightarrow> bytes \<Rightarrow> bytes list \<Rightarrow> bytes peer_comp" where
  "receive_pieces env buf [] = ret buf"
| "receive_pieces env buf (piece # pieces) =
     bnd (receive_loop env (buf @ piece)) (\<lambda>rest. receive_pieces env rest pieces)"

lemma receive_loop_done:
  assumes ok: "config_ok (env_cfg env)" and run: "receive_loop env buf p = Inr (rest, p')"
  shows "receive_loop env rest p'' = Inr (rest, p'')"
  using run
proof (induction "length buf" arbitrary: buf p rule: less_induct)
  case less
  from less.prems consider m where "rest = buf" "is_complete_message (env_cfg env) buf 0 = Inr (False, m)"
    | n p1 where "receive_loop env (drop n buf) p1 = Inr (rest, p')" "n > 0" "buf \<noteq> []"
    by (subst (asm) receive_loop.simps) (auto split: sum.splits if_splits simp: unat_gt_0)
  then show ?case
  proof cases
    case 1
    then show ?thesis by (simp add: receive_loop.simps[of env buf])
  next
    case 2
    then show ?thesis using less.hyps[of "drop n buf" p1] by simp
  qed
qed

lemma receive_pieces_concat:
  assumes ok: "config_ok (env_cfg env)" and "receive_loop env buf p = Inr (buf, p)"
  shows "receive_pieces env buf pieces p = receive_loop env (buf @ concat pieces) p"
  using assms(2)
proof (induction pieces arbitrary: buf p)
  case (Cons piece pieces)
  show ?case
  proof (cases "receive_loop env (buf @ piece) p")
    case (Inr r)
    then obtain rest p' where run: "receive_loop env (buf @ piece) p = Inr (rest, p')" by (cases r) simp
    have "receive_loop env rest p' = Inr (rest, p')" by (rule receive_loop_done[OF ok run])
    from Cons.IH[OF this] run show ?thesis
      using receive_loop_append[OF ok, of "buf @ piece" "concat pieces" p] by (simp add: comp_simps)
  next
    case (Inl e)
    then show ?thesis using receive_loop_append[OF ok, of "buf @ piece" "concat pieces" p] by (simp add: comp_simps)
  qed
qed (simp add: comp_simps)

section \<open>Streams of messages\<close>

text \<open>A message as a peer sends it: built by the operations of \<open>ProtocolMessage\<close>.\<close>

definition sendable :: "ProtocolConfig \<Rightarrow> ProtocolMessage \<Rightarrow> bool" where
  "sendable cfg pm \<longleftrightarrow> (\<exists>client name. building cfg client name pm) \<and> \<not> is_signal pm \<and> length (msgbuf pm) < 2 ^ 64"

lemma sendable_complete:
  assumes "config_ok cfg" and "sendable cfg pm"
  shows "is_complete_message cfg (msgbuf pm @ rest) n = Inr (True, of_nat (length (msgbuf pm)))"
    and "k < length (msgbuf pm) \<Longrightarrow> \<exists>m. is_complete_message cfg (take k (msgbuf pm)) n = Inr (False, m)"
proof -
  from assms(2) obtain client name where "building cfg client name pm" and pm: "\<not> is_signal pm" "length (msgbuf pm) < 2 ^ 64"
    by (auto simp: sendable_def)
  with building_layout[OF assms(1)] obtain body where "built cfg pm body" by (force simp: layout_ok_def)
  note complete = is_complete_built[OF assms(1) this pm]
  show "is_complete_message cfg (msgbuf pm @ rest) n = Inr (True, of_nat (length (msgbuf pm)))" by (rule complete)
  show "k < length (msgbuf pm) \<Longrightarrow> \<exists>m. is_complete_message cfg (take k (msgbuf pm)) n = Inr (False, m)"
    by (rule complete(2))
qed

lemma receive_loop_partial:
  assumes "config_ok (env_cfg env)" and "sendable (env_cfg env) pm" and "k < length (msgbuf pm)"
  shows "receive_loop env (take k (msgbuf pm)) p = Inr (take k (msgbuf pm), p)"
  using sendable_complete(2)[OF assms, of 0] by (auto simp: receive_loop.simps[of env "take k (msgbuf pm)"])

lemma receive_loop_message:
  assumes ok: "config_ok (env_cfg env)" and pm: "sendable (env_cfg env) pm"
  shows "receive_loop env (msgbuf pm @ rest) p = bnd (handle_peer_signal env (msgbuf pm)) (\<lambda>_. receive_loop env rest) p"
proof -
  have "length (msgbuf pm) < 2 ^ 64" using pm by (simp add: sendable_def)
  then have size: "unat (of_nat (length (msgbuf pm)) :: u64) = length (msgbuf pm)" by (simp only: unat_of_nat) simp
  note complete = sendable_complete(1)[OF ok pm, of rest 0]
  have "msgbuf pm \<noteq> []" using is_complete_header(3)[OF _ ok, of "msgbuf pm" 0] sendable_complete(1)[OF ok pm, of "[]" 0] by auto
  then have "of_nat (length (msgbuf pm)) \<noteq> (0 :: u64)" using size by (metis length_0_conv unsigned_0)
  with \<open>msgbuf pm \<noteq> []\<close> show ?thesis
    using complete size
    by (simp add: receive_loop.simps[of env "msgbuf pm @ rest"] comp_simps split: sum.splits prod.splits)
qed

lemma receive_loop_messages:
  assumes ok: "config_ok (env_cfg env)" and "list_all (sendable (env_cfg env)) pms"
    and "receive_loop env rest = ret rest"
  shows "receive_loop env (concat (map msgbuf pms) @ rest) p =
    bnd (each (\<lambda>pm. handle_peer_signal env (msgbuf pm)) pms) (\<lambda>_. ret rest) p"
  using assms(2)
proof (induction pms arbitrary: p)
  case (Cons pm pms)
  then have "receive_loop env (msgbuf pm @ concat (map msgbuf pms) @ rest) p =
      bnd (handle_peer_signal env (msgbuf pm)) (\<lambda>_. receive_loop env (concat (map msgbuf pms) @ rest)) p"
    by (intro receive_loop_message[OF ok]) simp
  with Cons show ?case by (auto simp: comp_simps split: sum.splits)
qed (simp add: assms(3) comp_simps)

text \<open>
  C12: a session handles every message its peer sends exactly once and in order. Whatever part
  of a message the buffer held before, a read after which it holds complete messages and the
  beginning of another handles the complete ones and keeps the rest for the next read; the
  time of the read is remembered, and the next read is started with the room that is left.
\<close>

theorem receive_messages:
  assumes "config_ok (env_cfg env)" and "list_all (sendable (env_cfg env)) pms"
    and "sendable (env_cfg env) next_pm" and "k < length (msgbuf next_pm)"
    and "p_recv_buffer p @ bytes_recvd = concat (map msgbuf pms) @ take k (msgbuf next_pm)"
  shows "handle_session_receive env Receive_ok bytes_recvd p =
    next_do (each (\<lambda>pm. handle_peer_signal env (msgbuf pm)) pms)
    (next_do (change (\<lambda>p. p\<lparr>p_recv_buffer := take k (msgbuf next_pm)\<rparr>))
      (act (Read_some (MAX_SIGNAL_SIZE - k)))) (p\<lparr>p_last_receive_time := env_time env\<rparr>)"
proof -
  have "receive_loop env (take k (msgbuf next_pm)) = ret (take k (msgbuf next_pm))"
    using receive_loop_partial[OF assms(1,3,4)] by (simp add: fun_eq_iff comp_simps)
  note loop = receive_loop_messages[OF assms(1,2) this]
  have "length (take k (msgbuf next_pm)) = k" using assms(4) by simp
  with loop assms(5) show ?thesis
    by (simp add: handle_session_receive_def comp_simps act_def split: sum.splits)
qed


end
