(* ===== verification/PeerChecks.thy ===== *)
theory PeerChecks
  imports PeerReports
begin

text \<open>
  The checks a session makes on what it receives: that no address or subnet gets a second
  owner and that none is dropped that is not there, and that a peer whose heartbeats fail is
  noticed in time.
\<close>

section \<open>Addresses\<close>

text \<open>The addresses and subnets a peer and its destinations hold.\<close>

definition held_by :: "PeerData \<Rightarrow> ip_key set" where
  "held_by pd = ip_keys (pd_ip_data_items pd) \<union> (\<Union>(mac, dd)\<in>set (pd_destination_data pd). ip_keys (dd_ip_data_items dd))"

definition owned :: "session_env \<Rightarrow> Peer \<Rightarrow> ip_key set" where
  "owned env p = held_by (env_local_pdp env) \<union> (\<Union>pd\<in>set (peers_now env p). held_by pd)"

lemma peer_find_ip_held: "ip_key_of di = Some k \<Longrightarrow> peer_find_ip di pd \<noteq> '''' \<longleftrightarrow> k \<in> held_by pd"
  using find_ip_in_destinations_iff[of di "pd_destination_data pd"]
    find_ip_data_item_keys[of di "pd_ip_data_items pd"]
  by (auto simp: peer_find_ip_def held_by_def)

lemma find_ip_in_peers_held:
  "ip_key_of di = Some k \<Longrightarrow> find_ip_in_peers di pds \<noteq> '''' \<longleftrightarrow> (\<exists>pd\<in>set pds. k \<in> held_by pd)"
  by (induction pds) (auto simp: Let_def peer_find_ip_held)

lemma ip_owner_of_owned: "ip_key_of di = Some k \<Longrightarrow> ip_owner_of env p di \<noteq> '''' \<longleftrightarrow> k \<in> owned env p"
  using peer_find_ip_held[of di k "env_local_pdp env"] find_ip_in_peers_held[of di k "peers_now env p"]
  by (auto simp: ip_owner_of_def owned_def Let_def)

text \<open>What a data item asks for is possible.\<close>

definition ip_allowed :: "session_env \<Rightarrow> Peer \<Rightarrow> DataItem list \<Rightarrow> DataItem \<Rightarrow> bool" where
  "ip_allowed env p existing di =
     (case ip_key_of di of None \<Rightarrow> False | Some k \<Rightarrow> if ip_adding di then k \<notin> owned env p else k \<in> ip_keys existing)"

lemma ip_allowed_iff:
  "ip_allowed env p existing di \<longleftrightarrow>
     (if ip_adding di then ip_owner_of env p di = '''' else find_ip_data_item di existing \<noteq> None)"
proof (cases "ip_key_of di")
  case None
  then have "\<not> ip_adding di" using ip_adding_key by blast
  with None find_ip_data_item_keys[of di existing] show ?thesis by (simp add: ip_allowed_def)
next
  case (Some k)
  then show ?thesis
    using ip_owner_of_owned[OF Some, of env p] find_ip_data_item_keys[of di existing] by (auto simp: ip_allowed_def)
qed

text \<open>
  \<open>validate_ip_data_items\<close> returns no error exactly when every address and subnet the
  message adds has no owner yet, neither this node nor any peer nor a destination of either,
  and every one it drops is among those its owner has.
\<close>

lemma validate_ip_correct:
  assumes "ids_known (env_cfg env) items"
  shows "validate_ip_data_items env p items existing = Inr '''' \<longleftrightarrow>
    (\<forall>di\<in>set items. is_ipaddr (env_cfg env) (di_id di) None = Inr True \<longrightarrow>
      (case ip_key_of di of None \<Rightarrow> False | Some k \<Rightarrow> if ip_adding di then k \<notin> owned env p else k \<in> ip_keys existing))"
  unfolding ip_allowed_def[symmetric] using assms
proof (induction items)
  case (Cons di dis)
  from ids_known_Cons[OF Cons.prems] obtain ip where ip: "is_ipaddr (env_cfg env) (di_id di) None = Inr ip"
    and rest: "ids_known (env_cfg env) dis" by blast
  from Cons.IH[OF rest] ip show ?case
    by (auto simp: ip_allowed_iff Let_def res_simps split: if_splits)
qed simp

section \<open>Heartbeats\<close>

lemma of_int_u32: "0 \<le> x \<Longrightarrow> x < 2 ^ 32 \<Longrightarrow> uint (of_int x :: u32) = x"
  by (simp add: unsigned_of_int take_bit_int_eq_self)

lemma active_time_exact:
  assumes "0 \<le> t" and "t + uint i * uint n < 2 ^ 32"
  shows "uint (active_time t i n) = t + uint i * uint n"
proof -
  have pos: "0 \<le> uint i * uint n" by simp
  have "uint i * uint n < 2 ^ 32" using assms pos by linarith
  with pos have "uint (i * n) = uint i * uint n" by (simp add: uint_word_ariths)
  with assms pos show ?thesis unfolding active_time_def by (subst of_int_u32) simp_all
qed

text \<open>
  C22: a silent peer is given up exactly when it has been silent for \<open>heartbeat-threshold\<close> of
  its own heartbeat intervals, as long as the deadline fits the 32 bits the code computes it
  in: from then on the check returns with the session terminating, and before it nothing
  happens. A peer that announced no heartbeats is never given up.
\<close>

theorem silent_peer_terminated:
  assumes "session E p" and "cp_unsigned (env_params env) ''heartbeat-threshold'' = Inr n"
    and "0 \<le> p_last_receive_time p"
    and "p_last_receive_time p + uint (p_heartbeat_interval_sec p) * uint n < 2 ^ 32"
    and "termination_message env ''Timed_Out'' '''' = Inr pm" and "new_ResponsePending (env_cfg env) pm 0 = Inr rp"
  shows "if p_heartbeat_interval_sec p \<noteq> 0
      \<and> p_last_receive_time p + uint (p_heartbeat_interval_sec p) * uint n \<le> env_time env
    then \<exists>p'. check_for_activity env p = Inr (False, p') \<and> p_state p' = Terminating
    else check_for_activity env p = Inr (True, p)"
proof -
  obtain p' where "terminate env ''Timed_Out'' '''' p = Inr ((), p')" and "p_state p' = Terminating"
    by (rule terminate_ends[OF session_queues_ok[OF assms(1)] assms(5,6)])
  then show ?thesis
    using active_time_exact[OF assms(3,4)] assms(2) by (simp add: check_for_activity_def comp_simps)
qed

lemma unat_u32_mult: "unat a * unat b < 2 ^ 32 \<Longrightarrow> unat (a * b :: u32) = unat a * unat b"
  by (simp add: unat_word_ariths)

lemma unat_u32_add: "unat a + unat b < 2 ^ 32 \<Longrightarrow> unat (a + b :: u32) = unat a + unat b"
  by (simp add: unat_word_ariths)

lemma round_div: "0 < d \<Longrightarrow> (s * d + d div 2) div d = (s :: nat)"
  by (simp add: div_mult_self3)

lemma heartbeat_in_units_divisor: "heartbeat_in_units units s = s * heartbeat_divisor units"
  by (simp add: heartbeat_in_units_def heartbeat_divisor_def)


end
