(* ===== verification/PeerWitnesses.thy ===== *)
theory PeerWitnesses
  imports PeerStream PeerChecks Witnesses
begin

text \<open>
  The properties of sessions instantiated at a modem that uses the shipped RFC 8175
  configuration and has told its router about a destination.
\<close>

section \<open>A session\<close>

definition ex_params :: client_config where
  "ex_params = \<lparr>cp_bool = (\<lambda>s. Inr False),
     cp_unsigned = (\<lambda>s. Inr (if s = ''send-tries'' then 1 else if s = ''ack-timeout'' then 5 else 60)),
     cp_string = (\<lambda>s. Inr ''modem'')\<rparr>"

definition ex_local :: PeerData where
  "ex_local = \<lparr>pd_peer_id = ''local'', pd_destination_data = [], pd_metric_data_items = [], pd_ip_data_items = [],
     pd_other_data_items = []\<rparr>"

definition ex_env :: "int \<Rightarrow> session_env" where
  "ex_env t = \<lparr>env_cfg = rfc8175_config, env_modem = True, env_params = ex_params, env_ip = ex_ip,
     env_peer_init = (\<lambda>i dis. (False, dis)), env_destination_up = (\<lambda>i mac dis. ''''),
     env_local_pdp = ex_local, env_peers = [], env_time = t, env_rand = (\<lambda>n. 0),
     env_advert_enabled = False, env_peer_mac = None\<rparr>"

definition ex_new :: Peer where
  "ex_new = \<lparr>p_peer_id = ''router'', p_pdp = ex_local\<lparr>pd_peer_id := ''router''\<rparr>, p_peer_type = ''unknown'',
     p_experiment_names = [], p_state = Connected, p_responses_pending = [], p_heartbeat_interval = 0,
     p_heartbeat_interval_sec = 0, p_heartbeat_msg = new_ProtocolMessage, p_last_receive_time = 100,
     p_recv_buffer = [], p_mutual_extensions = [], p_not_interested = [], p_next_ref = 0, p_rand_calls = 0,
     p_actions = []\<rparr>"

text \<open>The Destination Up message of the destination, and what is kept until it is answered.\<close>

definition ex_up :: ProtocolMessage where
  "ex_up = new_ProtocolMessage\<lparr>msgbuf := [0, 7, 0, 10, 0, 7, 0, 6, 0, 1, 2, 3, 4, 5], msg_len_index := 2,
     header_length := 4, signal_id := 7, signal_id_initialized := True\<rparr>"

definition ex_up_parsed :: ProtocolMessage where
  "ex_up_parsed = ex_up\<lparr>data_items := [DataItem 7 (Div_dlepmac ex_mac)]\<rparr>"

definition ex_pending :: ResponsePending where
  "ex_pending = \<lparr>rp_ref = 0, rp_response_id = 8, rp_response_name = ''Destination_Up_Response'',
     rp_destination = ex_mac, rp_queued = False, rp_msg_buffer = msgbuf ex_up, rp_send_time = 0, rp_send_tries = 0\<rparr>"

definition ex_sent :: ResponsePending where
  "ex_sent = ex_pending\<lparr>rp_queued := True, rp_send_time := 100, rp_send_tries := 1\<rparr>"

definition ex_waiting :: Peer where
  "ex_waiting = ex_new\<lparr>p_responses_pending := [(ex_mac, [ex_sent])], p_next_ref := 1,
     p_actions := [Send (msgbuf ex_up)]\<rparr>"

text \<open>The answer of the router.\<close>

definition ex_answer :: ProtocolMessage where
  "ex_answer = new_ProtocolMessage\<lparr>msgbuf := [0, 8, 0, 15, 0, 1, 0, 1, 0, 0, 7, 0, 6, 0, 1, 2, 3, 4, 5],
     msg_len_index := 2, header_length := 4, signal_id := 8, signal_id_initialized := True,
     data_items := [DataItem 1 (Div_u8_string 0 ''''), DataItem 7 (Div_dlepmac ex_mac)]\<rparr>"

text \<open>The message that ends the session.\<close>

definition ex_term :: ProtocolMessage where
  "ex_term = new_ProtocolMessage\<lparr>msgbuf := [0, 5, 0, 5, 0, 1, 0, 1, 132], msg_len_index := 2,
     header_length := 4, signal_id := 5, signal_id_initialized := True\<rparr>"

definition ex_term_parsed :: ProtocolMessage where
  "ex_term_parsed = ex_term\<lparr>data_items := [DataItem 1 (Div_u8_string 132 '''')]\<rparr>"

definition ex_term_pending :: ResponsePending where
  "ex_term_pending = \<lparr>rp_ref = 0, rp_response_id = 6, rp_response_name = ''Session_Termination_Response'',
     rp_destination = DlepMac [], rp_queued = False, rp_msg_buffer = msgbuf ex_term, rp_send_time = 0, rp_send_tries = 0\<rparr>"

lemma ex_env_simps [simp]:
  "env_cfg (ex_env t) = rfc8175_config" "env_modem (ex_env t)" "env_params (ex_env t) = ex_params"
  "env_ip (ex_env t) = ex_ip" "env_time (ex_env t) = t" "env_local_pdp (ex_env t) = ex_local"
  "\<not> env_advert_enabled (ex_env t)" "env_peers (ex_env t) = []"
  by (simp_all add: ex_env_def)

lemma ex_params_simps [simp]:
  "cp_unsigned ex_params ''send-tries'' = Inr 1" "cp_unsigned ex_params ''ack-timeout'' = Inr 5"
  by (simp_all add: ex_params_def)

lemma ex_new: "new_Peer (ex_env 100) ''router'' = Inr ex_new"
  by code_simp

lemma ex_up_built:
  "rbind (add_header rfc8175_config ''Destination_Up'' new_ProtocolMessage) (\<lambda>pm.
   rbind (add_mac rfc8175_config ex_mac pm) (\<lambda>pm.
   rbind (add_data_items rfc8175_config [] pm)
     (add_common_data_items rfc8175_config ex_params))) = Inr ex_up"
  by code_simp

lemma ex_up_reparse: "parse_and_validate ex_ip rfc8175_config True ''destination_up'' ex_up = Inr (ex_up_parsed, '''')"
  by code_simp

lemma ex_up_pending: "new_ResponsePending rfc8175_config ex_up_parsed 0 = Inr ex_pending"
  by code_simp

lemma ex_up_name: "destination_up_name (ex_env t) ex_mac ex_new = (''Destination_Up'', False)"
  by (simp add: destination_up_name_def needs_response_def getDestinationData_def ex_new_def ex_local_def Let_def smap_simps)

lemma ex_term_message: "termination_message (ex_env t) ''Timed_Out'' '''' = Inr ex_term_parsed"
proof -
  have "rbind (add_header rfc8175_config ''Session_Termination'' new_ProtocolMessage)
      (add_status rfc8175_config ''Timed_Out'' '''') = Inr ex_term"
    by code_simp
  moreover have "parse_and_validate ex_ip rfc8175_config True ''terminate'' ex_term = Inr (ex_term_parsed, '''')"
    by code_simp
  ultimately show ?thesis
    by (auto simp: termination_message_def reparse_assert_def reparse_def assert_that_def res_simps)
qed

lemma ex_term_pending: "new_ResponsePending rfc8175_config ex_term_parsed 0 = Inr ex_term_pending"
  by code_simp

definition ex_envs :: "session_env \<Rightarrow> bool" where
  "ex_envs env \<longleftrightarrow> (\<exists>t. env = ex_env t)"

lemma ex_session_new: "session ex_envs ex_new"
  by (rule session.new[OF _ ex_new]) (auto simp: ex_envs_def)

lemma ex_waiting: "handle_event (ex_env 100) (Peer_call (Call_destination_up ex_mac [])) ex_new = Inr ((), ex_waiting)"
proof -
  have pending: "new_ResponsePending (env_cfg (ex_env 100)) ex_up_parsed (p_next_ref ex_new) = Inr ex_pending"
    by (simp add: ex_up_pending, simp add: ex_new_def ex_up_pending)
  have "send_expecting (ex_env 100) ex_up_parsed ex_new = Inr ((), ex_waiting)"
    using send_expecting_total[OF session_queues_ok[OF ex_session_new] pending]
    by (simp add: after_send_def Let_def ex_new_def ex_waiting_def ex_pending_def ex_sent_def ex_up_parsed_def
        pending_for_def is_not_interested_def smap_simps)
  moreover have "rbind (add_header rfc8175_config ''Destination_Up'' new_ProtocolMessage) (\<lambda>pm.
      rbind (add_mac rfc8175_config ex_mac pm) (\<lambda>pm.
      rbind (add_data_items rfc8175_config [] pm) (\<lambda>pm.
      rbind (add_common_data_items rfc8175_config ex_params pm) (\<lambda>pm.
      rbind (reparse (ex_env 100) ''destination_up'' pm) (\<lambda>(pm, _). Inr pm))))) = Inr ex_up_parsed"
    using ex_up_built ex_up_reparse by (auto simp: reparse_def res_simps)
  ultimately show ?thesis
    by (simp add: run_peer_call_def peer_destination_up_def ex_up_name comp_simps)
qed

lemma ex_session: "session ex_envs ex_waiting"
  by (rule session.event[OF ex_session_new _ ex_waiting]) (auto simp: ex_envs_def)

lemma ex_queue: "smap_find (p_responses_pending ex_waiting) ex_mac = Some [ex_sent]"
  by (simp add: ex_waiting_def smap_simps)

lemma ex_pending_for: "pending_for ex_mac ex_waiting = [ex_sent]"
  by (simp add: pending_for_def ex_queue)

section \<open>Witnesses\<close>

theorem one_in_flight_witness:
  "distinct (map rp_ref [ex_sent]) \<and> list_all (\<lambda>rp. rp_destination rp = ex_mac) [ex_sent]"
  using one_in_flight[OF ex_session ex_queue] by simp

theorem handle_response_witness:
  "\<exists>p'. handle_response (ex_env 101) ex_answer ex_waiting = Inr (True, p') \<and> pending_for ex_mac p' = []
     \<and> p_actions p' = p_actions ex_waiting"
proof -
  have "pm_get_signal_name (env_cfg (ex_env 101)) ex_answer = Inr ''Destination_Up_Response''"
    unfolding ex_env_simps by code_simp
  moreover have "message_destination (env_cfg (ex_env 101)) ex_answer = Inr ex_mac"
    unfolding ex_env_simps by code_simp
  moreover have "response_expected ex_answer ex_mac ex_waiting"
    by (simp add: response_expected_def ex_pending_for ex_sent_def ex_pending_def ex_answer_def pm_get_signal_id_def)
  ultimately show ?thesis
    using handle_response_correct[OF ex_session, of "ex_env 101" ex_answer "''Destination_Up_Response''" ex_mac]
    by (auto simp: ex_pending_for)
qed


theorem unanswered_terminates_witness:
  "\<exists>p'. check_for_retransmits (ex_env 200) ex_waiting = Inr ((), p') \<and> p_state p' = Terminating"
  by (rule unanswered_terminates[OF ex_session ex_queue, where timeout = 5 and tries = 1 and pm = ex_term_parsed
        and rp = ex_term_pending])
    (simp_all add: ex_term_message ex_term_pending ex_sent_def)

theorem terminate_witness:
  "\<exists>p'. terminate (ex_env 200) ''Timed_Out'' '''' ex_waiting = Inr ((), p') \<and> p_state p' = Terminating
     \<and> p_actions p' = [Send (msgbuf ex_up), Stop_timers, Client_peer_down ''router'', Send (msgbuf ex_term),
         Info_remove_peer ''router'']"
proof -
  have "p_state ex_waiting = Connected" "p_peer_id ex_waiting = ''router''"
    "\<not> is_not_interested (DlepMac []) ex_waiting" "pending_for (DlepMac []) ex_waiting = []"
    "p_actions ex_waiting = [Send (msgbuf ex_up)]" "rp_destination ex_term_pending = DlepMac []"
    "msgbuf ex_term_parsed = msgbuf ex_term"
    by (simp_all add: ex_waiting_def ex_new_def is_not_interested_def pending_for_def smap_simps ex_mac_def
        ex_term_pending_def ex_term_parsed_def)
  then show ?thesis
    using terminate_correct[OF ex_session, of "ex_env 200" "''Timed_Out''" "''''" ex_term_parsed ex_term_pending]
    by (auto simp: ex_term_message ex_term_pending)
qed

theorem reports_follow_state_witness:
  "p_state ex_waiting = Connected \<and> filter (\<lambda>a. is_peer_up a \<or> is_peer_down a) (p_actions ex_waiting) = []"
  using reports_follow_state[OF ex_session] by (simp add: ex_waiting_def)


section \<open>Receiving\<close>

lemma ex_up_sendable: "sendable rfc8175_config ex_up"
proof -
  obtain pm1 pm2 pm3 where steps: "add_header rfc8175_config ''Destination_Up'' new_ProtocolMessage = Inr pm1"
    "add_mac rfc8175_config ex_mac pm1 = Inr pm2" "add_data_items rfc8175_config [] pm2 = Inr pm3"
    "add_common_data_items rfc8175_config ex_params pm3 = Inr ex_up"
    using ex_up_built by (auto simp: res_simps)
  have "building rfc8175_config ex_params ''Destination_Up'' ex_up"
    by (rule building.common[OF building.items[OF building.mac[OF building.header[OF steps(1)] steps(2)] steps(3)] steps(4)])
  moreover have "\<not> is_signal ex_up" "length (msgbuf ex_up) < 2 ^ 64"
    by (simp_all add: ex_up_def new_ProtocolMessage_def)
  ultimately show ?thesis by (auto simp: sendable_def)
qed

theorem receive_messages_witness:
  "handle_session_receive (ex_env 101) Receive_ok (msgbuf ex_up @ [0, 7]) ex_new =
     next_do (each (\<lambda>pm. handle_peer_signal (ex_env 101) (msgbuf pm)) [ex_up])
     (next_do (change (\<lambda>p. p\<lparr>p_recv_buffer := take 2 (msgbuf ex_up)\<rparr>)) (act (Read_some (MAX_SIGNAL_SIZE - 2))))
       (ex_new\<lparr>p_last_receive_time := env_time (ex_env 101)\<rparr>)"
proof (rule receive_messages)
  show "config_ok (env_cfg (ex_env 101))" by (simp add: rfc8175_ok)
  show "p_recv_buffer ex_new @ msgbuf ex_up @ [0, 7] = concat (map msgbuf [ex_up]) @ take 2 (msgbuf ex_up)"
    by (simp add: ex_new_def ex_up_def)
qed (simp_all add: ex_up_sendable, simp add: ex_up_def)


section \<open>Checks\<close>

theorem validate_ip_witness:
  "validate_ip_data_items (ex_env 101) ex_waiting ex_items [] = Inr '''' \<longleftrightarrow>
    (\<forall>di\<in>set ex_items. is_ipaddr rfc8175_config (di_id di) None = Inr True \<longrightarrow>
      (case ip_key_of di of None \<Rightarrow> False | Some k \<Rightarrow> if ip_adding di then k \<notin> owned (ex_env 101) ex_waiting else k \<in> ip_keys []))"
  using validate_ip_correct[of "ex_env 101" ex_items ex_waiting "[]"] items_ok_ids_known[OF ex_items_ok] by simp

theorem silent_peer_witness: "check_for_activity (ex_env 200) ex_waiting = Inr (True, ex_waiting)"
proof -
  have "cp_unsigned (env_params (ex_env 200)) ''heartbeat-threshold'' = Inr 60" by (simp add: ex_params_def)
  from silent_peer_terminated[OF ex_session this, of ex_term_parsed ex_term_pending]
  show ?thesis by (simp add: ex_term_message ex_term_pending ex_waiting_def ex_new_def)
qed


end
