(* ===== verification/DlepWitnesses.thy ===== *)
theory DlepWitnesses
  imports DlepNode PeerWitnesses
begin

text \<open>
  The properties of destination advertisement and of nodes instantiated at a modem with one
  session, set up with the shipped RFC 8175 configuration.
\<close>

section \<open>Advertisements\<close>

definition ex_advert :: DestinationAdvertisement where
  "ex_advert = \<lparr>pb_reportinterval = 10, pb_sequencenumber = 1, pb_uptimeinseconds = 5, pb_localid = ''r'',
     pb_destinations = [''a'', ''b'']\<rparr>"

definition ex_serialize :: "DestinationAdvertisement \<Rightarrow> bool \<times> string" where
  "ex_serialize da = (da = ex_advert, ''x'')"

definition ex_parse :: "bytes \<Rightarrow> DestinationAdvertisement option" where
  "ex_parse bs = (if bs = map byte_of_char ''x'' then Some ex_advert else None)"

definition ex_info :: DestAdvertInfo where
  "ex_info = \<lparr>da_reportInterval = 10, da_uptime = 5, da_sequenceNumber = 1, da_rfId = DlepMac [114],
     da_destinations = [DlepMac [97], DlepMac [98]]\<rparr>"

definition ex_entry :: DestAdvertDBEntry where
  "ex_entry = \<lparr>de_timestamp = 100, de_estate = Entry_up, de_placeholder = False,
     de_info = ex_info\<lparr>da_destinations := [DlepMac [97]]\<rparr>, de_data_items = []\<rparr>"

definition ex_advertiser :: DestAdvert where
  "ex_advertiser = (new_DestAdvert 90 10 (DlepMac [109]))\<lparr>da_db := [(DlepMac [114], ex_entry)]\<rparr>"

lemma ex_unbuild: "unbuild_destination_advert ex_parse (map byte_of_char ''x'') = Some ex_info"
  by code_simp

theorem advert_round_trip_witness: "unbuild_destination_advert ex_parse (map byte_of_char ''x'') = Some ex_info"
proof (rule advert_round_trip[where SerializeToString = ex_serialize])
  show "ex_parse (map byte_of_char s) = Some da" if "ex_serialize da = (True, s)" for da s
    using that by (auto simp: ex_serialize_def ex_parse_def)
  show "build_destination_advert ex_serialize ex_info = (True, ''x'')" by code_simp
  show "sorted (da_destinations ex_info)" "distinct (da_destinations ex_info)" by code_simp+
qed

theorem advert_update_witness:
  "\<exists>da' pdp' calls. advert_handle_message rfc8175_config [] ex_parse 105 (map byte_of_char ''x'') (ex_advertiser, ex_local)
       = Inr ((da', pdp'), calls) \<and> validDestination (DlepMac [98]) pdp'"
proof -
  have "\<exists>da' pdp' calls. advert_handle_message rfc8175_config [] ex_parse 105 (map byte_of_char ''x'') (ex_advertiser, ex_local)
      = Inr ((da', pdp'), calls)
    \<and> find_advert_entry (da_rfId ex_info) da' = Some (ex_entry\<lparr>de_timestamp := 105, de_info := ex_info\<rparr>)
    \<and> (\<forall>rf. rf \<noteq> da_rfId ex_info \<longrightarrow> find_advert_entry rf da' = find_advert_entry rf ex_advertiser)
    \<and> (\<forall>m. validDestination m pdp' \<longleftrightarrow>
        (if de_estate ex_entry = Entry_up
         then m \<in> set (da_destinations ex_info) - set (da_destinations (de_info ex_entry))
           \<or> validDestination m ex_local \<and> m \<notin> set (da_destinations (de_info ex_entry)) - set (da_destinations ex_info)
         else validDestination m ex_local))"
  proof (rule advert_update_correct)
    show "smap_ok (pd_destination_data ex_local)" by (simp add: ex_local_def)
    show "ids_known rfc8175_config (de_data_items ex_entry)" by (simp add: ex_entry_def ids_known_def)
    show "unbuild_destination_advert ex_parse (map byte_of_char ''x'') = Some ex_info" by (rule ex_unbuild)
    show "find_advert_entry (da_rfId ex_info) ex_advertiser = Some ex_entry" by code_simp
  qed simp
  moreover have "DlepMac [98] \<in> set (da_destinations ex_info) - set (da_destinations (de_info ex_entry))"
    "de_estate ex_entry = Entry_up" by (simp_all add: ex_info_def ex_entry_def)
  ultimately show ?thesis by auto
qed


section \<open>A node\<close>

definition ex_node :: Dlep where
  "ex_node = projr (new_Dlep (ex_env 100) None)"

lemma ex_node: "new_Dlep (ex_env 100) None = Inr ex_node"
proof -
  have "\<not> isl (new_Dlep (ex_env 100) None)" by code_simp
  then show ?thesis by (simp add: ex_node_def)
qed

lemma ex_node_fields [simp]: "d_peers ex_node = []" "d_advert ex_node = None" "d_info_base ex_node = []"
  using new_Dlep_empty[OF ex_node] by simp_all

lemma ex_node_reached: "node ex_envs ex_node"
  by (rule node.new[OF _ ex_node]) (auto simp: ex_envs_def)

text \<open>The heartbeat message the session of a new connection prepares.\<close>

definition ex_heartbeat :: ProtocolMessage where
  "ex_heartbeat = new_ProtocolMessage\<lparr>msgbuf := [0, 16, 0, 0], msg_len_index := 2, header_length := 4,
     signal_id := 16, signal_id_initialized := True\<rparr>"

lemma ex_heartbeat_built:
  "rbind (add_header rfc8175_config ''Heartbeat'' new_ProtocolMessage) (\<lambda>pm.
   rbind (add_common_data_items rfc8175_config ex_params pm) (\<lambda>pm.
   reparse_assert (ex_env t) ''start_peer'' pm)) = Inr ex_heartbeat"
proof -
  have "rbind (add_header rfc8175_config ''Heartbeat'' new_ProtocolMessage)
      (add_common_data_items rfc8175_config ex_params) = Inr ex_heartbeat"
    by code_simp
  moreover have "parse_and_validate ex_ip rfc8175_config True ''start_peer'' ex_heartbeat = Inr (ex_heartbeat, '''')"
    by code_simp
  ultimately show ?thesis by (auto simp: reparse_assert_def reparse_def assert_that_def res_simps)
qed

definition ex_open :: Peer where
  "ex_open = ex_new\<lparr>p_heartbeat_msg := ex_heartbeat, p_actions := [Start_acktivity_timer, Read_some MAX_SIGNAL_SIZE]\<rparr>"

lemma node_env_simps [simp]:
  "env_cfg (node_env env d) = env_cfg env" "env_params (node_env env d) = env_params env"
  "env_modem (node_env env d) = env_modem env" "env_ip (node_env env d) = env_ip env"
  "env_time (node_env env d) = env_time env"
  by (simp_all add: node_env_def)

lemma ex_start: "start_peer (node_env (ex_env 100) d) ex_new = Inr ((), ex_open)"
proof -
  have same: "reparse_assert (node_env (ex_env 100) d) f = reparse_assert (ex_env 100) f" for f
    by (simp add: fun_eq_iff reparse_assert_def reparse_def)
  show ?thesis
    using ex_heartbeat_built[of 100]
    by (simp add: start_peer_def same schedule_acktivity_timer_def act_def comp_simps ex_open_def ex_new_def)
qed

definition ex_connected :: Dlep where
  "ex_connected = ex_node\<lparr>d_peers := [(''router'', ex_open)], d_info_base := [''router''], d_actions := d_actions ex_node @ [Start_accept]\<rparr>"

lemma ex_connected_reached: "node ex_envs ex_connected"
proof (rule node.event[OF ex_node_reached])
  show "ex_envs (ex_env 100)" by (auto simp: ex_envs_def)
  have new: "new_Peer (node_env (ex_env 100) d) ''router'' = Inr ex_new" for d
    using ex_new by (simp add: new_Peer_def)
  have ttl: "cp_unsigned ex_params ''session-ttl'' = Inr 60" by (simp add: ex_params_def)
  have drop: "drop (length (p_actions ex_new)) (p_actions ex_open) = [Start_acktivity_timer, Read_some MAX_SIGNAL_SIZE]"
    by (simp add: ex_open_def ex_new_def)
  show "handle_node_event (ex_env 100) ex_parse (Connection ''router'' False) ex_node = Inr ((), ex_connected)"
    by (simp add: handle_async_make_peer_def new ttl try_catch_def peer_do_def ex_start drop start_async_accept_def node_act_def
        assert_that_def comp_simps smap_simps insort_insert_key_def ex_connected_def)
qed

theorem node_sessions_witness: "session (node_envs ex_envs) ex_open \<and> p_peer_id ex_open = ''router''"
  by (rule node_sessions[OF ex_connected_reached]) (simp add: ex_connected_def)


theorem owner_found_witness: "find_peer ex_mac ex_connected = None \<and> \<not> validDestination ex_mac (p_pdp ex_open)"
proof -
  have none: "find_peer ex_mac ex_connected = None"
    by (simp add: find_peer_def ex_connected_def ex_open_def ex_new_def get_destination_def getDestinationData_def ex_local_def)
  have cfg: "env_cfg env = rfc8175_config" if "ex_envs env" for env using that by (auto simp: ex_envs_def)
  from owner_found[OF ex_connected_reached cfg, of ex_mac "[]"] none show ?thesis by (auto simp: ex_connected_def)
qed

theorem cleanup_witness: "\<exists>d'. cleanup_ex_peers ex_connected = Inr ((), d') \<and> smap_find (d_peers d') ''router'' = Some ex_open"
proof -
  have "smap_find (d_peers ex_connected) ''router'' = Some ex_open" "p_state ex_open \<noteq> Terminating"
    by (simp_all add: ex_connected_def ex_open_def ex_new_def)
  then show ?thesis using cleanup_correct[OF ex_connected_reached, of "ex_env 100"] by auto
qed


end
