(* ===== verification/NetUtils.thy ===== *)
theory NetUtils
  imports DataItem
begin

text \<open>
  The network utilities (\<open>src/NetUtils.cpp\<close>): the address of an interface, the interface of
  an address, the scope id of a link-local address, the Ethernet address of a neighbour. What
  the operating system and Boost answer is the parameter \<open>net\<close>: the list \<open>getifaddrs\<close>
  delivers (\<open>None\<close> when the call fails), the index of an interface (0 when there is none), and
  the tests of addresses.
\<close>

section \<open>Data\<close>

datatype address = V4 address_v4 | V6 address_v6

text \<open>A default constructed \<open>boost::asio::ip::address\<close>.\<close>

definition new_address :: address where
  "new_address = V4 default_v4"

fun is_v4 :: "address \<Rightarrow> bool" where
  "is_v4 (V4 _) = True"
| "is_v4 (V6 _) = False"

datatype sockaddr = Sockaddr_in bytes | Sockaddr_in6 bytes u32 | Sockaddr_other

record ifaddrs =
  ifa_name :: string
  ifa_addr :: "sockaddr option"

record net =
  net_ifaddrs :: "ifaddrs list option"
  net_index :: "string \<Rightarrow> u64"
  net_in6_linklocal :: "bytes \<Rightarrow> bool"
  net_link_local :: "address_v6 \<Rightarrow> bool"
  net_multicast_link_local :: "address_v6 \<Rightarrow> bool"
  net_unspecified :: "address \<Rightarrow> bool"

section \<open>Interfaces and addresses\<close>

text \<open>The loop over the addresses; the last address that is looked at is taken or none is.\<close>

fun ip_addr_loop :: "net \<Rightarrow> string \<Rightarrow> bool \<Rightarrow> ifaddrs list \<Rightarrow> address" where
  "ip_addr_loop nt iface_name want_ipv4_addr [] = new_address"
| "ip_addr_loop nt iface_name want_ipv4_addr (ifa # ifas) =
     (case ifa_addr ifa of
        None \<Rightarrow> ip_addr_loop nt iface_name want_ipv4_addr ifas
      | Some sa \<Rightarrow>
          if iface_name \<noteq> ifa_name ifa then ip_addr_loop nt iface_name want_ipv4_addr ifas
          else (case sa of
                  Sockaddr_in bs \<Rightarrow>
                    if want_ipv4_addr then V4 (AddressV4 bs) else ip_addr_loop nt iface_name want_ipv4_addr ifas
                | Sockaddr_in6 bs scope \<Rightarrow>
                    if \<not> want_ipv4_addr \<and> net_in6_linklocal nt bs then V6 (AddressV6 bs (ucast scope))
                    else ip_addr_loop nt iface_name want_ipv4_addr ifas
                | Sockaddr_other \<Rightarrow> ip_addr_loop nt iface_name want_ipv4_addr ifas))"

definition get_ip_addr_from_iface :: "net \<Rightarrow> string \<Rightarrow> bool \<Rightarrow> address" where
  "get_ip_addr_from_iface nt iface_name want_ipv4_addr =
     (case net_ifaddrs nt of
        None \<Rightarrow> new_address
      | Some ifas \<Rightarrow> ip_addr_loop nt iface_name want_ipv4_addr ifas)"

text \<open>The bytes from position \<open>i\<close> on.\<close>

function compare_addrs :: "bytes \<Rightarrow> bytes \<Rightarrow> nat \<Rightarrow> nat \<Rightarrow> bool" where
  "compare_addrs addr1 addr2 len i =
     (if len \<le> i then True
      else if addr1 ! i \<noteq> addr2 ! i then False
      else compare_addrs addr1 addr2 len (i + 1))"
  by auto
termination
  by (relation "measure (\<lambda>(_, _, len, i). len - i)") auto

declare compare_addrs.simps [simp del]

fun iface_loop :: "address \<Rightarrow> ifaddrs list \<Rightarrow> string" where
  "iface_loop ipaddr [] = ''''"
| "iface_loop ipaddr (ifa # ifas) =
     (case ifa_addr ifa of
        None \<Rightarrow> iface_loop ipaddr ifas
      | Some sa \<Rightarrow>
          (case (ipaddr, sa) of
             (V4 a, Sockaddr_in bs) \<Rightarrow>
               if compare_addrs (v4_bytes a) bs (length (v4_bytes a)) 0 then ifa_name ifa else iface_loop ipaddr ifas
           | (V6 a, Sockaddr_in6 bs _) \<Rightarrow>
               if compare_addrs (v6_bytes a) bs (length (v6_bytes a)) 0 then ifa_name ifa else iface_loop ipaddr ifas
           | _ \<Rightarrow> iface_loop ipaddr ifas))"

definition get_iface_from_ip_addr :: "net \<Rightarrow> address \<Rightarrow> string" where
  "get_iface_from_ip_addr nt ipaddr =
     (case net_ifaddrs nt of None \<Rightarrow> '''' | Some ifas \<Rightarrow> iface_loop ipaddr ifas)"

section \<open>Scope ids\<close>

text \<open>The address with its scope id, \<open>None\<close> when it was not changed.\<close>

definition set_scope_id :: "net \<Rightarrow> address \<Rightarrow> u64 \<Rightarrow> address option" where
  "set_scope_id nt ipaddr scope_id =
     (case ipaddr of
        V4 _ \<Rightarrow> None
      | V6 ipv6addr \<Rightarrow>
          if \<not> net_link_local nt ipv6addr \<and> \<not> net_multicast_link_local nt ipv6addr then None
          else Some (V6 (AddressV6 (v6_bytes ipv6addr) scope_id)))"

definition set_ipv6_scope_id :: "net \<Rightarrow> address \<Rightarrow> string \<Rightarrow> address option" where
  "set_ipv6_scope_id nt ipaddr iface_name =
     (let if_index = net_index nt iface_name
      in if if_index = 0 then None else set_scope_id nt ipaddr if_index)"

section \<open>Ethernet addresses\<close>

text \<open>
  What the \<open>ioctl\<close> calls on Linux answer, \<open>None\<close> when the call fails: the IPv4 interfaces, the
  hardware address and the flags (loopback, up) of an interface, the ARP entry of an address
  on an interface (complete, Ethernet, hardware address).
\<close>

record ether_net =
  en_socket :: bool
  en_ifconf :: "(string \<times> sockaddr) list option"
  en_hwaddr :: "string \<Rightarrow> bytes option"
  en_flags :: "string \<Rightarrow> (bool \<times> bool) option"
  en_arp :: "string \<Rightarrow> bytes \<Rightarrow> (bool \<times> bool \<times> bytes) option"

definition assignLoopbackAddress :: "DlepMac \<Rightarrow> DlepMac" where
  "assignLoopbackAddress mac = DlepMac (mac_addr mac @ [0, 0, 0, 0, 0, 1])"

text \<open>The loop over the interfaces; the text of an error is only logged and left out.\<close>

fun ether_loop :: "ether_net \<Rightarrow> bytes \<Rightarrow> DlepMac \<Rightarrow> string \<Rightarrow> (string \<times> sockaddr) list \<Rightarrow> DlepMac option" where
  "ether_loop en inaddr mac ifname [] = None"
| "ether_loop en inaddr mac ifname ((name, sa) # ifrs) =
     (case sa of
        Sockaddr_in ifr_addr \<Rightarrow>
          if ifname \<noteq> name then ether_loop en inaddr mac ifname ifrs
          else if ifr_addr = inaddr
          then map_option (\<lambda>hw. DlepMac (take 6 hw)) (en_hwaddr en name)
          else (case en_flags en name of
                  None \<Rightarrow> None
                | Some (loopback, up) \<Rightarrow>
                    if loopback \<or> \<not> up then ether_loop en inaddr mac ifname ifrs
                    else (case en_arp en name inaddr of
                            None \<Rightarrow> None
                          | Some (complete, ether, ha) \<Rightarrow>
                              if complete \<and> ether then Some (DlepMac (take 6 ha @ mac_addr mac))
                              else ether_loop en inaddr mac ifname ifrs))
      | _ \<Rightarrow> ether_loop en inaddr mac ifname ifrs)"

definition ipv4ToEtherMacAddr :: "ether_net \<Rightarrow> address \<Rightarrow> DlepMac \<Rightarrow> string \<Rightarrow> DlepMac option" where
  "ipv4ToEtherMacAddr en addr mac ifname =
     (case addr of
        V6 _ \<Rightarrow> None
      | V4 a \<Rightarrow>
          if v4_bytes a = [127, 0, 0, 1] then Some (assignLoopbackAddress mac)
          else if \<not> en_socket en then None
          else (case en_ifconf en of None \<Rightarrow> None | Some ifrs \<Rightarrow> ether_loop en (v4_bytes a) mac ifname ifrs))"

section \<open>What is found\<close>

text \<open>The address an entry of the list offers to a caller who wants one of an interface.\<close>

definition offered :: "net \<Rightarrow> string \<Rightarrow> bool \<Rightarrow> ifaddrs \<Rightarrow> address option" where
  "offered nt iface_name want_ipv4_addr ifa =
     (if ifa_name ifa \<noteq> iface_name then None
      else case ifa_addr ifa of
             Some (Sockaddr_in bs) \<Rightarrow> if want_ipv4_addr then Some (V4 (AddressV4 bs)) else None
           | Some (Sockaddr_in6 bs scope) \<Rightarrow>
               if \<not> want_ipv4_addr \<and> net_in6_linklocal nt bs then Some (V6 (AddressV6 bs (ucast scope))) else None
           | _ \<Rightarrow> None)"

text \<open>The same address up to the scope id, which \<open>get_iface_from_ip_addr\<close> does not compare.\<close>

fun same_address :: "address \<Rightarrow> sockaddr \<Rightarrow> bool" where
  "same_address (V4 a) (Sockaddr_in bs) \<longleftrightarrow> v4_bytes a = bs"
| "same_address (V6 a) (Sockaddr_in6 bs _) \<longleftrightarrow> v6_bytes a = bs"
| "same_address _ _ \<longleftrightarrow> False"

definition holds_address :: "address \<Rightarrow> ifaddrs \<Rightarrow> bool" where
  "holds_address a ifa \<longleftrightarrow> (case ifa_addr ifa of None \<Rightarrow> False | Some sa \<Rightarrow> same_address a sa)"

text \<open>Addresses have four or sixteen bytes.\<close>

fun address_ok :: "address \<Rightarrow> bool" where
  "address_ok (V4 a) \<longleftrightarrow> length (v4_bytes a) = 4"
| "address_ok (V6 a) \<longleftrightarrow> length (v6_bytes a) = 16"

fun sockaddr_ok :: "sockaddr \<Rightarrow> bool" where
  "sockaddr_ok (Sockaddr_in bs) \<longleftrightarrow> length bs = 4"
| "sockaddr_ok (Sockaddr_in6 bs _) \<longleftrightarrow> length bs = 16"
| "sockaddr_ok Sockaddr_other \<longleftrightarrow> True"

definition ifa_ok :: "ifaddrs \<Rightarrow> bool" where
  "ifa_ok ifa \<longleftrightarrow> ifa_name ifa \<noteq> '''' \<and> (case ifa_addr ifa of None \<Rightarrow> True | Some sa \<Rightarrow> sockaddr_ok sa)"

lemma compare_addrs_iff: "compare_addrs xs ys len i \<longleftrightarrow> (\<forall>j. i \<le> j \<longrightarrow> j < len \<longrightarrow> xs ! j = ys ! j)"
proof (induction xs ys len i rule: compare_addrs.induct)
  case (1 xs ys len i)
  show ?case
  proof (cases "len \<le> i \<or> xs ! i \<noteq> ys ! i")
    case False
    with 1 have "compare_addrs xs ys len i \<longleftrightarrow> (\<forall>j. i + 1 \<le> j \<longrightarrow> j < len \<longrightarrow> xs ! j = ys ! j)"
      by (simp add: compare_addrs.simps[of xs ys len i])
    with False show ?thesis by (metis Suc_eq_plus1 le_SucI not_less_eq_eq order_antisym)
  qed (auto simp: compare_addrs.simps[of xs ys len i])
qed

lemma compare_addrs_eq: "length xs = n \<Longrightarrow> length ys = n \<Longrightarrow> compare_addrs xs ys n 0 \<longleftrightarrow> xs = ys"
  by (auto simp: compare_addrs_iff list_eq_iff_nth_eq)

lemma ip_addr_loop_offered:
  "ip_addr_loop nt iface_name v4 ifas =
     (case List.map_filter (offered nt iface_name v4) ifas of [] \<Rightarrow> new_address | a # _ \<Rightarrow> a)"
  by (induction ifas) (auto simp: map_filter_simps offered_def split: option.splits sockaddr.splits)

lemma iface_loop_holds:
  assumes "address_ok a" and "\<forall>ifa\<in>set ifas. ifa_ok ifa"
  shows "iface_loop a ifas = (case filter (holds_address a) ifas of [] \<Rightarrow> '''' | ifa # _ \<Rightarrow> ifa_name ifa)"
  using assms(2)
proof (induction ifas)
  case (Cons ifa ifas)
  with assms(1) show ?case
    by (cases a) (auto simp: holds_address_def ifa_ok_def compare_addrs_eq split: option.splits sockaddr.splits)
qed simp

text \<open>An address that is found is one the interface offers.\<close>

lemma get_ip_addr_found:
  assumes "get_ip_addr_from_iface nt iface_name v4 = a" and "a \<noteq> new_address"
  obtains ifas ifa where "net_ifaddrs nt = Some ifas" and "ifa \<in> set ifas" and "offered nt iface_name v4 ifa = Some a"
proof -
  from assms obtain ifas where "net_ifaddrs nt = Some ifas" "a \<in> set (List.map_filter (offered nt iface_name v4) ifas)"
    by (auto simp: get_ip_addr_from_iface_def ip_addr_loop_offered split: option.splits list.splits)
  then show ?thesis by (auto simp: map_filter_def intro: that)
qed

lemma offered_family: "offered nt iface_name v4 ifa = Some a \<Longrightarrow> is_v4 a = v4"
  by (auto simp: offered_def split: if_splits option.splits sockaddr.splits)

text \<open>
  The address found on an interface is on that interface: looking up its interface leads
  back, unless an interface listed before has the same address. For link-local addresses,
  where this can happen, the first interface is taken, whatever the scope id.
\<close>

lemma interface_round_trip:
  assumes "net_ifaddrs nt = Some ifas" and ok: "\<forall>ifa\<in>set ifas. ifa_ok ifa"
    and "get_ip_addr_from_iface nt iface_name v4 = a" and "a \<noteq> new_address"
    and unique: "\<And>ifa. ifa \<in> set ifas \<Longrightarrow> holds_address a ifa \<Longrightarrow> ifa_name ifa = iface_name"
  shows "get_iface_from_ip_addr nt a = iface_name"
proof -
  from get_ip_addr_found[OF assms(3,4)] assms(1) obtain ifa where
    ifa: "ifa \<in> set ifas" "offered nt iface_name v4 ifa = Some a" by auto
  with ok have held: "holds_address a ifa" and a: "address_ok a"
    by (auto simp: offered_def holds_address_def ifa_ok_def split: if_splits option.splits sockaddr.splits)
  with ifa(1) obtain ifa' rest where "filter (holds_address a) ifas = ifa' # rest"
    by (cases "filter (holds_address a) ifas") (auto simp: filter_empty_conv)
  moreover from this have "ifa' \<in> set (filter (holds_address a) ifas)" by simp
  then have "ifa_name ifa' = iface_name" by (auto intro: unique)
  ultimately show ?thesis
    using assms(1) iface_loop_holds[OF a ok] by (simp add: get_iface_from_ip_addr_def)
qed

lemma no_interface:
  assumes "net_ifaddrs nt = Some ifas" and "\<forall>ifa\<in>set ifas. ifa_ok ifa" and "address_ok a"
  shows "get_iface_from_ip_addr nt a = '''' \<longleftrightarrow> (\<forall>ifa\<in>set ifas. \<not> holds_address a ifa)"
proof -
  have "ifa_name (hd (filter (holds_address a) ifas)) \<noteq> ''''" if "filter (holds_address a) ifas \<noteq> []"
    using assms(2) hd_in_set[OF that] by (auto simp: ifa_ok_def)
  then show ?thesis
    using assms(1) iface_loop_holds[OF assms(3,2)]
    by (auto simp: get_iface_from_ip_addr_def filter_empty_conv split: list.splits)
qed

text \<open>An Ethernet address that is found has six bytes and is that of the interface or of its ARP table.\<close>

lemma ether_loop_found:
  assumes "ether_loop en inaddr (DlepMac []) ifname ifrs = Some mac"
  shows "(\<exists>hw. en_hwaddr en ifname = Some hw \<and> mac = DlepMac (take 6 hw))
       \<or> (\<exists>ha. en_arp en ifname inaddr = Some (True, True, ha) \<and> mac = DlepMac (take 6 ha))"
  using assms
  by (induction en inaddr "DlepMac []" ifname ifrs rule: ether_loop.induct)
    (auto split: sockaddr.splits if_splits option.splits)

end
