(* ===== verification/PeerDiscovery.thy ===== *)
theory PeerDiscovery
  imports DlepNode NetUtils
begin

text \<open>
  Peer discovery (\<open>src/PeerDiscovery.cpp\<close>): a router multicasts Peer Discovery signals, a
  modem that has no session answers with a Peer Offer that says where it accepts connections,
  and the router connects there unless it already has that session. Sockets and the timer of
  \<open>PeriodicMcastSendRcv\<close> are left out; what is sent and where the router connects to is
  returned. From outside come the client's address parameters, the address of the interface,
  and boost's text form and link-local test of addresses.
\<close>

section \<open>Data\<close>

record discovery_env =
  dv_session :: session_env
  dv_address :: "string \<Rightarrow> address res"
  dv_interface_address :: address
  dv_udp_port :: u16
  dv_to_string :: "address \<Rightarrow> string"
  dv_link_local :: "address_v6 \<Rightarrow> bool"

datatype discovery_action =
    Connect address u16
  | Send_offer address u16 bytes

abbreviation dv_cfg :: "discovery_env \<Rightarrow> ProtocolConfig" where
  "dv_cfg env \<equiv> env_cfg (dv_session env)"

abbreviation dv_params :: "discovery_env \<Rightarrow> client_config" where
  "dv_params env \<equiv> env_params (dv_session env)"

abbreviation dv_modem :: "discovery_env \<Rightarrow> bool" where
  "dv_modem env \<equiv> env_modem (dv_session env)"

section \<open>The router asks\<close>

definition discovery_message :: "discovery_env \<Rightarrow> bytes res" where
  "discovery_message env =
     rbind (add_header (dv_cfg env) ''Peer_Discovery'' new_ProtocolMessage) (\<lambda>pm.
     rbind (add_common_data_items (dv_cfg env) (dv_params env) pm) (\<lambda>pm.
     rbind (reparse_assert (dv_session env) ''get_message_to_send'' pm) (\<lambda>pm.
     Inr (msgbuf pm))))"

section \<open>The modem offers\<close>

definition address_item :: "address \<Rightarrow> string \<times> DataItemValue" where
  "address_item a =
     (case a of
        V4 ip \<Rightarrow> (''IPv4_Address'', Div_u8_ipv4 1 ip)
      | V6 ip \<Rightarrow> (''IPv6_Address'', Div_u8_ipv6 1 ip))"

definition connection_item :: "address \<Rightarrow> u16 \<Rightarrow> string \<times> DataItemValue" where
  "connection_item a session_port =
     (case a of
        V4 ip \<Rightarrow> (''IPv4_Connection_Point'', Div_u8_ipv4_u16 0 ip session_port)
      | V6 ip \<Rightarrow> (''IPv6_Connection_Point'', Div_u8_ipv6_u16 0 ip session_port))"

text \<open>
  The \<open>try\<close> block: the message with Port and address, or the exception and the message as it
  was when the exception was thrown (the data item is made before the message changes).
\<close>

definition add_port_and_address ::
    "discovery_env \<Rightarrow> u16 \<Rightarrow> address option \<Rightarrow> ProtocolMessage \<Rightarrow> exn option \<times> ProtocolMessage" where
  "add_port_and_address env session_port session_address pm =
     (case add_named (dv_cfg env) ''Port'' (Div_u16 session_port) pm of
        Inl e \<Rightarrow> (Some e, pm)
      | Inr pm1 \<Rightarrow>
          (case session_address of
             None \<Rightarrow> (None, pm1)
           | Some a \<Rightarrow>
               (case add_named (dv_cfg env) (fst (address_item a)) (snd (address_item a)) pm1 of
                  Inl e \<Rightarrow> (Some e, pm1)
                | Inr pm2 \<Rightarrow> (None, pm2))))"

definition peer_offer_message :: "discovery_env \<Rightarrow> ProtocolMessage res" where
  "peer_offer_message env =
     rbind (add_header (dv_cfg env) ''Peer_Offer'' new_ProtocolMessage) (\<lambda>pm.
     rbind (add_common_data_items (dv_cfg env) (dv_params env) pm) (\<lambda>pm.
     rbind (cp_unsigned (dv_params env) ''session-port'') (\<lambda>port.
     rbind (try_catch (rbind (dv_address env ''session-address'') (\<lambda>a. Inr (Some a)))
              is_BadParameterName (Inr None)) (\<lambda>session_address.
     let session_port = ucast port :: u16
     in case add_port_and_address env session_port session_address pm of
          (None, pm) \<Rightarrow> Inr pm
        | (Some e, pm) \<Rightarrow>
            if is_BadDataItemName e
            then let item = connection_item (case session_address of Some a \<Rightarrow> a | None \<Rightarrow> dv_interface_address env)
                              session_port
                 in add_named (dv_cfg env) (fst item) (snd item) pm
            else Inl e))))"

definition send_peer_offer :: "discovery_env \<Rightarrow> address \<Rightarrow> discovery_action list res" where
  "send_peer_offer env to_address =
     rbind (peer_offer_message env) (\<lambda>pm.
     rbind (reparse_assert (dv_session env) ''send_peer_offer'' pm) (\<lambda>pm.
     Inr [Send_offer to_address (dv_udp_port env) (msgbuf pm)]))"

definition endpoint_id :: "discovery_env \<Rightarrow> address \<Rightarrow> 'a::len word \<Rightarrow> string" where
  "endpoint_id env a port = dv_to_string env a @ '':'' @ to_string_word port"

definition handle_discovery ::
    "discovery_env \<Rightarrow> Dlep \<Rightarrow> ProtocolMessage \<Rightarrow> address \<times> u16 \<Rightarrow> discovery_action list res" where
  "handle_discovery env d pm = (\<lambda>(from_address, from_port).
     rbind (pm_get_signal_name (dv_cfg env) pm) (\<lambda>_.
     if \<not> dv_modem env then Inr []
     else if peer_state (dv_session env) (endpoint_id env from_address from_port) d \<noteq> Nonexistent then Inr []
     else send_peer_offer env from_address))"

section \<open>The router connects\<close>

text \<open>A data item of the offer, \<open>None\<close> when it is absent or the configuration does not have it.\<close>

definition optional_item :: "'a res \<Rightarrow> 'a option res" where
  "optional_item m = try_catch (rbind m (\<lambda>x. Inr (Some x))) (\<lambda>e. is_DataItemNotPresent e \<or> is_BadDataItemName e) (Inr None)"

text \<open>
  The address and port to connect to, and whether the address may need a scope id; each data
  item that is there overrides what was found before it.
\<close>

definition offer_target ::
    "discovery_env \<Rightarrow> ProtocolMessage \<Rightarrow> address \<Rightarrow> (address \<times> u32 \<times> bool) res" where
  "offer_target env pm from_address =
     rbind (cp_unsigned (dv_params env) ''session-port'') (\<lambda>configured_port.
     rbind (optional_item (get_port (dv_cfg env) pm)) (\<lambda>port_item.
     rbind (optional_item (get_ipv4_address (dv_cfg env) pm)) (\<lambda>v4_item.
     rbind (optional_item (get_ipv4_conn_point (dv_cfg env) pm)) (\<lambda>v4_point.
     rbind (optional_item (get_ipv6_address (dv_cfg env) pm)) (\<lambda>v6_item.
     rbind (optional_item (get_ipv6_conn_point (dv_cfg env) pm)) (\<lambda>v6_point.
     let port0 = (case port_item of Some p \<Rightarrow> ucast p | None \<Rightarrow> configured_port);
         dest1 = (case v4_item of Some (flag, a) \<Rightarrow> if flag \<noteq> 0 then V4 a else from_address | None \<Rightarrow> from_address);
         (dest2, port2) = (case v4_point of Some (_, a, p) \<Rightarrow> (V4 a, ucast p) | None \<Rightarrow> (dest1, port0));
         (dest3, scope3) = (case v6_item of Some (flag, a) \<Rightarrow> if flag \<noteq> 0 then (V6 a, True) else (dest2, False)
                            | None \<Rightarrow> (dest2, False))
     in Inr (case v6_point of Some (_, a, p) \<Rightarrow> (V6 a, ucast p, True) | None \<Rightarrow> (dest3, port2, scope3))))))))"

text \<open>
  The scope id of a link-local address is that of the sender; \<open>None\<close> when the sender has none.
\<close>

definition scope_target :: "discovery_env \<Rightarrow> address \<Rightarrow> address \<Rightarrow> bool \<Rightarrow> address option res" where
  "scope_target env dest_ip from_address may_need_scope_id =
     (if \<not> may_need_scope_id then Inr (Some dest_ip)
      else (case dest_ip of
              V4 _ \<Rightarrow> Inl (Logic_Error ''bad_address_cast'')
            | V6 a \<Rightarrow>
                if dv_link_local env a
                then (case from_address of
                        V6 from_a \<Rightarrow> Inr (Some (V6 (AddressV6 (v6_bytes a) (v6_scope_id from_a))))
                      | V4 _ \<Rightarrow> Inr None)
                else Inr (Some dest_ip)))"

definition handle_peer_offer ::
    "discovery_env \<Rightarrow> Dlep \<Rightarrow> ProtocolMessage \<Rightarrow> address \<times> u16 \<Rightarrow> discovery_action list res" where
  "handle_peer_offer env d pm = (\<lambda>(from_address, _).
     rbind (pm_get_signal_name (dv_cfg env) pm) (\<lambda>_.
     if dv_modem env then Inr []
     else rbind (offer_target env pm from_address) (\<lambda>(dest_ip, session_port, may_need_scope_id).
       rbind (scope_target env dest_ip from_address may_need_scope_id) (\<lambda>scoped.
       case scoped of
         None \<Rightarrow> Inr []
       | Some dest_ip \<Rightarrow>
           if peer_state (dv_session env) (endpoint_id env dest_ip session_port) d \<noteq> Nonexistent then Inr []
           else Inr [Connect dest_ip (ucast session_port)]))))"

section \<open>Received signals\<close>

definition discovery_handle_message ::
    "discovery_env \<Rightarrow> Dlep \<Rightarrow> bytes \<Rightarrow> address \<times> u16 \<Rightarrow> discovery_action list res" where
  "discovery_handle_message env d msg_buffer from_endpoint =
     (if msg_buffer = [] then Inr []
      else rbind (parse_and_validate_buffer (env_ip (dv_session env)) (dv_cfg env) msg_buffer True
                    (\<not> dv_modem env) ''handle_message'' new_ProtocolMessage) (\<lambda>(pm, err).
        if err \<noteq> '''' then Inr []
        else rbind (pm_get_signal_name (dv_cfg env) pm) (\<lambda>msgname.
          if msgname = ''Peer_Discovery'' then handle_discovery env d pm from_endpoint
          else if msgname = ''Peer_Offer'' then handle_peer_offer env d pm from_endpoint
          else Inr [])))"

section \<open>Properties\<close>

lemma peer_state_nonexistent:
  assumes "node E d" and "peer_state env i d = Nonexistent"
  shows "if env_modem env then d_peers d = [] else smap_find (d_peers d) i = None"
proof -
  have exists: "p_state p \<noteq> Nonexistent" if "smap_find (d_peers d) j = Some p" for j p
    using node_sessions_ok[OF assms(1)] that by (auto simp: sessions_ok_def dest: session_exists)
  have "p_state p \<noteq> Nonexistent" if "d_peers d = (j, p) # rest" for j p rest
    using exists[of j p] that by simp
  with exists[of i] assms(2) show ?thesis
    by (auto simp: peer_state_def split: list.splits option.splits if_splits)
qed

text \<open>
  C29: discovery sets up sessions only where it should. Whatever packet arrives, at most one
  thing happens: a modem, and only a modem without any session, sends one Peer Offer to the
  discovery port of the sender; a router, and only a router without a session at the address
  and port it found, makes one connection, to that address and port.
\<close>

theorem discovery_safe:
  assumes "node E d" and "discovery_handle_message env d msg (from_address, from_port) = Inr actions"
  shows "actions = []
    \<or> (\<exists>buf. actions = [Send_offer from_address (dv_udp_port env) buf] \<and> dv_modem env \<and> d_peers d = [])
    \<or> (\<exists>a port. actions = [Connect a (ucast (port :: u32))] \<and> \<not> dv_modem env
         \<and> smap_find (d_peers d) (endpoint_id env a port) = None)"
proof -
  have offer: "actions = [] \<or> (\<exists>buf. actions = [Send_offer from_address (dv_udp_port env) buf] \<and> dv_modem env \<and> d_peers d = [])"
    if "handle_discovery env d pm (from_address, from_port) = Inr actions" for pm
    using that peer_state_nonexistent[OF assms(1), of "dv_session env" "endpoint_id env from_address from_port"]
    by (auto simp: handle_discovery_def send_peer_offer_def res_simps split: if_splits)
  have connect: "actions = [] \<or> (\<exists>a port. actions = [Connect a (ucast (port :: u32))] \<and> \<not> dv_modem env
      \<and> smap_find (d_peers d) (endpoint_id env a port) = None)"
    if run: "handle_peer_offer env d pm (from_address, from_port) = Inr actions" for pm
  proof -
    from run consider "actions = []"
      | a and port :: u32 where "actions = [Connect a (ucast port)]" "\<not> dv_modem env"
          "peer_state (dv_session env) (endpoint_id env a port) d = Nonexistent"
      by (auto simp: handle_peer_offer_def res_simps split: if_splits option.splits)
    then show ?thesis
    proof cases
      case 2
      have "smap_find (d_peers d) (endpoint_id env a port) = None"
        using peer_state_nonexistent[OF assms(1) 2(3)] 2(2) by simp
      with 2(1,2) show ?thesis by blast
    qed simp
  qed
  show ?thesis
  proof (cases "parse_and_validate_buffer (env_ip (dv_session env)) (dv_cfg env) msg True (\<not> dv_modem env)
      ''handle_message'' new_ProtocolMessage")
    case (Inr r)
    obtain pm err where r: "r = (pm, err)" by (cases r)
    show ?thesis
    proof (cases "msg = [] \<or> err \<noteq> ''''")
      case True
      with assms(2) Inr r show ?thesis by (simp add: discovery_handle_message_def split: if_splits)
    next
      case False
      then obtain name where name: "pm_get_signal_name (dv_cfg env) pm = Inr name"
        using assms(2) Inr r by (cases "pm_get_signal_name (dv_cfg env) pm") (simp_all add: discovery_handle_message_def)
      have run: "(if name = ''Peer_Discovery'' then handle_discovery env d pm (from_address, from_port)
          else if name = ''Peer_Offer'' then handle_peer_offer env d pm (from_address, from_port) else Inr []) = Inr actions"
        using assms(2) Inr r name False by (simp add: discovery_handle_message_def)
      show ?thesis
        using run offer[of pm] connect[of pm] by (metis (no_types, lifting) sum.inject(2))
    qed
  qed (use assms(2) in \<open>simp add: discovery_handle_message_def split: if_splits\<close>)
qed

text \<open>
  A connection point without a port is read with port 0, and the router then connects to
  port 0 rather than to the configured or the standard port.
\<close>

lemma portless_offer:
  assumes "get_ipv6_conn_point (dv_cfg env) pm = Inr (flags, a, 0)" and "offer_target env pm from_address = Inr r"
  shows "r = (V6 a, 0, True)"
  using assms by (auto simp: offer_target_def optional_item_def res_simps Let_def split: prod.splits)

end
