(* ===== verification/DiscoveryOffer.thy ===== *)
theory DiscoveryOffer
  imports PeerDiscovery Rfc8175
begin

text \<open>
  Discovery from end to end, with the shipped RFC 8175 configuration: the Peer Offer of a
  modem leads the router to where the modem accepts connections.
\<close>

section \<open>The receiver accepts what the sender checked\<close>

lemma validate_cong:
  assumes "signal_id pm' = signal_id pm" and "signal_id_initialized pm' = signal_id_initialized pm"
    and "is_signal pm' = is_signal pm" and "data_items pm' = data_items pm"
  shows "validate cfg modem_sender pm' = validate cfg modem_sender pm"
  unfolding validate_def pm_get_signal_name_def assms by (rule refl)

text \<open>Parsing leaves the bytes alone.\<close>

lemma parse_body_msgbuf: "msgbuf (fst (parse_body ip cfg it pm)) = msgbuf pm"
  by (simp add: parse_body_def Let_def split: sum.splits prod.splits)

lemma parse_msgbuf:
  assumes "parse ip cfg log_prefix pm = Inr (pm', err)"
  shows "msgbuf pm' = msgbuf pm"
proof -
  have "msgbuf pm' = msgbuf (fst r)" if "parse_finish log_prefix r = Inr (pm', err)" for r
    using that by (auto simp: parse_finish_def split: prod.splits option.splits if_splits)
  with assms show ?thesis
    by (auto simp: parse_def Let_def parse_body_msgbuf split: if_splits sum.splits)
qed

lemma sent_message_received:
  assumes "config_ok cfg" and "subs_listed cfg"
    and "add_header cfg name new_ProtocolMessage = Inr pm0" and "add_data_items cfg dis pm0 = Inr pm"
    and "items_ok cfg None dis" and "length (msgbuf pm) < 2 ^ 64"
    and "parse_and_validate ip cfg modem_sender func pm = Inr (pm1, '''')"
  shows "\<exists>pm'. parse_and_validate_buffer ip' cfg (msgbuf pm) (is_signal pm) modem_sender log_prefix new_ProtocolMessage
      = Inr (pm', '''') \<and> data_items pm' = dis \<and> pm_get_signal_name cfg pm' = Inr name"
proof -
  note header = add_header_built[OF assms(3)]
  from add_data_items_built[OF assms(1) conjunct1[OF header] assms(4,6)] obtain b where
    b: "encode_items cfg dis = Inr b" "built cfg pm b" "signal_id pm = signal_id pm0"
      "is_signal pm = is_signal pm0" by auto
  have name: "pm_get_signal_name cfg pm = Inr name"
    using signal_name_id[OF assms(1)] header b(2-4) by (fastforce simp: pm_get_signal_name_def built_def)
  let ?rcv = "new_ProtocolMessage\<lparr>msgbuf := msgbuf pm, is_signal := is_signal pm\<rparr>"
  let ?set = "\<lambda>pm0. pm0\<lparr>signal_id := signal_id pm, signal_id_initialized := True, data_items := dis\<rparr>"
  note parse_it = parse_built[OF assms(1,2) b(2) name b(1) assms(5)]
  have "validate cfg modem_sender (?set pm) = Inr ''''"
    using assms(7) parse_it[of pm] by (auto simp: parse_and_validate_def res_simps)
  then have valid: "validate cfg modem_sender (?set ?rcv) = Inr ''''"
    by (subst validate_cong[where pm = "?set pm"]) simp_all
  have "pm_get_signal_name cfg (?set ?rcv) = Inr name"
    using name b(2) by (simp add: pm_get_signal_name_def built_def split: if_splits)
  with valid parse_it[of ?rcv] show ?thesis
    by (simp add: parse_and_validate_buffer_def parse_buffer_def)
qed

section \<open>The shipped configuration\<close>

lemma offer_ids:
  "get_data_item_id rfc8175_config ''Port'' None = Inl (BadDataItemName ''Port'')"
  "get_data_item_id rfc8175_config ''Peer_Type'' None = Inr 4"
  "get_data_item_id rfc8175_config ''IPv4_Address'' None = Inr 8"
  "get_data_item_id rfc8175_config ''IPv6_Address'' None = Inr 9"
  "get_data_item_id rfc8175_config ''IPv4_Connection_Point'' None = Inr 2"
  "get_data_item_id rfc8175_config ''IPv6_Connection_Point'' None = Inr 3"
  "get_data_item_value_type rfc8175_config ''Peer_Type'' = Inr T_u8_string"
  "get_data_item_name rfc8175_config 4 None = Inr ''Peer_Type''"
  "get_data_item_name rfc8175_config 2 None = Inr ''IPv4_Connection_Point''"
  "get_data_item_name rfc8175_config 3 None = Inr ''IPv6_Connection_Point''"
  "map_sum id dii_value_type (get_data_item_info rfc8175_config 4 None) = Inr T_u8_string"
  "map_sum id dii_value_type (get_data_item_info rfc8175_config 2 None) = Inr T_u8_ipv4_u16"
  "map_sum id dii_value_type (get_data_item_info rfc8175_config 3 None) = Inr T_u8_ipv6_u16"
  by code_simp+

lemma offer_signal:
  "map_sum id si_data_items (get_signal_info rfc8175_config ''Peer_Offer'') =
     Inr [ref 4 ''Peer_Type'' ''0-1'', ref 2 ''IPv4_Connection_Point'' ''0+'', ref 3 ''IPv6_Connection_Point'' ''0+'']"
  by code_simp

lemma offer_id: "get_signal_id rfc8175_config ''Peer_Offer'' = Inr (2, True)"
  by code_simp

lemma items_ok_append: "items_ok cfg parent (xs @ ys) \<longleftrightarrow> items_ok cfg parent xs \<and> items_ok cfg parent ys"
  by (induction xs) auto

lemma offer_items:
  "get_signal_info rfc8175_config ''Peer_Offer'' = Inr info \<Longrightarrow>
   si_data_items info = [ref 4 ''Peer_Type'' ''0-1'', ref 2 ''IPv4_Connection_Point'' ''0+'', ref 3 ''IPv6_Connection_Point'' ''0+'']"
  using offer_signal by simp

lemma offer_item_ok:
  "item_ok rfc8175_config None (DataItem 4 (Div_u8_string f t))"
  "length (v4_bytes a) = 4 \<Longrightarrow> item_ok rfc8175_config None (DataItem 2 (Div_u8_ipv4_u16 x a p))"
  "length (v6_bytes b) = 16 \<Longrightarrow> v6_scope_id b = 0 \<Longrightarrow> item_ok rfc8175_config None (DataItem 3 (Div_u8_ipv6_u16 x b p))"
  using offer_ids(11-13) by (auto split: sum.splits)

text \<open>The Peer Type is all the common data items of an offer.\<close>

definition type_items :: "DataItem list \<Rightarrow> bool" where
  "type_items ts \<longleftrightarrow> items_ok rfc8175_config None ts \<and> (\<forall>di\<in>set ts. di_id di = 4)"

lemma offer_common:
  assumes "pm_get_signal_name rfc8175_config pm = Inr ''Peer_Offer''"
    and "add_common_data_items rfc8175_config client pm = Inr pm'"
  shows "\<exists>ts. add_data_items rfc8175_config ts pm = Inr pm' \<and> type_items ts"
proof -
  from assms have "add_peer_type rfc8175_config client pm = Inr pm'"
    by (auto simp: add_common_data_items_def offer_items res_simps ref_def offer_ids)
  then have "pm' = pm \<or> (\<exists>f t. add_data_item rfc8175_config (DataItem 4 (Div_u8_string f t)) pm = Inr pm')"
    by (auto simp: add_peer_type_def add_peer_type_value_def add_named_def make_DataItem_def offer_ids res_simps
        split: sum.splits if_splits)
  then show ?thesis
  proof
    assume "pm' = pm"
    then show ?thesis by (intro exI[of _ "[]"]) (simp add: type_items_def)
  next
    assume "\<exists>f t. add_data_item rfc8175_config (DataItem 4 (Div_u8_string f t)) pm = Inr pm'"
    then obtain f t where "add_data_item rfc8175_config (DataItem 4 (Div_u8_string f t)) pm = Inr pm'" by blast
    then show ?thesis
      by (intro exI[of _ "[DataItem 4 (Div_u8_string f t)]"]) (simp add: type_items_def offer_item_ok del: item_ok.simps)
  qed
qed

text \<open>Where an offer sends the router: the session address, or that of the discovery interface.\<close>

definition offered_address :: "discovery_env \<Rightarrow> address" where
  "offered_address env = (case dv_address env ''session-address'' of Inr a \<Rightarrow> a | Inl _ \<Rightarrow> dv_interface_address env)"

definition point_item :: "address \<Rightarrow> u16 \<Rightarrow> DataItem" where
  "point_item a port = (case a of V4 ip \<Rightarrow> DataItem 2 (Div_u8_ipv4_u16 0 ip port) | V6 ip \<Rightarrow> DataItem 3 (Div_u8_ipv6_u16 0 ip port))"

lemma offer_message:
  assumes "dv_cfg env = rfc8175_config" and "cp_unsigned (dv_params env) ''session-port'' = Inr port"
    and "peer_offer_message env = Inr pm"
  shows "\<exists>pm0 ts. add_header rfc8175_config ''Peer_Offer'' new_ProtocolMessage = Inr pm0 \<and> type_items ts
    \<and> add_data_items rfc8175_config (ts @ [point_item (offered_address env) (ucast port)]) pm0 = Inr pm"
proof -
  from assms obtain pm0 pm1 where header: "add_header rfc8175_config ''Peer_Offer'' new_ProtocolMessage = Inr pm0"
    and common: "add_common_data_items rfc8175_config (dv_params env) pm0 = Inr pm1"
    and rest: "add_data_item rfc8175_config (point_item (offered_address env) (ucast port)) pm1 = Inr pm"
    by (auto simp: peer_offer_message_def res_simps add_port_and_address_def add_named_def make_DataItem_def offer_ids
        try_catch_def connection_item_def point_item_def offered_address_def Let_def
        split: sum.splits if_splits address.splits option.splits)
  have "pm_get_signal_name rfc8175_config pm0 = Inr ''Peer_Offer''"
    using add_header_built[OF header] signal_name_id[OF rfc8175_ok] by (fastforce simp: pm_get_signal_name_def built_def)
  from offer_common[OF this common] rest header show ?thesis by (auto simp: add_data_items_append)
qed

lemma find_value_type_items: "type_items ts \<Longrightarrow> i \<noteq> 4 \<Longrightarrow> find_value name get i (ts @ dis) = find_value name get i dis"
  by (induction ts) (auto simp: type_items_def)

lemma offer_read:
  assumes "dv_cfg env = rfc8175_config" and "cp_unsigned (dv_params env) ''session-port'' = Inr configured"
    and "data_items pm = ts @ [point_item a port]" and "type_items ts"
  shows "offer_target env pm from = Inr (a, ucast port, case a of V4 _ \<Rightarrow> False | V6 _ \<Rightarrow> True)"
  using assms by (cases a) (simp_all add: offer_target_def optional_item_def try_catch_def get_port_def get_ipv4_address_def
      get_ipv4_conn_point_def get_ipv6_address_def get_ipv6_conn_point_def get_data_item_value_def offer_ids
      find_value_type_items point_item_def as_ipv4_u16_def as_ipv6_u16_def)

section \<open>Property\<close>

definition usable_point :: "discovery_env \<Rightarrow> address \<Rightarrow> bool" where
  "usable_point env a \<longleftrightarrow>
     (case a of V4 ip \<Rightarrow> length (v4_bytes ip) = 4
      | V6 ip \<Rightarrow> length (v6_bytes ip) = 16 \<and> v6_scope_id ip = 0 \<and> \<not> dv_link_local env ip)"


end
