(* ===== verification/DiscoveryWitnesses.thy ===== *)
theory DiscoveryWitnesses
  imports DlepWitnesses DiscoveryOffer
begin

text \<open>The properties of discovery instantiated at a modem and a router with the RFC 8175 configuration.\<close>

definition ex_modem :: discovery_env where
  "ex_modem = \<lparr>dv_session = ex_env 100, dv_address = (\<lambda>s. Inl (BadParameterName s)),
     dv_interface_address = V4 (AddressV4 [10, 0, 0, 1]), dv_udp_port = 854, dv_to_string = (\<lambda>_. ''10.0.0.1''),
     dv_link_local = (\<lambda>_. False)\<rparr>"

definition ex_router :: discovery_env where
  "ex_router = ex_modem\<lparr>dv_session := (ex_env 100)\<lparr>env_modem := False\<rparr>, dv_interface_address := V4 (AddressV4 [10, 0, 0, 2])\<rparr>"

text \<open>The Peer Offer of the modem.\<close>

definition ex_offer :: ProtocolMessage where
  "ex_offer = new_ProtocolMessage\<lparr>msgbuf := [68, 76, 69, 80, 0, 2, 0, 21, 0, 4, 0, 6, 60, 109, 111, 100, 101, 109,
       0, 2, 0, 7, 0, 10, 0, 0, 1, 0, 60],
     msg_len_index := 6, header_length := 8, signal_id := 2, signal_id_initialized := True, is_signal := True\<rparr>"

definition ex_offer_parsed :: ProtocolMessage where
  "ex_offer_parsed = ex_offer\<lparr>data_items := [DataItem 4 (Div_u8_string 60 ''modem''),
     DataItem 2 (Div_u8_ipv4_u16 0 (AddressV4 [10, 0, 0, 1]) 60)]\<rparr>"

lemma ex_offer_message: "peer_offer_message ex_modem = Inr ex_offer"
  by code_simp

lemma ex_offer_check:
  "parse_and_validate ex_ip rfc8175_config True ''send_peer_offer'' ex_offer = Inr (ex_offer_parsed, '''')"
  by code_simp

lemma ex_send_offer:
  "send_peer_offer ex_modem to = Inr [Send_offer to 854 (msgbuf ex_offer)]"
proof -
  have "dv_session ex_modem = ex_env 100" "dv_udp_port ex_modem = 854" by (simp_all add: ex_modem_def)
  moreover have "msgbuf ex_offer_parsed = msgbuf ex_offer" by (simp add: ex_offer_parsed_def)
  ultimately show ?thesis
    by (simp add: send_peer_offer_def ex_offer_message reparse_assert_def reparse_def ex_offer_check assert_that_def)
qed

lemma ex_discovery_parsed:
  "parse_and_validate_buffer ex_ip rfc8175_config [68, 76, 69, 80, 0, 1, 0, 0] True False ''handle_message''
     new_ProtocolMessage = Inr (new_ProtocolMessage\<lparr>msgbuf := [68, 76, 69, 80, 0, 1, 0, 0], signal_id := 1,
       signal_id_initialized := True, is_signal := True\<rparr>, '''')"
  by code_simp

lemma ex_discovery_name: "get_signal_name rfc8175_config 1 = Inr ''Peer_Discovery''"
  by code_simp

theorem discovery_safe_witness:
  "discovery_handle_message ex_modem ex_node [68, 76, 69, 80, 0, 1, 0, 0] (V4 (AddressV4 [10, 0, 0, 2]), 4000)
     = Inr [Send_offer (V4 (AddressV4 [10, 0, 0, 2])) 854 (msgbuf ex_offer)] \<and> d_peers ex_node = []"
proof -
  have run: "discovery_handle_message ex_modem ex_node [68, 76, 69, 80, 0, 1, 0, 0] (V4 (AddressV4 [10, 0, 0, 2]), 4000)
     = Inr [Send_offer (V4 (AddressV4 [10, 0, 0, 2])) 854 (msgbuf ex_offer)]"
    using ex_discovery_parsed ex_send_offer
    by (simp add: discovery_handle_message_def ex_modem_def pm_get_signal_name_def ex_discovery_name handle_discovery_def
        peer_state_def)
  from discovery_safe[OF ex_node_reached run] run show ?thesis by auto
qed


end
