(* ===== verification/PeriodicMcastSendRcv.thy ===== *)
theory PeriodicMcastSendRcv
  imports NetUtils Session_Monad
begin

text \<open>
  Periodic multicast sending and receiving (\<open>src/PeriodicMcastSendRcv.cpp\<close>), the base class of
  peer discovery and destination advertisement. The methods a subclass provides are the record
  \<open>virtuals\<close>, computations on the subclass's own state. Opening a socket is the list of calls
  the code makes on it; which of them succeed, and the port the kernel picks, come from outside.
  The asynchronous operations that were started and have not completed are \<open>mc_pending\<close>;
  \<open>mcast_run\<close> are the objects that arise when they complete in any order, with any outcome.
\<close>

section \<open>Data\<close>

datatype socket_op =
    Open_v4
  | Open_v6
  | Reuse_address
  | Enable_loopback
  | Multicast_hops u32
  | Unicast_hops u32
  | Bind address u16
  | Outbound_interface address_v4
  | Join_v4 address_v4 address_v4
  | Join_v6 address_v6 u64
  | Bad_address_cast

datatype async_op =
    Async_receive
  | Async_send bytes "address \<times> u16"
  | Async_wait u32

text \<open>How an asynchronous operation completes: with an error (was it cancelled?) or with data.\<close>

datatype outcome = Failed bool | Finished bytes "address \<times> u16"

record mcast_env =
  me_net :: net
  me_receive_op :: "socket_op \<Rightarrow> bool"
  me_send_op :: "socket_op \<Rightarrow> bool"
  me_local_port :: u16

record 's virtuals =
  mv_handle_message :: "bytes \<Rightarrow> address \<times> u16 \<Rightarrow> ('s, unit) comp"
  mv_get_message_to_send :: "('s, bytes) comp"

record 's Mcast =
  mc_udp_port :: u16
  mc_interface_address :: address
  mc_interface_name :: string
  mc_multicast_address :: address
  mc_receiving :: bool
  mc_sending :: bool
  mc_send_ttl :: u32
  mc_send_interval :: u32
  mc_send_endpoint :: "address \<times> u16"
  mc_receive_socket :: "socket_op list"
  mc_send_socket :: "socket_op list"
  mc_pending :: "async_op list"
  mc_sub :: 's

type_synonym ('s, 'a) mcast_comp = "('s Mcast, 'a) comp"

section \<open>Construction\<close>

text \<open>A link-local multicast address is scoped to the interface; a failure is only logged.\<close>

definition scoped_multicast :: "net \<Rightarrow> address \<Rightarrow> string \<Rightarrow> address" where
  "scoped_multicast nt multicast_addr interface_name =
     (if is_v4 multicast_addr then multicast_addr
      else case set_ipv6_scope_id nt multicast_addr interface_name of None \<Rightarrow> multicast_addr | Some a \<Rightarrow> a)"

definition new_PeriodicMcastSendRcv ::
    "net \<Rightarrow> string \<Rightarrow> u16 \<Rightarrow> address \<Rightarrow> u32 \<Rightarrow> u32 \<Rightarrow> bool \<Rightarrow> bool \<Rightarrow> 's \<Rightarrow> 's Mcast" where
  "new_PeriodicMcastSendRcv nt interface_name udp_port multicast_addr ttl send_interval sending receiving sub =
     \<lparr>mc_udp_port = udp_port, mc_interface_address = new_address, mc_interface_name = interface_name,
      mc_multicast_address = scoped_multicast nt multicast_addr interface_name,
      mc_receiving = receiving, mc_sending = sending, mc_send_ttl = ttl, mc_send_interval = send_interval,
      mc_send_endpoint = (new_address, 0), mc_receive_socket = [], mc_send_socket = [], mc_pending = [],
      mc_sub = sub\<rparr>"

section \<open>Sockets\<close>

text \<open>The calls on a socket in order, up to the first that throws.\<close>

fun do_ops :: "(socket_op \<Rightarrow> bool) \<Rightarrow> socket_op list \<Rightarrow> socket_op list \<times> bool" where
  "do_ops ok [] = ([], True)"
| "do_ops ok (x # xs) =
     (if x = Bad_address_cast \<or> \<not> ok x then ([], False)
      else case do_ops ok xs of (ys, b) \<Rightarrow> (x # ys, b))"

definition open_op :: "address \<Rightarrow> socket_op" where
  "open_op a = (if is_v4 a then Open_v4 else Open_v6)"

definition send_ops :: "'s Mcast \<Rightarrow> socket_op list" where
  "send_ops m =
     [open_op (mc_multicast_address m), Reuse_address, Enable_loopback]
     @ (if mc_send_ttl m \<noteq> 0 then [Multicast_hops (mc_send_ttl m)] else [])
     @ [Bind (if is_v4 (mc_multicast_address m) then V4 default_v4 else V6 default_v6) 0]
     @ (case mc_interface_address m of V6 _ \<Rightarrow> [] | V4 a \<Rightarrow> [Outbound_interface a])"

definition setup_send :: "mcast_env \<Rightarrow> ('s, bool) mcast_comp" where
  "setup_send env =
     next_do (change (\<lambda>m. m\<lparr>mc_send_endpoint := (mc_multicast_address m, mc_udp_port m)\<rparr>))
     (bnd (asks (\<lambda>m. do_ops (me_send_op env) (send_ops m))) (\<lambda>(done, success).
      next_do (change (\<lambda>m. m\<lparr>mc_send_socket := done\<rparr>)) (ret success)))"

definition receive_ops :: "mcast_env \<Rightarrow> 's Mcast \<Rightarrow> socket_op list" where
  "receive_ops env m =
     [open_op (mc_multicast_address m), Reuse_address, Enable_loopback,
      Bind (mc_multicast_address m) (mc_udp_port m),
      (case mc_multicast_address m of
         V4 mcast_group \<Rightarrow> (case mc_interface_address m of V4 a \<Rightarrow> Join_v4 mcast_group a | V6 _ \<Rightarrow> Bad_address_cast)
       | V6 mcast_group \<Rightarrow> Join_v6 mcast_group (net_index (me_net env) (mc_interface_name m)))]"

definition setup_receive :: "mcast_env \<Rightarrow> ('s, bool) mcast_comp" where
  "setup_receive env =
     bnd (asks (\<lambda>m. do_ops (me_receive_op env) (receive_ops env m))) (\<lambda>(done, success).
     next_do (change (\<lambda>m. m\<lparr>mc_receive_socket := done\<rparr>)) (ret success))"

section \<open>Sending and receiving\<close>

text \<open>A method of the subclass.\<close>

definition in_sub :: "('s, 'a) comp \<Rightarrow> ('s, 'a) mcast_comp" where
  "in_sub c m = (case c (mc_sub m) of Inl e \<Rightarrow> Inl e | Inr (x, sub) \<Rightarrow> Inr (x, m\<lparr>mc_sub := sub\<rparr>))"

definition pend :: "async_op \<Rightarrow> ('s, unit) mcast_comp" where
  "pend op = change (\<lambda>m. m\<lparr>mc_pending := op # mc_pending m\<rparr>)"

definition start_send :: "'s virtuals \<Rightarrow> ('s, unit) mcast_comp" where
  "start_send v =
     bnd (in_sub (mv_get_message_to_send v)) (\<lambda>msg_buffer.
     bnd (asks mc_send_endpoint) (\<lambda>endpoint. pend (Async_send msg_buffer endpoint)))"

definition handle_send :: "bool \<Rightarrow> ('s, unit) mcast_comp" where
  "handle_send error =
     (if error then ret () else bnd (asks mc_send_interval) (\<lambda>seconds. pend (Async_wait seconds)))"

definition handle_send_timeout :: "'s virtuals \<Rightarrow> bool \<Rightarrow> ('s, unit) mcast_comp" where
  "handle_send_timeout v error = (if error then ret () else start_send v)"

definition start_receive :: "('s, unit) mcast_comp" where
  "start_receive = pend Async_receive"

text \<open>Is this a message of our own that was looped back?\<close>

definition from_self :: "mcast_env \<Rightarrow> address \<times> u16 \<Rightarrow> 's Mcast \<Rightarrow> bool" where
  "from_self env from_endpoint m \<longleftrightarrow>
     mc_sending m \<and> fst from_endpoint = mc_interface_address m \<and> snd from_endpoint = me_local_port env"

definition handle_receive :: "mcast_env \<Rightarrow> 's virtuals \<Rightarrow> outcome \<Rightarrow> ('s, unit) mcast_comp" where
  "handle_receive env v oc =
     (case oc of
        Failed aborted \<Rightarrow> if aborted then ret () else start_receive
      | Finished msg_buffer remote_endpoint \<Rightarrow>
          bnd (asks (from_self env remote_endpoint)) (\<lambda>own.
          next_do (when_do (\<not> own) (in_sub (mv_handle_message v msg_buffer remote_endpoint))) start_receive))"

section \<open>Start and stop\<close>

definition mcast_start :: "mcast_env \<Rightarrow> 's virtuals \<Rightarrow> ('s, bool) mcast_comp" where
  "mcast_start env v =
     bnd (asks mc_sending) (\<lambda>sending.
     bnd (asks mc_receiving) (\<lambda>receiving.
     if \<not> sending \<and> \<not> receiving then ret True
     else
       next_do (change (\<lambda>m. m\<lparr>mc_interface_address :=
                  get_ip_addr_from_iface (me_net env) (mc_interface_name m) (is_v4 (mc_multicast_address m))\<rparr>))
       (bnd (asks (\<lambda>m. net_unspecified (me_net env) (mc_interface_address m))) (\<lambda>unspecified.
        if unspecified then ret False
        else
          bnd (if receiving then setup_receive env else ret True) (\<lambda>can_receive.
          if \<not> can_receive then ret False
          else
            next_do (when_do receiving start_receive)
            (bnd (if sending then setup_send env else ret True) (\<lambda>can_send.
             if \<not> can_send then ret False
             else next_do (when_do sending (start_send v)) (ret True))))))))"

text \<open>Closing the sockets; what is pending completes with an error later on.\<close>

definition mcast_stop :: "('s, unit) mcast_comp" where
  "mcast_stop = change (\<lambda>m. m\<lparr>mc_receive_socket := [], mc_send_socket := []\<rparr>)"

section \<open>Completion of asynchronous operations\<close>

definition is_error :: "outcome \<Rightarrow> bool" where
  "is_error oc = (case oc of Failed _ \<Rightarrow> True | Finished _ _ \<Rightarrow> False)"

fun complete :: "mcast_env \<Rightarrow> 's virtuals \<Rightarrow> async_op \<Rightarrow> outcome \<Rightarrow> ('s, unit) mcast_comp" where
  "complete env v Async_receive oc = handle_receive env v oc"
| "complete env v (Async_send _ _) oc = handle_send (is_error oc)"
| "complete env v (Async_wait _) oc = handle_send_timeout v (is_error oc)"

text \<open>
  The objects that arise from a successful start with the state \<open>sub\<close> of the subclass; \<open>ok\<close>
  tells whether every operation so far completed without error.
\<close>

inductive mcast_run :: "mcast_env \<Rightarrow> 's virtuals \<Rightarrow> 's \<Rightarrow> bool \<Rightarrow> 's Mcast \<Rightarrow> bool" for env v sub where
  started:
    "mcast_start env v (new_PeriodicMcastSendRcv nt name port addr ttl interval sending receiving sub) = Inr (True, m)
     \<Longrightarrow> mcast_run env v sub True m"
| completed:
    "mcast_run env v sub ok m \<Longrightarrow> op \<in> set (mc_pending m)
     \<Longrightarrow> complete env v op oc (m\<lparr>mc_pending := remove1 op (mc_pending m)\<rparr>) = Inr ((), m')
     \<Longrightarrow> mcast_run env v sub (ok \<and> \<not> is_error oc) m'"

section \<open>The subclass\<close>

text \<open>
  What a subclass promises: its methods keep an invariant of its state. Starting needs it of
  the message to send only; the base class then keeps it whatever completes.
\<close>

locale mcast_sender =
  fixes v :: "'s virtuals" and I :: "'s \<Rightarrow> bool"
  assumes keeps_get_message: "keeps I (mv_get_message_to_send v)"
begin

abbreviation sub_ok :: "'s Mcast \<Rightarrow> bool" where
  "sub_ok m \<equiv> I (mc_sub m)"

lemma keeps_in_sub: "keeps I c \<Longrightarrow> keeps sub_ok (in_sub c)"
  by (auto simp: triple_def in_sub_def split: sum.splits)

lemma keeps_fields [triple_rules]:
  "keeps sub_ok (pend op)" "keeps sub_ok (setup_send env)" "keeps sub_ok (setup_receive env)"
  by (auto simp: triple_def pend_def setup_send_def setup_receive_def comp_simps split: prod.splits)

lemma keeps_start_send [triple_rules]: "keeps sub_ok (start_send v)"
  unfolding start_send_def by (intro triple_rules keeps_in_sub keeps_get_message)

lemma keeps_start: "keeps sub_ok (mcast_start env v)"
  unfolding mcast_start_def start_receive_def by (intro triple_rules keeps_change) simp

end

locale mcast_client = mcast_sender v I for v :: "'s virtuals" and I +
  assumes keeps_handle_message: "keeps I (mv_handle_message v msg from_endpoint)"
begin

lemma keeps_complete: "keeps sub_ok (complete env v op oc)"
  by (cases op; cases oc)
    (auto simp: handle_receive_def handle_send_def handle_send_timeout_def start_receive_def is_error_def
      intro!: triple_rules keeps_in_sub keeps_handle_message)

lemma run_keeps: "mcast_run env v sub ok m \<Longrightarrow> I sub \<Longrightarrow> I (mc_sub m)"
proof (induction rule: mcast_run.induct)
  case (started nt name port addr ttl interval sending receiving m)
  then show ?case using tripleD[OF keeps_start _ started(1)] by (simp add: new_PeriodicMcastSendRcv_def)
next
  case (completed ok m op oc m')
  then show ?case using tripleD[OF keeps_complete _ completed(3)] by simp
qed

end

section \<open>One operation of each kind\<close>

definition receives :: "'s Mcast \<Rightarrow> nat" where
  "receives m = length (filter (\<lambda>op. op = Async_receive) (mc_pending m))"

definition sends :: "'s Mcast \<Rightarrow> nat" where
  "sends m = length (filter (\<lambda>op. op \<noteq> Async_receive) (mc_pending m))"

fun right_op :: "'s Mcast \<Rightarrow> async_op \<Rightarrow> bool" where
  "right_op m Async_receive \<longleftrightarrow> mc_receiving m"
| "right_op m (Async_send _ endpoint) \<longleftrightarrow> mc_sending m \<and> endpoint = mc_send_endpoint m"
| "right_op m (Async_wait seconds) \<longleftrightarrow> mc_sending m \<and> seconds = mc_send_interval m"

definition pending_ok :: "bool \<Rightarrow> 's Mcast \<Rightarrow> bool" where
  "pending_ok ok m \<longleftrightarrow>
     receives m \<le> of_bool (mc_receiving m) \<and> sends m \<le> of_bool (mc_sending m)
     \<and> (ok \<longrightarrow> receives m = of_bool (mc_receiving m) \<and> sends m = of_bool (mc_sending m))
     \<and> list_all (right_op m) (mc_pending m)
     \<and> (mc_sending m \<longrightarrow> mc_send_endpoint m = (mc_multicast_address m, mc_udp_port m))"

lemma right_op_cong:
  "mc_receiving m' = mc_receiving m \<Longrightarrow> mc_sending m' = mc_sending m \<Longrightarrow> mc_send_endpoint m' = mc_send_endpoint m
   \<Longrightarrow> mc_send_interval m' = mc_send_interval m \<Longrightarrow> right_op m' = right_op m"
  by (rule ext) (metis async_op.exhaust right_op.simps)

lemma in_sub_result: "in_sub c m = Inr (x, m') \<Longrightarrow> \<exists>sub. m' = m\<lparr>mc_sub := sub\<rparr>"
  by (auto simp: in_sub_def split: sum.splits)

lemma start_send_result:
  assumes "start_send v m = Inr ((), m')"
  shows "\<exists>sub buf. m' = m\<lparr>mc_sub := sub, mc_pending := Async_send buf (mc_send_endpoint m) # mc_pending m\<rparr>"
  using assms by (auto simp: start_send_def pend_def comp_simps dest!: in_sub_result split: sum.splits) blast

lemma pending_started:
  assumes "mcast_start env v (new_PeriodicMcastSendRcv nt name port addr ttl interval sending receiving sub) = Inr (True, m)"
  shows "pending_ok True m"
  using assms
  by (cases sending; cases receiving)
    (auto simp: mcast_start_def new_PeriodicMcastSendRcv_def setup_send_def setup_receive_def start_receive_def pend_def
      pending_ok_def receives_def sends_def comp_simps dest!: start_send_result split: if_splits sum.splits prod.splits)

text \<open>An operation that completed is no longer pending.\<close>

lemma pending_removed:
  assumes "op \<in> set (mc_pending m)"
  shows "receives (m\<lparr>mc_pending := remove1 op (mc_pending m)\<rparr>) = receives m - of_bool (op = Async_receive)"
    and "sends (m\<lparr>mc_pending := remove1 op (mc_pending m)\<rparr>) = sends m - of_bool (op \<noteq> Async_receive)"
  using assms by (auto simp: receives_def sends_def filter_remove1 length_remove1)

lemma pending_positive:
  assumes "op \<in> set (mc_pending m)"
  shows "op = Async_receive \<Longrightarrow> receives m \<noteq> 0" and "op \<noteq> Async_receive \<Longrightarrow> sends m \<noteq> 0"
  using assms by (auto simp: receives_def sends_def filter_empty_conv)

lemma pending_add [simp]:
  "receives (m\<lparr>mc_pending := op # ops\<rparr>) = of_bool (op = Async_receive) + receives (m\<lparr>mc_pending := ops\<rparr>)"
  "sends (m\<lparr>mc_pending := op # ops\<rparr>) = of_bool (op \<noteq> Async_receive) + sends (m\<lparr>mc_pending := ops\<rparr>)"
  by (simp_all add: receives_def sends_def)

lemma pending_sub [simp]:
  "receives (m\<lparr>mc_sub := sub, mc_pending := ops\<rparr>) = receives (m\<lparr>mc_pending := ops\<rparr>)"
  "sends (m\<lparr>mc_sub := sub, mc_pending := ops\<rparr>) = sends (m\<lparr>mc_pending := ops\<rparr>)"
  by (simp_all add: receives_def sends_def)

text \<open>Only an error ends a chain of operations; otherwise the next one is started.\<close>

lemma complete_result:
  assumes "complete env v op oc m = Inr ((), m')"
  obtains "m' = m" and "is_error oc"
  | sub op' where "m' = m\<lparr>mc_sub := sub, mc_pending := op' # mc_pending m\<rparr>"
      and "op' = Async_receive \<longleftrightarrow> op = Async_receive" and "right_op m op \<Longrightarrow> right_op m op'"
proof (cases op)
  case Async_receive
  with assms show ?thesis
    by (cases oc) (auto simp: handle_receive_def start_receive_def pend_def is_error_def comp_simps
        dest!: in_sub_result split: if_splits sum.splits intro: that(1) that(2)[where sub = "mc_sub m" and op' = Async_receive]
          that(2)[where op' = Async_receive])
next
  case (Async_send buf endpoint)
  with assms show ?thesis
    by (cases "is_error oc") (auto simp: handle_send_def pend_def comp_simps intro: that(1) that(2)[where sub = "mc_sub m"])
next
  case (Async_wait seconds)
  with assms show ?thesis
    by (cases "is_error oc") (auto simp: handle_send_timeout_def comp_simps dest!: start_send_result intro: that)
qed

lemma pending_completed:
  assumes "pending_ok ok m" and op: "op \<in> set (mc_pending m)"
    and run: "complete env v op oc (m\<lparr>mc_pending := remove1 op (mc_pending m)\<rparr>) = Inr ((), m')"
  shows "pending_ok (ok \<and> \<not> is_error oc) m'"
proof -
  let ?m = "m\<lparr>mc_pending := remove1 op (mc_pending m)\<rparr>"
  note facts = pending_removed[OF op] pending_positive[OF op]
  have same: "right_op ?m = right_op m" "right_op (?m\<lparr>mc_sub := sub, mc_pending := ops\<rparr>) = right_op m" for sub ops
    by (rule right_op_cong; simp)+
  have right: "list_all (right_op m) (remove1 op (mc_pending m))" "right_op m op"
    using assms(1) op set_remove1_subset[of op "mc_pending m"] by (auto simp: pending_ok_def list_all_iff)
  from run show ?thesis
  proof (cases rule: complete_result)
    case 1
    with assms(1) facts right same show ?thesis by (auto simp: pending_ok_def)
  next
    case (2 sub op')
    with assms(1) facts right same show ?thesis by (cases "op = Async_receive") (auto simp: pending_ok_def)
  qed
qed

text \<open>
  C32: at any time at most one receive operation is outstanding, and at most one of sending
  and waiting to send, and none of a kind that is not enabled; as long as no operation failed
  there is exactly one of each enabled kind, so that receiving and periodic sending go on.
  Each message goes to the configured multicast address and port, and the wait between two
  is the configured interval.
\<close>

theorem mcast_goes_on:
  assumes "mcast_run env v sub ok m"
  shows "receives m \<le> of_bool (mc_receiving m) \<and> sends m \<le> of_bool (mc_sending m)
    \<and> (ok \<longrightarrow> receives m = of_bool (mc_receiving m) \<and> sends m = of_bool (mc_sending m))
    \<and> (\<forall>buf endpoint. Async_send buf endpoint \<in> set (mc_pending m) \<longrightarrow> endpoint = (mc_multicast_address m, mc_udp_port m))
    \<and> (\<forall>seconds. Async_wait seconds \<in> set (mc_pending m) \<longrightarrow> seconds = mc_send_interval m)"
proof -
  from assms have "pending_ok ok m"
    by (induction rule: mcast_run.induct) (auto intro: pending_started pending_completed)
  then show ?thesis by (fastforce simp: pending_ok_def list_all_iff)
qed

text \<open>
  One failed send ends periodic sending for good: the timer is started only when a send
  succeeds.
\<close>

lemma failed_send_ends:
  assumes "mcast_run env v sub ok m" and "Async_send buf endpoint \<in> set (mc_pending m)"
    and "complete env v (Async_send buf endpoint) (Failed aborted)
      (m\<lparr>mc_pending := remove1 (Async_send buf endpoint) (mc_pending m)\<rparr>) = Inr ((), m')"
  shows "sends m' = 0"
proof -
  from assms(1) have "pending_ok ok m"
    by (induction rule: mcast_run.induct) (auto intro: pending_started pending_completed)
  with assms(2,3) pending_removed(2)[OF assms(2)] show ?thesis
    by (auto simp: pending_ok_def handle_send_def is_error_def comp_simps of_bool_def split: if_splits)
qed

text \<open>A message of our own that comes back never reaches the subclass.\<close>

lemma own_message_dropped:
  assumes "from_self env from_endpoint m"
  shows "handle_receive env v (Finished msg from_endpoint) m = Inr ((), m\<lparr>mc_pending := Async_receive # mc_pending m\<rparr>)"
  using assms by (simp add: handle_receive_def start_receive_def pend_def comp_simps)

end
