(* ===== verification/DlepStart.thy ===== *)
theory DlepStart
  imports DiscoveryOffer PeriodicMcastSendRcv ConfigLoader
begin

text \<open>
  Start-up (\<open>Dlep::initialize\<close> and \<open>start_dlep\<close> in \<open>src/Dlep.cpp\<close>, the constructor of
  \<open>src/DlepServiceImpl.cpp\<close>, \<open>src/DlepInit.cpp\<close>, \<open>PeerDiscovery::start\<close>): the configuration
  is loaded, our own data is set up, discovery and destination advertisement are started, and
  the modem listens for sessions or the router connects. A missing parameter makes start-up
  fail in the way the code reports it; any other exception leaves the thread, which ends the
  process. From outside come the client's parameters, the interfaces, and which socket
  operations succeed.
\<close>

section \<open>Data\<close>

record start_env =
  st_session :: session_env
  st_xml_load :: "string \<Rightarrow> string \<Rightarrow> string + xml_node"
  st_address :: "string \<Rightarrow> address res"
  st_unsigneds :: "string \<Rightarrow> u32 list res"
  st_net :: net
  st_discovery_sockets :: mcast_env
  st_advert_sockets :: mcast_env
  st_offer_op :: "socket_op \<Rightarrow> bool"
  st_acceptor :: "address \<Rightarrow> u16 \<Rightarrow> bool"
  st_resolve :: "address \<Rightarrow> u16 \<Rightarrow> bool"
  st_serialize :: "DestinationAdvertisement \<Rightarrow> bool \<times> string"
  st_parse :: "bytes \<Rightarrow> DestinationAdvertisement option"
  st_to_string :: "address \<Rightarrow> string"
  st_log_file :: "string \<Rightarrow> bool"

abbreviation st_params :: "start_env \<Rightarrow> client_config" where
  "st_params st \<equiv> env_params (st_session st)"

abbreviation st_modem :: "start_env \<Rightarrow> bool" where
  "st_modem st \<equiv> env_modem (st_session st)"

abbreviation discovery_sockets :: "start_env \<Rightarrow> mcast_env" where
  "discovery_sockets st \<equiv> (st_discovery_sockets st)\<lparr>me_net := st_net st\<rparr>"

abbreviation advert_sockets :: "start_env \<Rightarrow> mcast_env" where
  "advert_sockets st \<equiv> (st_advert_sockets st)\<lparr>me_net := st_net st\<rparr>"

text \<open>An optional parameter: the handler for \<open>BadParameterName\<close> keeps the default.\<close>

definition optional_parameter :: "'a res \<Rightarrow> 'a \<Rightarrow> 'a res" where
  "optional_parameter m x = try_catch m is_BadParameterName (Inr x)"

section \<open>Peer discovery\<close>

record PeerDiscovery =
  pd_mcast :: "discovery_action list Mcast"
  pd_offer_socket :: "socket_op list"
  pd_offer_receive :: bool

definition discovery_virtuals :: "discovery_env \<Rightarrow> Dlep \<Rightarrow> discovery_action list virtuals" where
  "discovery_virtuals env d =
     \<lparr>mv_handle_message = (\<lambda>msg from_endpoint actions.
        rbind (discovery_handle_message env d msg from_endpoint) (\<lambda>new. Inr ((), actions @ new))),
      mv_get_message_to_send = lift (discovery_message env)\<rparr>"

definition offer_ops :: "bool \<Rightarrow> 's Mcast \<Rightarrow> socket_op list" where
  "offer_ops modem m =
     [open_op (mc_interface_address m)]
     @ (if mc_send_ttl m \<noteq> 0 then [Unicast_hops (mc_send_ttl m)] else [])
     @ (if \<not> modem then [Bind (mc_interface_address m) (mc_udp_port m)] else [])"

text \<open>\<open>None\<close> when discovery could not be started.\<close>

definition discovery_start ::
    "start_env \<Rightarrow> discovery_env \<Rightarrow> Dlep \<Rightarrow> discovery_action list Mcast \<Rightarrow> PeerDiscovery option res" where
  "discovery_start st env d m0 =
     rbind (mcast_start (discovery_sockets st) (discovery_virtuals env d) m0) (\<lambda>(started, m).
     if \<not> started then Inr None
     else case do_ops (st_offer_op st) (offer_ops (dv_modem env) m) of
       (done, success) \<Rightarrow>
         Inr (if success
              then Some \<lparr>pd_mcast = m, pd_offer_socket = done, pd_offer_receive = (\<not> dv_modem env)\<rparr>
              else None))"

definition discovery_handle_receive ::
    "discovery_env \<Rightarrow> Dlep \<Rightarrow> outcome \<Rightarrow> PeerDiscovery \<Rightarrow> PeerDiscovery res" where
  "discovery_handle_receive env d oc pd =
     (case oc of
        Failed aborted \<Rightarrow> Inr (pd\<lparr>pd_offer_receive := \<not> aborted\<rparr>)
      | Finished msg_buffer modem_endpoint \<Rightarrow>
          rbind (in_sub (mv_handle_message (discovery_virtuals env d) msg_buffer modem_endpoint) (pd_mcast pd)) (\<lambda>(_, m).
          Inr (pd\<lparr>pd_mcast := m, pd_offer_receive := True\<rparr>)))"

definition discovery_stop :: "PeerDiscovery \<Rightarrow> PeerDiscovery res" where
  "discovery_stop pd =
     rbind (mcast_stop (pd_mcast pd)) (\<lambda>(_, m). Inr (pd\<lparr>pd_mcast := m, pd_offer_socket := []\<rparr>))"

text \<open>The parameters of discovery, those of a disabled discovery when it is not enabled.\<close>

record discovery_params =
  dp_enable :: bool
  dp_iface :: string
  dp_port :: u32
  dp_mcast_address :: address
  dp_interval :: u32
  dp_ttl :: u32

definition get_discovery_params :: "start_env \<Rightarrow> discovery_params res" where
  "get_discovery_params st =
     rbind (cp_bool (st_params st) ''discovery-enable'') (\<lambda>enable.
     if \<not> enable
     then Inr \<lparr>dp_enable = False, dp_iface = '''', dp_port = 0, dp_mcast_address = new_address,
               dp_interval = 0, dp_ttl = 0\<rparr>
     else
       rbind (cp_string (st_params st) ''discovery-iface'') (\<lambda>iface.
       rbind (cp_unsigned (st_params st) ''discovery-port'') (\<lambda>port.
       rbind (st_address st ''discovery-mcast-address'') (\<lambda>mcast.
       rbind (if st_modem st then Inr 0 else cp_unsigned (st_params st) ''discovery-interval'') (\<lambda>interval.
       rbind (optional_parameter (cp_unsigned (st_params st) ''discovery-ttl'') 0) (\<lambda>ttl.
       Inr \<lparr>dp_enable = True, dp_iface = iface, dp_port = port, dp_mcast_address = mcast,
            dp_interval = interval, dp_ttl = ttl\<rparr>))))))"

definition new_discovery :: "start_env \<Rightarrow> discovery_params \<Rightarrow> discovery_action list Mcast" where
  "new_discovery st dp =
     new_PeriodicMcastSendRcv (st_net st) (dp_iface dp) (ucast (dp_port dp)) (dp_mcast_address dp) (dp_ttl dp)
       (dp_interval dp) (dp_enable dp \<and> \<not> st_modem st) (dp_enable dp \<and> st_modem st) []"

section \<open>Destination advertisement\<close>

text \<open>The advertiser reads and changes the node it belongs to.\<close>

definition node_advert_send :: "(DestinationAdvertisement \<Rightarrow> bool \<times> string) \<Rightarrow> int \<Rightarrow> bytes node_comp" where
  "node_advert_send SerializeToString now =
     bnd (asks d_advert) (\<lambda>advert.
     case advert of
       None \<Rightarrow> ret []
     | Some da \<Rightarrow>
         (case get_message_to_send SerializeToString now da of
            (da', msg) \<Rightarrow> next_do (change (\<lambda>d. d\<lparr>d_advert := Some da'\<rparr>)) (ret msg)))"

definition advert_virtuals ::
    "session_env \<Rightarrow> (bytes \<Rightarrow> DestinationAdvertisement option) \<Rightarrow> (DestinationAdvertisement \<Rightarrow> bool \<times> string)
     \<Rightarrow> Dlep virtuals" where
  "advert_virtuals env ParseFromArray SerializeToString =
     \<lparr>mv_handle_message = (\<lambda>msg _. node_advert_message env ParseFromArray msg),
      mv_get_message_to_send = node_advert_send SerializeToString (env_time env)\<rparr>"

text \<open>
  Destination advertisement, when a modem is configured for it. The result is the node, with
  the advertiser if there is one, or \<open>None\<close> when the advertiser could not be started.
\<close>

definition start_advert :: "start_env \<Rightarrow> session_env \<Rightarrow> Dlep \<Rightarrow> (Dlep \<times> Dlep Mcast option) option res" where
  "start_advert st env d =
     (if \<not> st_modem st then Inr (Some (d, None))
      else rbind (cp_bool (st_params st) ''destination-advert-enable'') (\<lambda>enabled.
        if \<not> enabled then Inr (Some (d, None))
        else
          rbind (cp_string (st_params st) ''destination-advert-iface'') (\<lambda>iface.
          rbind (cp_unsigned (st_params st) ''destination-advert-port'') (\<lambda>port.
          rbind (st_address st ''destination-advert-mcast-address'') (\<lambda>mcast.
          rbind (cp_unsigned (st_params st) ''destination-advert-send-interval'') (\<lambda>interval.
          rbind (st_unsigneds st ''destination-advert-rf-id'') (\<lambda>rfid.
          let mac = DlepMac (map ucast rfid);
              d1 = d\<lparr>d_advert := Some (new_DestAdvert (env_time env) interval mac)\<rparr>;
              m0 = new_PeriodicMcastSendRcv (st_net st) iface (ucast port) mcast 0 interval (interval > 0) True d1
          in rbind (mcast_start (advert_sockets st) (advert_virtuals env (st_parse st) (st_serialize st)) m0) (\<lambda>(started, m).
             Inr (if started then Some (mc_sub m, Some m) else None)))))))))"

section \<open>Sessions\<close>

datatype start_action =
    Accept_on address u16
  | Connect_to address u16
  | Start_cleanup_timer

text \<open>Where the modem listens; \<open>None\<close> when \<open>start_dlep\<close> gives up.\<close>

definition modem_session_address :: "start_env \<Rightarrow> bool \<Rightarrow> address option res" where
  "modem_session_address st using_ipv6 =
     (case st_address st ''session-address'' of
        Inl e \<Rightarrow>
          if is_BadParameterName e then Inr (Some (if using_ipv6 then V6 default_v6 else V4 default_v4)) else Inl e
      | Inr session_address \<Rightarrow>
          Inr (if is_v4 session_address then Some session_address
               else let session_iface = get_iface_from_ip_addr (st_net st) session_address
                    in if session_iface = '''' then None
                       else set_ipv6_scope_id (st_net st) session_address session_iface))"

text \<open>Where a router without discovery connects to.\<close>

definition router_session_address :: "start_env \<Rightarrow> address option res" where
  "router_session_address st =
     rbind (st_address st ''session-address'') (\<lambda>session_address.
     if is_v4 session_address then Inr (Some session_address)
     else rbind (cp_string (st_params st) ''session-iface'') (\<lambda>session_iface.
          Inr (set_ipv6_scope_id (st_net st) session_address session_iface)))"

definition start_async_connect :: "start_env \<Rightarrow> address \<Rightarrow> u16 \<Rightarrow> start_action list res" where
  "start_async_connect st dest_ip port =
     rbind (assert_that (\<not> st_modem st) ''!modem'') (\<lambda>_.
     if st_resolve st dest_ip port then Inr [Connect_to dest_ip port] else Inl (System_Error ''resolve''))"

definition start_dlep :: "start_env \<Rightarrow> discovery_params \<Rightarrow> start_action list option res" where
  "start_dlep st dp =
     (if st_modem st
      then
        rbind (cp_unsigned (st_params st) ''session-port'') (\<lambda>session_port.
        rbind (modem_session_address st (dp_enable dp \<and> \<not> is_v4 (dp_mcast_address dp))) (\<lambda>addr.
        case addr of
          None \<Rightarrow> Inr None
        | Some session_address \<Rightarrow>
            if st_acceptor st session_address (ucast session_port)
            then Inr (Some [Accept_on session_address (ucast session_port), Start_cleanup_timer])
            else Inl (System_Error ''bind'')))
      else if dp_enable dp then Inr (Some [Start_cleanup_timer])
      else
        rbind (cp_unsigned (st_params st) ''session-port'') (\<lambda>session_port.
        rbind (router_session_address st) (\<lambda>addr.
        case addr of
          None \<Rightarrow> Inr None
        | Some dest \<Rightarrow>
            rbind (start_async_connect st dest (ucast session_port)) (\<lambda>actions.
            Inr (Some (actions @ [Start_cleanup_timer]))))))"

section \<open>Initialization\<close>

record started =
  sd_env :: session_env
  sd_node :: Dlep
  sd_discovery_params :: discovery_params
  sd_discovery :: PeerDiscovery
  sd_advert :: "Dlep Mcast option"
  sd_actions :: "start_action list"

text \<open>The environment of discovery once its interface is known.\<close>

definition discovery_env_of :: "start_env \<Rightarrow> session_env \<Rightarrow> 's Mcast \<Rightarrow> discovery_env" where
  "discovery_env_of st env m =
     \<lparr>dv_session = env, dv_address = st_address st, dv_interface_address = mc_interface_address m,
      dv_udp_port = mc_udp_port m, dv_to_string = st_to_string st, dv_link_local = net_link_local (st_net st)\<rparr>"

text \<open>The body of the \<open>try\<close> block; \<open>None\<close> where the code reports failure and returns.\<close>

definition initialize_body :: "start_env \<Rightarrow> started option res" where
  "initialize_body st =
     rbind (cp_string (st_params st) ''protocol-config-schema'') (\<lambda>schema.
     rbind (cp_string (st_params st) ''protocol-config-file'') (\<lambda>file.
     rbind (load_protocol_config (st_xml_load st) schema file) (\<lambda>cfg.
     let env = (st_session st)\<lparr>env_cfg := cfg\<rparr>
     in rbind (new_Dlep env None) (\<lambda>d.
        rbind (get_discovery_params st) (\<lambda>dp.
        let m0 = new_discovery st dp
        in rbind (discovery_start st (discovery_env_of st env m0) d m0) (\<lambda>discovery.
           case discovery of
             None \<Rightarrow> Inr None
           | Some pd \<Rightarrow>
               rbind (start_advert st env d) (\<lambda>advert.
               case advert of
                 None \<Rightarrow> Inr None
               | Some (d1, ad) \<Rightarrow>
                   rbind (start_dlep st dp) (\<lambda>actions.
                   Inr (map_option (\<lambda>acts. \<lparr>sd_env = env, sd_node = d1, sd_discovery_params = dp, sd_discovery = pd,
                          sd_advert = ad, sd_actions = acts\<rparr>) actions)))))))))"

text \<open>
  The thread: \<open>Inr None\<close> is \<open>notify_initialization_done(false)\<close>, \<open>Inr (Some _)\<close> is success, and
  an exception that is not \<open>BadParameterName\<close> leaves the thread.
\<close>

definition initialize :: "start_env \<Rightarrow> started option res" where
  "initialize st = try_catch (initialize_body st) is_BadParameterName (Inr None)"

text \<open>\<open>None\<close> is the null pointer. The constructor of the service runs \<open>initialize\<close> and waits for it.\<close>

definition DlepInit :: "start_env \<Rightarrow> started option res" where
  "DlepInit st =
     (case rbind (cp_string (st_params st) ''log-file'') (\<lambda>logfile.
           rbind (cp_unsigned (st_params st) ''log-level'') (\<lambda>log_level. Inr logfile)) of
        Inl e \<Rightarrow> if is_BadParameterName e then Inr None else Inl e
      | Inr logfile \<Rightarrow>
          if \<not> st_log_file st logfile then Inr None
          else (case cp_string (st_params st) ''local-type'' of
                  Inl e \<Rightarrow> if is_BadParameterName e then Inr None else Inl e
                | Inr local_type \<Rightarrow>
                    initialize (st\<lparr>st_session := (st_session st)\<lparr>env_modem := (local_type = ''modem'')\<rparr>\<rparr>)))"

section \<open>What start-up achieves\<close>

text \<open>The advertiser keeps every invariant of the node.\<close>

sublocale node_invariant \<subseteq> advertiser: mcast_client "advert_virtuals env pb_parse pb_serialize" J for pb_parse pb_serialize
proof
  show "keeps J (mv_handle_message (advert_virtuals env pb_parse pb_serialize) msg from_endpoint)" for msg from_endpoint
    using keeps_node_event[of pb_parse "Advert_message msg"] by (simp add: advert_virtuals_def)
  show "keeps J (mv_get_message_to_send (advert_virtuals env pb_parse pb_serialize))"
    by (simp add: advert_virtuals_def node_advert_send_def) (intro triple_rules keeps_advert)
qed

lemma try_catch_Some: "try_catch m P (Inr None) = Inr (Some x) \<Longrightarrow> m = Inr (Some x)"
  by (auto simp: try_catch_def split: sum.splits if_splits)

text \<open>The steps a successful start-up went through.\<close>

lemma initialize_steps:
  assumes "initialize st = Inr (Some sd)"
  obtains schema config_file d where
    "load_protocol_config (st_xml_load st) schema config_file = Inr (env_cfg (sd_env sd))"
    "sd_env sd = (st_session st)\<lparr>env_cfg := env_cfg (sd_env sd)\<rparr>"
    "new_Dlep (sd_env sd) None = Inr d"
    "get_discovery_params st = Inr (sd_discovery_params sd)"
    "discovery_start st (discovery_env_of st (sd_env sd) (new_discovery st (sd_discovery_params sd))) d
       (new_discovery st (sd_discovery_params sd)) = Inr (Some (sd_discovery sd))"
    "start_advert st (sd_env sd) d = Inr (Some (sd_node sd, sd_advert sd))"
    "start_dlep st (sd_discovery_params sd) = Inr (Some (sd_actions sd))"
  using try_catch_Some[OF assms[unfolded initialize_def]]
  by (auto simp: initialize_body_def Let_def res_simps split: option.splits intro: that)

lemma discovery_started:
  assumes "discovery_start st env d (new_discovery st dp) = Inr (Some pd)"
  shows "mcast_run (discovery_sockets st) (discovery_virtuals env d) [] True (pd_mcast pd)"
proof -
  from assms have "mcast_start (discovery_sockets st) (discovery_virtuals env d) (new_discovery st dp) = Inr (True, pd_mcast pd)"
    by (auto simp: discovery_start_def res_simps split: if_splits prod.splits)
  then show ?thesis unfolding new_discovery_def by (rule mcast_run.started)
qed

text \<open>Building an advertisement changes nothing but the advertiser.\<close>

interpretation advert_sender: mcast_sender "advert_virtuals env pb_parse pb_serialize" "\<lambda>d'. \<exists>a. d' = d\<lparr>d_advert := Some a\<rparr>" for env pb_parse pb_serialize d
  by unfold_locales (auto simp: advert_virtuals_def node_advert_send_def triple_def comp_simps split: option.splits prod.splits sum.splits)

lemma advert_started:
  assumes "start_advert st env d = Inr (Some (d1, ad))"
  shows "(d1 = d \<and> ad = None)
    \<or> (\<exists>a m d0. d1 = d\<lparr>d_advert := Some a\<rparr> \<and> ad = Some m \<and> mc_sub m = d1
         \<and> mcast_run (advert_sockets st) (advert_virtuals env (st_parse st) (st_serialize st)) d0 True m)"
proof (cases ad)
  case None
  with assms show ?thesis by (auto simp: start_advert_def Let_def res_simps split: if_splits)
next
  case (Some m)
  with assms obtain iface port mcast interval mac where sub: "mc_sub m = d1"
    and run: "mcast_start (advert_sockets st) (advert_virtuals env (st_parse st) (st_serialize st))
      (new_PeriodicMcastSendRcv (st_net st) iface port mcast 0 interval (interval > 0) True
        (d\<lparr>d_advert := Some (new_DestAdvert (env_time env) interval mac)\<rparr>)) = Inr (True, m)"
    by (auto simp: start_advert_def Let_def res_simps split: if_splits)
  from tripleD[OF advert_sender.keeps_start _ run, of d] have "\<exists>a. mc_sub m = d\<lparr>d_advert := Some a\<rparr>"
    by (auto simp: new_PeriodicMcastSendRcv_def)
  with sub Some mcast_run.started[OF run] show ?thesis by blast
qed


text \<open>The addresses before and after the scope id is set, and what an acceptor serves.\<close>

definition same_ip :: "address \<Rightarrow> address \<Rightarrow> bool" where
  "same_ip a c \<longleftrightarrow>
     (case a of
        V4 x \<Rightarrow> c = V4 x
      | V6 x \<Rightarrow> (case c of V4 _ \<Rightarrow> False | V6 y \<Rightarrow> v6_bytes x = v6_bytes y))"

definition accepts :: "address \<Rightarrow> address \<Rightarrow> bool" where
  "accepts a c \<longleftrightarrow> same_ip a c \<or> a = (if is_v4 c then V4 default_v4 else V6 default_v6)"

lemma same_ip_scoped: "set_ipv6_scope_id nt a iface = Some c \<Longrightarrow> same_ip c a"
  by (auto simp: set_ipv6_scope_id_def set_scope_id_def Let_def same_ip_def split: if_splits address.splits)

lemma same_ip_refl: "same_ip a a"
  by (simp add: same_ip_def split: address.splits)

lemma scoped_multicast_family: "is_v4 (scoped_multicast nt a iface) = is_v4 a"
  by (cases a) (auto simp: scoped_multicast_def set_ipv6_scope_id_def set_scope_id_def Let_def split: option.splits)

lemma interface_address_found:
  assumes "mcast_start env v m0 = Inr (True, m)" and "mc_sending m0 \<or> mc_receiving m0"
  shows "mc_interface_address m = get_ip_addr_from_iface (me_net env) (mc_interface_name m0) (is_v4 (mc_multicast_address m0))"
    and "\<not> net_unspecified (me_net env) (mc_interface_address m)"
  using assms
  by (auto simp: mcast_start_def setup_send_def setup_receive_def start_receive_def pend_def comp_simps
      dest!: start_send_result split: if_splits sum.splits prod.splits)

lemma discovery_params_family:
  assumes "get_discovery_params st = Inr dp"
  shows "mc_multicast_address (new_discovery st dp) = scoped_multicast (st_net st) (dp_mcast_address dp) (dp_iface dp)"
    and "mc_receiving (new_discovery st dp) \<longleftrightarrow> dp_enable dp \<and> st_modem st"
  by (simp_all add: new_discovery_def new_PeriodicMcastSendRcv_def)

text \<open>The address of the discovery interface, once discovery is running, belongs to the family of the multicast address.\<close>

lemma discovery_interface_family:
  assumes "discovery_start st env d (new_discovery st dp) = Inr (Some pd)" and "dp_enable dp" and "st_modem st"
    and "net_unspecified (st_net st) new_address"
  shows "is_v4 (mc_interface_address (pd_mcast pd)) = is_v4 (dp_mcast_address dp)"
proof -
  let ?a = "get_ip_addr_from_iface (st_net st) (dp_iface dp) (is_v4 (dp_mcast_address dp))"
  from assms(1) have run: "mcast_start (discovery_sockets st) (discovery_virtuals env d) (new_discovery st dp) = Inr (True, pd_mcast pd)"
    by (auto simp: discovery_start_def res_simps split: if_splits prod.splits)
  have "mc_interface_address (pd_mcast pd) = ?a" "\<not> net_unspecified (st_net st) (mc_interface_address (pd_mcast pd))"
    using interface_address_found[OF run] assms(2,3)
    by (simp_all add: new_discovery_def new_PeriodicMcastSendRcv_def scoped_multicast_family)
  moreover from this assms(4) have "?a \<noteq> new_address" by auto
  then obtain ifas ifa where "offered (st_net st) (dp_iface dp) (is_v4 (dp_mcast_address dp)) ifa = Some ?a"
    by (rule get_ip_addr_found[OF refl])
  ultimately show ?thesis by (simp add: offered_family)
qed

lemma modem_address:
  assumes "modem_session_address st using_ipv6 = Inr (Some a)"
  shows "case st_address st ''session-address'' of
      Inr s \<Rightarrow> same_ip a s
    | Inl e \<Rightarrow> is_BadParameterName e \<and> a = (if using_ipv6 then V6 default_v6 else V4 default_v4)"
  using assms
  by (auto simp: modem_session_address_def Let_def same_ip_refl dest: same_ip_scoped split: sum.splits if_splits)

lemma router_address:
  assumes "router_session_address st = Inr (Some c)"
  shows "\<exists>s. st_address st ''session-address'' = Inr s \<and> same_ip c s"
  using assms by (auto simp: router_session_address_def same_ip_refl res_simps dest: same_ip_scoped split: if_splits)


section \<open>How start-up fails\<close>

text \<open>A parameter that is missing never makes an exception escape: the caller gets the null pointer.\<close>

lemma no_parameter_error_escapes: "DlepInit st = Inl e \<Longrightarrow> \<not> is_BadParameterName e"
  by (auto simp: DlepInit_def initialize_def try_catch_def split: sum.splits if_splits)

text \<open>
  Any other exception does: that of a configuration that cannot be loaded, and that of a
  session port that cannot be bound.
\<close>

lemma config_error_escapes:
  assumes "cp_string (st_params st) ''protocol-config-schema'' = Inr schema"
    and "cp_string (st_params st) ''protocol-config-file'' = Inr config_file"
    and "st_xml_load st schema config_file = Inl err"
  shows "initialize st = Inl (BadProtocolConfig err)"
  using assms by (simp add: initialize_def initialize_body_def try_catch_def load_protocol_config_def)

lemma bind_error_escapes:
  assumes "st_modem st" and "cp_unsigned (st_params st) ''session-port'' = Inr port"
    and "st_address st ''session-address'' = Inr (V4 a)" and "\<not> st_acceptor st (V4 a) (ucast port)"
  shows "start_dlep st dp = Inl (System_Error ''bind'')"
  using assms by (simp add: start_dlep_def modem_session_address_def)

text \<open>A session address that is a global IPv6 address is refused on both sides, whatever the interfaces are.\<close>

lemma global_ipv6_refused:
  assumes "st_address st ''session-address'' = Inr (V6 a)"
    and "\<not> net_link_local (st_net st) a" and "\<not> net_multicast_link_local (st_net st) a"
    and "st_modem st \<or> \<not> dp_enable dp"
  shows "start_dlep st dp \<noteq> Inr (Some actions)"
  using assms
  by (auto simp: start_dlep_def modem_session_address_def router_session_address_def set_ipv6_scope_id_def
      set_scope_id_def Let_def res_simps split: if_splits option.splits)

end
