(* ===== verification/StartWitnesses.thy ===== *)
theory StartWitnesses
  imports DiscoveryWitnesses ConfigLoaded DlepStart
begin

text \<open>The properties of start-up instantiated at a modem with one interface and a small configuration.\<close>

definition ex_net :: net where
  "ex_net = \<lparr>net_ifaddrs = Some [\<lparr>ifa_name = ''lo'', ifa_addr = Some (Sockaddr_in [127, 0, 0, 1])\<rparr>,
       \<lparr>ifa_name = ''eth0'', ifa_addr = None\<rparr>, \<lparr>ifa_name = ''eth0'', ifa_addr = Some (Sockaddr_in [10, 0, 0, 1])\<rparr>],
     net_index = (\<lambda>_. 2), net_in6_linklocal = (\<lambda>_. False), net_link_local = (\<lambda>_. False),
     net_multicast_link_local = (\<lambda>_. False), net_unspecified = (\<lambda>a. a = new_address)\<rparr>"

definition ex_sockets :: mcast_env where
  "ex_sockets = \<lparr>me_net = ex_net, me_receive_op = (\<lambda>_. True), me_send_op = (\<lambda>_. True), me_local_port = 40000\<rparr>"

definition ex_start_document :: xml_node where
  "ex_start_document = XmlNode ''protocol_config'' ''''
     [XmlNode ''version'' '''' [leaf ''major'' ''1'', leaf ''minor'' ''0''],
      XmlNode ''signal_prefix'' ''DLEP'' [leaf ''text'' ''DLEP''],
      XmlNode ''field_sizes'' '''' (map (\<lambda>s. leaf s ''2'') size_names),
      XmlNode ''module'' ''''
        [leaf ''name'' ''core'',
         XmlNode ''data_item'' '''' [leaf ''name'' ''Status'', leaf ''id'' ''1'', leaf ''type'' ''u8_string''],
         XmlNode ''data_item'' '''' [leaf ''name'' ''Latency'', leaf ''id'' ''16'', leaf ''type'' ''u64'', leaf ''metric'' ''true''],
         XmlNode ''signal'' '''' [leaf ''name'' ''Peer_Discovery'', leaf ''id'' ''1'', leaf ''message'' ''false'',
           leaf ''sender'' ''router'']]]"

definition ex_start :: start_env where
  "ex_start = \<lparr>st_session = (ex_env 100)\<lparr>env_params := \<lparr>cp_bool = (\<lambda>_. Inr True), cp_unsigned = (\<lambda>_. Inr 854),
       cp_string = (\<lambda>_. Inr ''eth0'')\<rparr>\<rparr>,
     st_xml_load = (\<lambda>_ _. Inr ex_start_document),
     st_address = (\<lambda>s. if s = ''session-address'' then Inl (BadParameterName s) else Inr (V4 (AddressV4 [224, 0, 0, 117]))),
     st_unsigneds = (\<lambda>_. Inr [1, 2]), st_net = ex_net, st_discovery_sockets = ex_sockets, st_advert_sockets = ex_sockets,
     st_offer_op = (\<lambda>_. True), st_acceptor = (\<lambda>_ _. True), st_resolve = (\<lambda>_ _. True), st_serialize = ex_serialize,
     st_parse = ex_parse, st_to_string = (\<lambda>_. ''''), st_log_file = (\<lambda>_. True)\<rparr>"

lemma ex_starts:
  "case initialize ex_start of
     Inr (Some sd) \<Rightarrow> dp_enable (sd_discovery_params sd) \<and> sd_advert sd \<noteq> None
       \<and> mc_interface_address (pd_mcast (sd_discovery sd)) = V4 (AddressV4 [10, 0, 0, 1])
       \<and> map fst (pd_metric_data_items (d_local_pdp (sd_node sd))) = [16]
   | _ \<Rightarrow> False"
  by code_simp

lemma ex_started:
  obtains sd where "initialize ex_start = Inr (Some sd)" "dp_enable (sd_discovery_params sd)" "sd_advert sd \<noteq> None"
    "mc_interface_address (pd_mcast (sd_discovery sd)) = V4 (AddressV4 [10, 0, 0, 1])"
  using ex_starts by (auto split: sum.splits option.splits)



section \<open>Periodic sending\<close>

definition ex_mcast :: "discovery_action list Mcast" where
  "ex_mcast = new_PeriodicMcastSendRcv ex_net ''eth0'' 854 (V4 (AddressV4 [224, 0, 0, 117])) 0 60 True False []"

definition ex_virtuals :: "discovery_action list virtuals" where
  "ex_virtuals = discovery_virtuals ex_router \<lparr>d_peers = [], d_local_pdp = ex_local, d_info_base = [], d_advert = None, d_actions = []\<rparr>"

lemma ex_mcast_starts:
  "case mcast_start ex_sockets ex_virtuals ex_mcast of
     Inr (True, m) \<Rightarrow> mc_sending m \<and> mc_pending m = [Async_send [68, 76, 69, 80, 0, 1, 0, 10, 0, 4, 0, 6, 60, 109, 111, 100, 101, 109]
         (V4 (AddressV4 [224, 0, 0, 117]), 854)]
   | _ \<Rightarrow> False"
  by code_simp

theorem mcast_goes_on_witness: "\<exists>m. mcast_run ex_sockets ex_virtuals [] True m \<and> sends m = 1"
proof -
  from ex_mcast_starts obtain m where run: "mcast_start ex_sockets ex_virtuals ex_mcast = Inr (True, m)" and "mc_sending m"
    by (auto split: sum.splits prod.splits bool.splits)
  have "mcast_run ex_sockets ex_virtuals [] True m" by (rule mcast_run.started[OF run[unfolded ex_mcast_def]])
  with mcast_goes_on[OF this] \<open>mc_sending m\<close> show ?thesis by auto
qed

end
