(* ===== verification/Table.thy ===== *)
theory Table
  imports Dlep_Prelude
begin

text \<open>
  The tables of text the example client prints (\<open>src/Table.cpp\<close>): rows of fields below a row
  of headings, filled field by field and printed with aligned columns, columns without any
  value left out. Writing a field beyond the last column is undefined in the code.
\<close>

section \<open>Operations\<close>

record Table =
  tb_rows :: "string list list"
  tb_current_row :: nat
  tb_current_column :: nat

definition new_Table :: "string list \<Rightarrow> Table" where
  "new_Table headings = \<lparr>tb_rows = [headings], tb_current_row = 1, tb_current_column = 0\<rparr>"

function grow_rows :: "nat \<Rightarrow> string list list \<Rightarrow> string list list" where
  "grow_rows current_row table =
     (if current_row \<ge> length table
      then grow_rows current_row (table @ [replicate (length (table ! 0)) ''''])
      else table)"
  by auto
termination
  by (relation "measure (\<lambda>(row, table). Suc row - length table)") auto

declare grow_rows.simps [simp del]

definition add_field :: "string \<Rightarrow> Table \<Rightarrow> Table res" where
  "add_field value t =
     (let table = grow_rows (tb_current_row t) (tb_rows t);
          row = table ! tb_current_row t
      in if tb_current_column t < length row
         then Inr (t\<lparr>tb_rows := table[tb_current_row t := row[tb_current_column t := value]],
                     tb_current_column := tb_current_column t + 1\<rparr>)
         else Inl (Undefined ''field beyond the last column''))"

text \<open>The position of a heading, the number of headings when there is none of that name.\<close>

fun find_heading :: "string \<Rightarrow> string list \<Rightarrow> nat" where
  "find_heading field_name [] = 0"
| "find_heading field_name (h # headings) = (if h = field_name then 0 else Suc (find_heading field_name headings))"

definition add_named_field :: "string \<Rightarrow> string \<Rightarrow> Table \<Rightarrow> Table res" where
  "add_named_field field_name value t =
     add_field value (t\<lparr>tb_current_column := find_heading field_name (tb_rows t ! 0)\<rparr>)"

definition finish_row :: "bool \<Rightarrow> Table \<Rightarrow> Table" where
  "finish_row force_empty_row t =
     (if tb_current_column t > 0 \<or> force_empty_row
      then t\<lparr>tb_current_row := tb_current_row t + 1, tb_current_column := 0\<rparr> else t)"

definition set_row_index :: "nat \<Rightarrow> Table \<Rightarrow> Table" where
  "set_row_index ri t = t\<lparr>tb_current_row := ri\<rparr>"

definition set_row_index_end :: "Table \<Rightarrow> Table" where
  "set_row_index_end t = t\<lparr>tb_current_row := length (tb_rows t)\<rparr>"

section \<open>Printing\<close>

definition update_widths :: "string list \<Rightarrow> nat list \<Rightarrow> nat list" where
  "update_widths row widths = fold (\<lambda>ci ws. ws[ci := max (ws ! ci) (length (row ! ci))]) [0..<length row] widths"

definition update_skips :: "string list \<Rightarrow> bool list \<Rightarrow> bool list" where
  "update_skips row skips = fold (\<lambda>ci ss. if length (row ! ci) > 0 then ss[ci := False] else ss) [0..<length row] skips"

definition column_widths :: "string list list \<Rightarrow> nat list" where
  "column_widths table = map Suc (fold update_widths table (replicate (length (table ! 0)) 0))"

definition skip_columns :: "string list list \<Rightarrow> bool list" where
  "skip_columns table = fold update_skips (tl table) (replicate (length (table ! 0)) True)"

text \<open>\<open>std::left << std::setw(w) << s\<close>\<close>

definition left_setw :: "nat \<Rightarrow> string \<Rightarrow> string" where
  "left_setw w s = s @ replicate (w - length s) (CHR '' '')"

definition print_row :: "nat list \<Rightarrow> bool list \<Rightarrow> string list \<Rightarrow> string" where
  "print_row widths skips row =
     concat (map (\<lambda>ci. if \<not> skips ! ci then left_setw (widths ! ci) (row ! ci) else '''') [0..<length row])"

definition print_table :: "Table \<Rightarrow> string list" where
  "print_table t = map (print_row (column_widths (tb_rows t)) (skip_columns (tb_rows t))) (tb_rows t)"

section \<open>Well-formed tables\<close>

definition width :: "Table \<Rightarrow> nat" where
  "width t = length (tb_rows t ! 0)"

definition rows_ok :: "Table \<Rightarrow> bool" where
  "rows_ok t \<longleftrightarrow> tb_rows t \<noteq> [] \<and> (\<forall>row\<in>set (tb_rows t). length row = width t)"

lemma grow_rows_append:
  "\<exists>k. grow_rows r table = table @ replicate k (replicate (length (table ! 0)) '''') \<and> (table \<noteq> [] \<longrightarrow> r < length (grow_rows r table))"
proof (induction r table rule: grow_rows.induct)
  case (1 r table)
  show ?case
  proof (cases "length table \<le> r")
    case True
    let ?blank = "replicate (length (table ! 0)) ''''"
    have first: "(table @ [?blank]) ! 0 = table ! 0" if "table \<noteq> []" using that by (simp add: nth_append)
    from 1[OF True] obtain k where k: "grow_rows r (table @ [?blank]) = (table @ [?blank]) @ replicate k (replicate (length ((table @ [?blank]) ! 0)) '''')"
      "r < length (grow_rows r (table @ [?blank]))" by auto
    have same: "length ((table @ [?blank]) ! 0) = length (table ! 0)" by (cases table) simp_all
    from k True same have "grow_rows r table = table @ replicate (Suc k) ?blank" "r < length (grow_rows r table)"
      by (simp_all add: grow_rows.simps[of r table])
    then show ?thesis by blast
  next
    case False
    then show ?thesis by (intro exI[of _ 0]) (simp add: grow_rows.simps[of r table])
  qed
qed

lemma rows_ok_grow:
  assumes "rows_ok t"
  shows "\<forall>row\<in>set (grow_rows r (tb_rows t)). length row = width t"
    and "grow_rows r (tb_rows t) ! 0 = tb_rows t ! 0" and "r < length (grow_rows r (tb_rows t))"
proof -
  from grow_rows_append obtain k where
    g: "grow_rows r (tb_rows t) = tb_rows t @ replicate k (replicate (width t) '''')"
    and r: "tb_rows t \<noteq> [] \<longrightarrow> r < length (grow_rows r (tb_rows t))" unfolding width_def by blast
  from r assms show "r < length (grow_rows r (tb_rows t))" by (simp add: rows_ok_def)
  show "\<forall>row\<in>set (grow_rows r (tb_rows t)). length row = width t"
    using assms unfolding g by (auto simp: rows_ok_def)
  show "grow_rows r (tb_rows t) ! 0 = tb_rows t ! 0"
    using assms unfolding g by (simp add: rows_ok_def nth_append)
qed

lemma rows_ok_new [simp]: "rows_ok (new_Table headings)" "width (new_Table headings) = length headings"
  by (simp_all add: rows_ok_def new_Table_def width_def)

text \<open>On a well-formed table a field is written unless there is no column left, and the table stays well-formed.\<close>

lemma add_field_ok:
  assumes "rows_ok t" and "tb_current_row t \<noteq> 0" and "tb_current_column t < width t"
  obtains t' where "add_field value t = Inr t'" and "rows_ok t'" and "tb_rows t' ! 0 = tb_rows t ! 0"
    and "tb_current_row t' = tb_current_row t" and "tb_current_column t' = tb_current_column t + 1"
    and "tb_rows t' ! tb_current_row t ! tb_current_column t = value"
proof -
  let ?g = "grow_rows (tb_current_row t) (tb_rows t)"
  let ?row = "?g ! tb_current_row t"
  let ?t = "t\<lparr>tb_rows := ?g[tb_current_row t := ?row[tb_current_column t := value]], tb_current_column := tb_current_column t + 1\<rparr>"
  note grown = rows_ok_grow[OF assms(1), of "tb_current_row t"]
  then have len: "length ?row = width t" by simp
  with assms(3) have "add_field value t = Inr ?t" by (simp add: add_field_def Let_def)
  moreover have first: "tb_rows ?t ! 0 = tb_rows t ! 0" using grown assms(2) by simp
  moreover have "rows_ok ?t"
  proof -
    have "length row = width t" if "row \<in> set (tb_rows ?t)" for row
      using that grown(1) len set_update_subset_insert[of ?g "tb_current_row t" "?row[tb_current_column t := value]"] by auto
    moreover have "width ?t = width t" using first by (simp add: width_def)
    ultimately show ?thesis using grown(3) by (auto simp: rows_ok_def)
  qed
  ultimately show ?thesis using grown(3) len assms(3) by (intro that[of ?t]) simp_all
qed

lemma find_heading_less: "field_name \<in> set headings \<Longrightarrow> find_heading field_name headings < length headings"
  by (induction headings) auto

section \<open>Alignment\<close>

lemma update_widths_eq:
  assumes "length row = length widths"
  shows "update_widths row widths = map2 (\<lambda>w s. max w (length s)) widths row"
proof -
  have "length (fold (\<lambda>ci ws. ws[ci := max (ws ! ci) (length (row ! ci))]) [0..<n] widths) = length widths
      \<and> (\<forall>i < length widths. fold (\<lambda>ci ws. ws[ci := max (ws ! ci) (length (row ! ci))]) [0..<n] widths ! i
           = (if i < n then max (widths ! i) (length (row ! i)) else widths ! i))" if "n \<le> length row" for n
    using that by (induction n) (auto simp: nth_list_update assms)
  from this[of "length row"] assms show ?thesis
    by (intro nth_equalityI) (auto simp: update_widths_def)
qed

lemma fold_update_widths:
  assumes "\<forall>row\<in>set rows. length row = length ws"
  shows "length (fold update_widths rows ws) = length ws
    \<and> (\<forall>row\<in>set rows. \<forall>i < length ws. length (row ! i) \<le> fold update_widths rows ws ! i)
    \<and> (\<forall>i < length ws. ws ! i \<le> fold update_widths rows ws ! i)"
  using assms
proof (induction rows arbitrary: ws)
  case (Cons row rows)
  let ?ws = "map2 (\<lambda>w s. max w (length s)) ws row"
  from Cons.prems have eq: "update_widths row ws = ?ws" "length ?ws = length ws"
    by (simp_all add: update_widths_eq)
  with Cons.prems have IH: "length (fold update_widths rows ?ws) = length ws"
    "\<And>r i. r \<in> set rows \<Longrightarrow> i < length ws \<Longrightarrow> length (r ! i) \<le> fold update_widths rows ?ws ! i"
    "\<And>i. i < length ws \<Longrightarrow> max (ws ! i) (length (row ! i)) \<le> fold update_widths rows ?ws ! i"
    using Cons.IH[of ?ws] by auto
  then show ?case using eq(1) by fastforce
qed simp

text \<open>Every field is shorter than its column.\<close>

lemma field_fits:
  assumes "rows_ok t" and "row \<in> set (tb_rows t)" and "i < width t"
  shows "length (row ! i) < column_widths (tb_rows t) ! i"
proof -
  have "\<forall>row\<in>set (tb_rows t). length row = length (replicate (width t) (0 :: nat))"
    using assms(1) by (simp add: rows_ok_def)
  from fold_update_widths[OF this] assms(2,3) show ?thesis
    by (auto simp: column_widths_def width_def[symmetric] less_Suc_eq_le)
qed

lemma update_skips_eq:
  assumes "length row = length skips"
  shows "update_skips row skips = map2 (\<lambda>b s. b \<and> s = '''') skips row"
proof -
  have "length (fold (\<lambda>ci ss. if length (row ! ci) > 0 then ss[ci := False] else ss) [0..<n] skips) = length skips
      \<and> (\<forall>i < length skips. fold (\<lambda>ci ss. if length (row ! ci) > 0 then ss[ci := False] else ss) [0..<n] skips ! i
           = (skips ! i \<and> (i < n \<longrightarrow> row ! i = '''')))" if "n \<le> length row" for n
    using that by (induction n) (auto simp: nth_list_update assms less_Suc_eq)
  from this[of "length row"] assms show ?thesis
    by (intro nth_equalityI) (auto simp: update_skips_def)
qed

lemma fold_update_skips:
  assumes "\<forall>row\<in>set rows. length row = length ss"
  shows "length (fold update_skips rows ss) = length ss
    \<and> (\<forall>i < length ss. fold update_skips rows ss ! i \<longleftrightarrow> ss ! i \<and> (\<forall>row\<in>set rows. row ! i = ''''))"
  using assms
proof (induction rows arbitrary: ss)
  case (Cons row rows)
  let ?ss = "map2 (\<lambda>b s. b \<and> s = '''') ss row"
  from Cons.prems have "update_skips row ss = ?ss" "length ?ss = length ss" by (simp_all add: update_skips_eq)
  with Cons.prems Cons.IH[of ?ss] show ?case by auto
qed simp

lemma skipped_empty:
  assumes "rows_ok t" and "i < width t"
  shows "skip_columns (tb_rows t) ! i \<longleftrightarrow> (\<forall>row\<in>set (tl (tb_rows t)). row ! i = '''')"
proof -
  have "\<forall>row\<in>set (tl (tb_rows t)). length row = length (replicate (width t) True)"
    using assms(1) by (auto simp: rows_ok_def dest: list.set_sel(2))
  from fold_update_skips[OF this] assms(2) show ?thesis by (simp add: skip_columns_def width_def[symmetric])
qed

text \<open>Where a column begins: after the columns before it that are printed.\<close>

definition printed_width :: "Table \<Rightarrow> nat \<Rightarrow> nat" where
  "printed_width t ci = (if skip_columns (tb_rows t) ! ci then 0 else column_widths (tb_rows t) ! ci)"

definition column_start :: "Table \<Rightarrow> nat \<Rightarrow> nat" where
  "column_start t ci = sum_list (map (printed_width t) [0..<ci])"

text \<open>
  tables are printed aligned. Every line has the same length, each column begins at the
  same place in every line and shows the whole field followed by at least one space, and
  exactly the columns that have no value below their heading are left out.
\<close>

lemma print_aligned:
  assumes "rows_ok t" and "r < length (tb_rows t)" and "ci < width t"
  shows "length (print_table t ! r) = column_start t (width t)
    \<and> (if \<forall>row\<in>set (tl (tb_rows t)). row ! ci = '''' then column_start t (ci + 1) = column_start t ci
       else column_start t (ci + 1) > column_start t ci + length (tb_rows t ! r ! ci)
         \<and> take (printed_width t ci) (drop (column_start t ci) (print_table t ! r))
             = left_setw (printed_width t ci) (tb_rows t ! r ! ci))"
proof -
  let ?row = "tb_rows t ! r"
  let ?f = "\<lambda>ci. if \<not> skip_columns (tb_rows t) ! ci then left_setw (column_widths (tb_rows t) ! ci) (?row ! ci) else ''''"
  have row: "?row \<in> set (tb_rows t)" "length ?row = width t" using assms(1,2) by (auto simp: rows_ok_def)
  have line: "print_table t ! r = concat (map ?f [0..<width t])"
    using assms(2) row(2) by (simp add: print_table_def print_row_def)
  have len: "length (?f i) = printed_width t i" if "i < width t" for i
    using field_fits[OF assms(1) row(1) that] by (simp add: left_setw_def printed_width_def)
  have start: "length (concat (map ?f [0..<n])) = column_start t n" if "n \<le> width t" for n
    unfolding column_start_def length_concat map_map
    by (rule arg_cong[where f = sum_list], rule map_cong) (use that len in auto)
  have "[0..<width t] = [0..<ci] @ ci # [Suc ci..<width t]"
    using assms(3) by (metis less_imp_le_nat upt_add_eq_append upt_conv_Cons le_add_diff_inverse zero_le)
  then have "print_table t ! r = concat (map ?f [0..<ci]) @ ?f ci @ concat (map ?f [Suc ci..<width t])"
    unfolding line by simp
  then have "take (printed_width t ci) (drop (column_start t ci) (print_table t ! r)) = ?f ci"
    using start[of ci] len[OF assms(3)] assms(3) by simp
  then show ?thesis
    using start[of "width t"] line field_fits[OF assms(1) row(1) assms(3)] skipped_empty[OF assms(1,3)]
    by (auto simp: column_start_def printed_width_def)
qed

end
