(* ===== verification/ExampleClient.thy ===== *)
theory ExampleClient
  imports Table DlepStart DataItemParse
begin

text \<open>
  The example client (\<open>src/ExampleDlepClientImpl.cpp\<close>): its database of configuration
  parameters, filled from the command line, from configuration files and from defaults, the
  typed \<open>get_config_parameter\<close> the library calls, and the callbacks with what they print.
  libxml2 and Boost's conversions of numbers, booleans and addresses are the parameter
  \<open>client_env\<close>. The escape sequences for colours and the messages about errors are left out.
\<close>

section \<open>Data\<close>

datatype ConfigValue =
    CV_bool bool
  | CV_unsigned u32
  | CV_string string
  | CV_address address
  | CV_unsigneds "u32 list"

datatype ParameterType =
    UnsignedInteger
  | String_type
  | IPAddress
  | Boolean
  | ConfigFile
  | ListOfUnsignedInteger

record ConfigParameterInfo =
  cpi_type :: ParameterType
  cpi_default_value :: string
  cpi_description :: string

record DlepClientImpl =
  cl_config_map :: "(string, ConfigValue) smap"
  cl_destination_responses :: "(DlepMac, string) smap"

text \<open>
  A conversion that throws is \<open>None\<close>. \<open>ce_parse_file\<close> is \<open>None\<close> for a file that is no XML
  document, \<open>Some None\<close> for an empty one; \<open>ce_list_string\<close> is the text of a node, \<open>None\<close> for the
  null pointer. \<open>ce_subscript_first\<close> is the order in which the compiler evaluates the two sides
  of \<open>config_map[name] = convert(text)\<close>, which C++11 leaves open.
\<close>

record client_env =
  ce_unsigned :: "string \<Rightarrow> u32 option"
  ce_bool :: "string \<Rightarrow> bool option"
  ce_address :: "string \<Rightarrow> address option"
  ce_parse_file :: "string \<Rightarrow> xml_node option option"
  ce_list_string :: "xml_node \<Rightarrow> string option"
  ce_install_config :: string
  ce_address_text :: "address \<Rightarrow> string"
  ce_subscript_first :: bool

definition new_DlepClientImpl :: DlepClientImpl where
  "new_DlepClientImpl = \<lparr>cl_config_map = [], cl_destination_responses = []\<rparr>"

section \<open>The parameters\<close>

definition param_list :: "string \<Rightarrow> (string \<times> ConfigParameterInfo) list" where
  "param_list install_config =
     [(''ack-timeout'', \<lparr>cpi_type = UnsignedInteger, cpi_default_value = ''3'',
        cpi_description = ''Seconds to wait for ACK signals''\<rparr>),
      (''ack-probability'', \<lparr>cpi_type = UnsignedInteger, cpi_default_value = ''100'',
        cpi_description = ''Probability (%) of sending required ACK signals (for testing)''\<rparr>),
      (''config-file'', \<lparr>cpi_type = ConfigFile, cpi_default_value = '''',
        cpi_description = ''XML config file containing parameter settings''\<rparr>),
      (''destination-advert-enable'', \<lparr>cpi_type = Boolean, cpi_default_value = ''0'',
        cpi_description = ''Should the modem run the Destination Advertisement protocol?''\<rparr>),
      (''destination-advert-send-interval'', \<lparr>cpi_type = UnsignedInteger, cpi_default_value = ''5'',
        cpi_description = ''Time between sending Destination Advertisements''\<rparr>),
      (''destination-advert-mcast-address'', \<lparr>cpi_type = IPAddress, cpi_default_value = ''225.6.7.8'',
        cpi_description = ''address to send Destination Advertisements to''\<rparr>),
      (''destination-advert-port'', \<lparr>cpi_type = UnsignedInteger, cpi_default_value = ''33445'',
        cpi_description = ''UDP Port to send Destination Advertisements to''\<rparr>),
      (''destination-advert-hold-interval'', \<lparr>cpi_type = UnsignedInteger, cpi_default_value = ''0'',
        cpi_description = ''Time to wait for Destination Advertisement after destination up''\<rparr>),
      (''destination-advert-expire-count'', \<lparr>cpi_type = UnsignedInteger, cpi_default_value = ''0'',
        cpi_description = ''Time to keep Destination Advertisements''\<rparr>),
      (''destination-advert-rf-id'', \<lparr>cpi_type = ListOfUnsignedInteger, cpi_default_value = '''',
        cpi_description = ''RF ID of the local modem''\<rparr>),
      (''destination-advert-iface'', \<lparr>cpi_type = String_type, cpi_default_value = ''emane0'',
        cpi_description = ''Interface that the destination discovery protocol uses, rf interface''\<rparr>),
      (''discovery-iface'', \<lparr>cpi_type = String_type, cpi_default_value = ''eth0'',
        cpi_description = ''Interface that the router uses for the PeerDiscovery protocol''\<rparr>),
      (''discovery-interval'', \<lparr>cpi_type = UnsignedInteger, cpi_default_value = ''60'',
        cpi_description = ''Time between sending PeerDiscovery signals''\<rparr>),
      (''discovery-mcast-address'', \<lparr>cpi_type = IPAddress, cpi_default_value = ''224.0.0.117'',
        cpi_description = ''address to send PeerDiscovery signals to''\<rparr>),
      (''discovery-port'', \<lparr>cpi_type = UnsignedInteger, cpi_default_value = ''854'',
        cpi_description = ''UDP Port to send PeerDiscovery signals to''\<rparr>),
      (''discovery-ttl'', \<lparr>cpi_type = UnsignedInteger, cpi_default_value = ''255'',
        cpi_description = ''IP TTL to use on PeerDiscovery signals''\<rparr>),
      (''discovery-enable'', \<lparr>cpi_type = Boolean, cpi_default_value = ''1'',
        cpi_description = ''Should the router run the PeerDiscovery protocol?''\<rparr>),
      (''heartbeat-interval'', \<lparr>cpi_type = UnsignedInteger, cpi_default_value = ''60'',
        cpi_description = ''Time between sending Heartbeat signals''\<rparr>),
      (''heartbeat-threshold'', \<lparr>cpi_type = UnsignedInteger, cpi_default_value = ''4'',
        cpi_description = ''Number of missed Heartbeats to tolerate''\<rparr>),
      (''linkchar-autoreply'', \<lparr>cpi_type = Boolean, cpi_default_value = ''1'',
        cpi_description = ''Automatically send reply to linkchar requests?''\<rparr>),
      (''local-type'', \<lparr>cpi_type = String_type, cpi_default_value = ''modem'',
        cpi_description = ''Which DLEP role to play, modem or router?''\<rparr>),
      (''log-level'', \<lparr>cpi_type = UnsignedInteger, cpi_default_value = ''3'',
        cpi_description = ''1=most logging, 5=least''\<rparr>),
      (''log-file'', \<lparr>cpi_type = String_type, cpi_default_value = ''dlep.log'',
        cpi_description = ''File to write log messages to''\<rparr>),
      (''peer-type'', \<lparr>cpi_type = String_type, cpi_default_value = '''',
        cpi_description = ''Peer Type data item value''\<rparr>),
      (''peer-flags'', \<lparr>cpi_type = UnsignedInteger, cpi_default_value = ''0'',
        cpi_description = ''Flags field value of Peer Type data item''\<rparr>),
      (''protocol-config-file'', \<lparr>cpi_type = String_type, cpi_default_value = install_config @ ''/dlep-rfc-8175.xml'',
        cpi_description = ''XML file containing DLEP protocol configuration''\<rparr>),
      (''protocol-config-schema'', \<lparr>cpi_type = String_type, cpi_default_value = install_config @ ''/protocol-config.xsd'',
        cpi_description = ''XML schema file for protocol-config-file''\<rparr>),
      (''send-tries'', \<lparr>cpi_type = UnsignedInteger, cpi_default_value = ''3'',
        cpi_description = ''Number of times to send a signal before giving up''\<rparr>),
      (''session-address'', \<lparr>cpi_type = IPAddress, cpi_default_value = '''',
        cpi_description = ''IP address that the modem listens on for session connections''\<rparr>),
      (''session-iface'', \<lparr>cpi_type = String_type, cpi_default_value = '''',
        cpi_description = ''Interface that the router uses for session connections''\<rparr>),
      (''session-port'', \<lparr>cpi_type = UnsignedInteger, cpi_default_value = ''854'',
        cpi_description = ''TCP port number that the modem listens on for session connections''\<rparr>),
      (''session-ttl'', \<lparr>cpi_type = UnsignedInteger, cpi_default_value = ''255'',
        cpi_description = ''IP TTL to use on session connections''\<rparr>)]"

definition param_info :: "client_env \<Rightarrow> (string, ConfigParameterInfo) smap" where
  "param_info env = fold (\<lambda>(name, info). smap_insert name info) (param_list (ce_install_config env)) []"

section \<open>Reading the database\<close>

definition get_config_value :: "DlepClientImpl \<Rightarrow> string \<Rightarrow> ConfigValue res" where
  "get_config_value cl parameter_name =
     (case smap_find (cl_config_map cl) parameter_name of
        Some v \<Rightarrow> Inr v
      | None \<Rightarrow> Inl (BadParameterName parameter_name))"

text \<open>\<open>boost::get\<close> of an alternative the value does not hold.\<close>

abbreviation bad_get :: "'a res" where
  "bad_get \<equiv> Inl (Logic_Error ''boost::bad_get: failed value get using boost::get'')"

definition get_config_bool :: "DlepClientImpl \<Rightarrow> string \<Rightarrow> bool res" where
  "get_config_bool cl name = rbind (get_config_value cl name) (\<lambda>v. case v of CV_bool b \<Rightarrow> Inr b | _ \<Rightarrow> bad_get)"

definition get_config_unsigned :: "DlepClientImpl \<Rightarrow> string \<Rightarrow> u32 res" where
  "get_config_unsigned cl name = rbind (get_config_value cl name) (\<lambda>v. case v of CV_unsigned n \<Rightarrow> Inr n | _ \<Rightarrow> bad_get)"

definition get_config_string :: "DlepClientImpl \<Rightarrow> string \<Rightarrow> string res" where
  "get_config_string cl name = rbind (get_config_value cl name) (\<lambda>v. case v of CV_string s \<Rightarrow> Inr s | _ \<Rightarrow> bad_get)"

definition get_config_address :: "DlepClientImpl \<Rightarrow> string \<Rightarrow> address res" where
  "get_config_address cl name = rbind (get_config_value cl name) (\<lambda>v. case v of CV_address a \<Rightarrow> Inr a | _ \<Rightarrow> bad_get)"

definition get_config_unsigneds :: "DlepClientImpl \<Rightarrow> string \<Rightarrow> u32 list res" where
  "get_config_unsigneds cl name = rbind (get_config_value cl name) (\<lambda>v. case v of CV_unsigneds ns \<Rightarrow> Inr ns | _ \<Rightarrow> bad_get)"

definition client_params :: "DlepClientImpl \<Rightarrow> client_config" where
  "client_params cl = \<lparr>cp_bool = get_config_bool cl, cp_unsigned = get_config_unsigned cl, cp_string = get_config_string cl\<rparr>"

section \<open>Filling the database\<close>

text \<open>\<open>ss >> ui\<close> for a 32-bit integer: numbers that need more bits fail.\<close>

definition fit_u32 :: "string \<Rightarrow> u64 \<Rightarrow> u32 option" where
  "fit_u32 t v = (if 2 ^ 32 \<le> uint (if fst (skip_sign t) then - v else v) then None else Some (ucast v))"

definition read_u32 :: "istream \<Rightarrow> u32 option \<times> istream" where
  "read_u32 ss =
     (case read_u64 ss of
        (None, ss1) \<Rightarrow> (None, ss1)
      | (Some v, ss1) \<Rightarrow>
          (case fit_u32 (dropWhile is_space (is_text ss)) v of
             None \<Rightarrow> (None, ss1\<lparr>is_fail := True\<rparr>)
           | Some n \<Rightarrow> (Some n, ss1)))"

lemma read_u32_shorter: "read_u32 ss = (Some n, ss') \<Longrightarrow> left_over ss' < left_over ss"
  by (auto simp: read_u32_def dest: read_u64_shorter split: prod.splits option.splits)

function unsigneds_loop :: "istream \<Rightarrow> u32 list \<times> istream" where
  "unsigneds_loop ss =
     (case read_u32 ss of
        (None, ss1) \<Rightarrow> ([], ss1)
      | (Some n, ss1) \<Rightarrow> (case unsigneds_loop (skip_char CHR '','' ss1) of (ns, ss2) \<Rightarrow> (n # ns, ss2)))"
  by auto
termination
  by (relation "measure left_over")
    (auto dest!: sym [of "(Some _, _)"] read_u32_shorter intro: le_less_trans [OF left_over_skip_char])

declare unsigneds_loop.simps [simp del]

definition parse_unsigneds :: "string \<Rightarrow> u32 list option" where
  "parse_unsigneds param_value =
     (case unsigneds_loop (open_stream param_value) of (ns, ss) \<Rightarrow> if is_eof ss then Some ns else None)"

type_synonym client_step = "DlepClientImpl \<Rightarrow> bool res \<times> DlepClientImpl"

text \<open>
  \<open>config_map[name] = value\<close>. When the conversion throws after \<open>operator[]\<close> ran, a name without
  a value is left with the default of the variant, the boolean \<open>false\<close>.
\<close>

definition set_value :: "client_env \<Rightarrow> string \<Rightarrow> ConfigValue option \<Rightarrow> client_step" where
  "set_value env name value cl =
     (case value of
        None \<Rightarrow>
          (Inr False,
           if ce_subscript_first env \<and> smap_find (cl_config_map cl) name = None
           then cl\<lparr>cl_config_map := smap_insert name (CV_bool False) (cl_config_map cl)\<rparr> else cl)
      | Some v \<Rightarrow> (Inr True, cl\<lparr>cl_config_map := smap_insert name v (cl_config_map cl)\<rparr>))"

text \<open>
  The body of \<open>parse_parameter\<close>, given how a configuration file is read. The handler turns
  every exception into a failure; what was stored before stays.
\<close>

definition parse_one :: "client_env \<Rightarrow> (string \<Rightarrow> client_step) \<Rightarrow> string \<Rightarrow> string \<Rightarrow> client_step" where
  "parse_one env parse_file param_name param_value cl =
     (case smap_find (param_info env) param_name of
        None \<Rightarrow> (Inr False, cl)
      | Some cpi \<Rightarrow>
          (case cpi_type cpi of
             UnsignedInteger \<Rightarrow> set_value env param_name (map_option CV_unsigned (ce_unsigned env param_value)) cl
           | Boolean \<Rightarrow> set_value env param_name (map_option CV_bool (ce_bool env param_value)) cl
           | String_type \<Rightarrow> set_value env param_name (Some (CV_string param_value)) cl
           | IPAddress \<Rightarrow> set_value env param_name (map_option CV_address (ce_address env param_value)) cl
           | ListOfUnsignedInteger \<Rightarrow> (case parse_unsigneds param_value of
                  None \<Rightarrow> (Inr False, cl)
                | Some vui \<Rightarrow> set_value env param_name (Some (CV_unsigneds vui)) cl)
           | ConfigFile \<Rightarrow>
               (case parse_file param_value cl of
                  (Inl e, cl1) \<Rightarrow> (if is_std_exception e then Inr False else Inl e, cl1)
                | (Inr ok, cl1) \<Rightarrow> (Inr ok, cl1))))"

fun params_loop :: "client_env \<Rightarrow> (string \<Rightarrow> string \<Rightarrow> client_step) \<Rightarrow> xml_node list \<Rightarrow> bool \<Rightarrow> client_step" where
  "params_loop env parse_param [] ok cl = (Inr ok, cl)"
| "params_loop env parse_param (n # nodes) ok cl =
     (if node_name n = ''text'' \<or> node_name n = ''comment'' then params_loop env parse_param nodes ok cl
      else case ce_list_string env n of
        None \<Rightarrow> (Inl (Logic_Error ''basic_string: construction from null is not valid''), cl)
      | Some param_value \<Rightarrow>
          (case parse_param (node_name n) param_value cl of
             (Inl e, cl1) \<Rightarrow> (Inl e, cl1)
           | (Inr b, cl1) \<Rightarrow> params_loop env parse_param nodes (if b then ok else False) cl1))"

fun sections_loop :: "client_env \<Rightarrow> (string \<Rightarrow> string \<Rightarrow> client_step) \<Rightarrow> xml_node list \<Rightarrow> bool \<Rightarrow> client_step" where
  "sections_loop env parse_param [] ok cl = (Inr ok, cl)"
| "sections_loop env parse_param (n # nodes) ok cl =
     (if node_name n = ''params''
      then (case params_loop env parse_param (node_children n) ok cl of
              (Inl e, cl1) \<Rightarrow> (Inl e, cl1)
            | (Inr ok1, cl1) \<Rightarrow> sections_loop env parse_param nodes ok1 cl1)
      else sections_loop env parse_param nodes ok cl)"

definition parse_config_file :: "client_env \<Rightarrow> (string \<Rightarrow> string \<Rightarrow> client_step) \<Rightarrow> string \<Rightarrow> client_step" where
  "parse_config_file env parse_param config_filename cl =
     (case ce_parse_file env config_filename of
        None \<Rightarrow> (Inr False, cl)
      | Some None \<Rightarrow> (Inr False, cl)
      | Some (Some root) \<Rightarrow>
          if node_name root \<noteq> ''config'' then (Inr False, cl)
          else sections_loop env parse_param (node_children root) True cl)"

text \<open>
  \<open>parse_parameter\<close> and \<open>parse_config_file\<close> call each other; the fuel bounds how deep files
  refer to files, and a reference beyond it is a \<open>Hang\<close>.
\<close>

primrec parse_parameter :: "client_env \<Rightarrow> nat \<Rightarrow> string \<Rightarrow> string \<Rightarrow> client_step" where
  "parse_parameter env 0 = parse_one env (\<lambda>_ cl. (Inl Hang, cl))"
| "parse_parameter env (Suc n) = parse_one env (parse_config_file env (parse_parameter env n))"

text \<open>The command line without the name of the program.\<close>

fun parse_args_loop :: "(string \<Rightarrow> string \<Rightarrow> client_step) \<Rightarrow> string list \<Rightarrow> bool \<Rightarrow> client_step" where
  "parse_args_loop parse_param (name # value # args) ok cl =
     (case parse_param name value cl of
        (Inl e, cl1) \<Rightarrow> (Inl e, cl1)
      | (Inr b, cl1) \<Rightarrow> parse_args_loop parse_param args (if b then ok else False) cl1)"
| "parse_args_loop parse_param [name] ok cl = (Inr False, cl)"
| "parse_args_loop parse_param [] ok cl = (Inr ok, cl)"

definition parse_args :: "client_env \<Rightarrow> nat \<Rightarrow> string list \<Rightarrow> client_step" where
  "parse_args env n args cl = parse_args_loop (parse_parameter env n) args True cl"

fun defaults_loop ::
    "(string \<Rightarrow> string \<Rightarrow> client_step) \<Rightarrow> (string \<times> ConfigParameterInfo) list \<Rightarrow> client_step" where
  "defaults_loop parse_param [] cl = (Inr True, cl)"
| "defaults_loop parse_param ((name, info) # infos) cl =
     (if smap_find (cl_config_map cl) name = None \<and> length (cpi_default_value info) > 0
      then (case parse_param name (cpi_default_value info) cl of
              (Inl e, cl1) \<Rightarrow> (Inl e, cl1)
            | (Inr b, cl1) \<Rightarrow> if \<not> b then (Inr False, cl1) else defaults_loop parse_param infos cl1)
      else defaults_loop parse_param infos cl)"

definition load_defaults :: "client_env \<Rightarrow> nat \<Rightarrow> client_step" where
  "load_defaults env n cl = defaults_loop (parse_parameter env n) (param_info env) cl"

section \<open>Printing\<close>

definition unsigneds_text :: "u32 list \<Rightarrow> string" where
  "unsigneds_text ns = concat (map (\<lambda>i. (if i = 0 then '''' else '','') @ to_string_word (ns ! i)) [0..<length ns])"

fun config_value_text :: "client_env \<Rightarrow> ConfigValue \<Rightarrow> string" where
  "config_value_text env (CV_unsigneds ns) = unsigneds_text ns"
| "config_value_text env (CV_bool b) = (if b then ''1'' else ''0'')"
| "config_value_text env (CV_unsigned n) = to_string_word n"
| "config_value_text env (CV_string s) = s"
| "config_value_text env (CV_address a) = ce_address_text env a"

definition print_config :: "client_env \<Rightarrow> DlepClientImpl \<Rightarrow> string list" where
  "print_config env cl = map (\<lambda>(name, v). name @ '' = '' @ config_value_text env v) (cl_config_map cl)"

fun usage_rows :: "(string \<times> ConfigParameterInfo) list \<Rightarrow> Table \<Rightarrow> Table res" where
  "usage_rows [] t = Inr t"
| "usage_rows ((name, info) # infos) t =
     rbind (add_field name t) (\<lambda>t.
     rbind (add_field (cpi_default_value info) t) (\<lambda>t.
     rbind (add_field (cpi_description info) t) (\<lambda>t.
     usage_rows infos (finish_row False t))))"

definition usage :: "client_env \<Rightarrow> string list res" where
  "usage env =
     rbind (usage_rows (param_info env) (new_Table [''Parameter name'', ''Default'', ''Description''])) (\<lambda>t.
     Inr (print_table t))"

section \<open>Callbacks\<close>

definition set_destination_response :: "DlepMac \<Rightarrow> string \<Rightarrow> DlepClientImpl \<Rightarrow> DlepClientImpl" where
  "set_destination_response mac status_code cl =
     cl\<lparr>cl_destination_responses := smap_insert mac status_code (cl_destination_responses cl)\<rparr>"

definition client_peer_init :: "string \<Rightarrow> DataItem list \<Rightarrow> bool \<times> DataItem list" where
  "client_peer_init peer_id items = (False, items)"

definition client_destination_up :: "DlepClientImpl \<Rightarrow> string \<Rightarrow> DlepMac \<Rightarrow> DataItem list \<Rightarrow> string" where
  "client_destination_up cl peer_id mac items =
     (case smap_find (cl_destination_responses cl) mac of Some status \<Rightarrow> status | None \<Rightarrow> ''Success'')"

text \<open>What the callbacks print, line by line. The extension ids are cast to \<open>int\<close>.\<close>

fun lines_of :: "('a \<Rightarrow> string res) \<Rightarrow> 'a list \<Rightarrow> string list res" where
  "lines_of f [] = Inr []"
| "lines_of f (x # xs) = rbind (f x) (\<lambda>l. rbind (lines_of f xs) (\<lambda>ls. Inr (l # ls)))"

definition print_data_items :: "ip_text \<Rightarrow> ProtocolConfig \<Rightarrow> string \<Rightarrow> DataItem list \<Rightarrow> string list res" where
  "print_data_items ip cfg msg items =
     rbind (lines_of (data_item_to_string ip cfg None) items) (\<lambda>ls.
     Inr ((if items \<noteq> [] \<and> length msg > 0 then [msg] else []) @ ls))"

definition to_string_int :: "u32 \<Rightarrow> string" where
  "to_string_int x = (if sint x < 0 then ''-'' @ to_string_nat (nat (- sint x)) else to_string_nat (nat (sint x)))"

definition extensions_line :: "u32 list \<Rightarrow> string list" where
  "extensions_line extensions =
     (if extensions = [] then []
      else [''extensions = '' @ concat (map (\<lambda>i. (if i = 0 then '''' else '','') @ to_string_int (extensions ! i)) [0..<length extensions])])"

definition print_peer_info :: "ip_text \<Rightarrow> ProtocolConfig \<Rightarrow> PeerInfo \<Rightarrow> string list res" where
  "print_peer_info ip cfg info =
     rbind (print_data_items ip cfg ''default metrics:'' (pi_data_items info)) (\<lambda>metrics.
     Inr ([''peer id = '' @ pi_peer_id info, ''type = '' @ pi_peer_type info,
           ''heartbeat interval = '' @ to_string_word (pi_heartbeat_interval info)]
          @ extensions_line (pi_extensions info)
          @ map (\<lambda>ename. ''experiment name = '' @ ename) (pi_experiment_names info)
          @ metrics
          @ (if pi_destinations info = [] then [] else ''destinations:'' # map mac_to_string (pi_destinations info))))"

text \<open>A callback about a destination.\<close>

definition destination_lines :: "ip_text \<Rightarrow> ProtocolConfig \<Rightarrow> string \<Rightarrow> DlepMac \<Rightarrow> DataItem list \<Rightarrow> string list res" where
  "destination_lines ip cfg heading mac items =
     rbind (print_data_items ip cfg '''' items) (\<lambda>ls. Inr ([[], heading @ mac_to_string mac] @ ls))"

fun client_output :: "ip_text \<Rightarrow> ProtocolConfig \<Rightarrow> DlepClientImpl \<Rightarrow> action \<Rightarrow> string list res" where
  "client_output ip cfg cl (Client_peer_init peer_id items) =
     rbind (print_data_items ip cfg ''session init data items to send:'' items) (\<lambda>ls. Inr ((''peer id = '' @ peer_id) # ls))"
| "client_output ip cfg cl (Client_peer_up info) =
     rbind (print_peer_info ip cfg info) (\<lambda>ls. Inr ([] # (''Peer up, '' @ hd ls) # tl ls))"
| "client_output ip cfg cl (Client_peer_update peer_id items) =
     rbind (print_data_items ip cfg '''' items) (\<lambda>ls. Inr ([[], ''Peer update, peer = '' @ peer_id] @ ls))"
| "client_output ip cfg cl (Client_peer_down peer_id) = Inr [[], ''Peer down, peer id = '' @ peer_id]"
| "client_output ip cfg cl (Client_destination_up peer_id mac items) =
     rbind (destination_lines ip cfg (''Destination up, peer = '' @ peer_id @ '' mac = '') mac items) (\<lambda>ls.
     Inr (ls @ [''Responding with status = '' @ client_destination_up cl peer_id mac items]))"
| "client_output ip cfg cl (Client_destination_update peer_id mac items) =
     destination_lines ip cfg (''Destination update, peer = '' @ peer_id @ '' mac = '') mac items"
| "client_output ip cfg cl (Client_destination_down peer_id mac items) =
     destination_lines ip cfg (''Destination down, peer = '' @ peer_id @ '' mac = '') mac items"
| "client_output ip cfg cl (Client_linkchar_request peer_id mac items) =
     destination_lines ip cfg (''Linkchar request, peer = '' @ peer_id @ '', mac = '') mac items"
| "client_output ip cfg cl (Client_linkchar_reply peer_id mac items) =
     destination_lines ip cfg (''Linkchar reply, peer = '' @ peer_id @ '', mac = '') mac items"
| "client_output ip cfg cl _ = Inr []"

text \<open>The reply to a request for link characteristics, with a Status data item added to what was asked for.\<close>

definition client_linkchar_request ::
    "DlepClientImpl \<Rightarrow> session_env \<Rightarrow> string \<Rightarrow> DlepMac \<Rightarrow> DataItem list \<Rightarrow> unit node_comp" where
  "client_linkchar_request cl env peer_id mac items =
     bnd (lift (get_config_bool cl ''linkchar-autoreply'')) (\<lambda>autoreply.
     if \<not> autoreply then ret ()
     else
       bnd (lift (get_status_code_id (env_cfg env) ''Success'')) (\<lambda>i.
       bnd (lift (make_DataItem (env_cfg env) ''Status'' (Div_u8_string (ucast i) ''linkchar-autoreply'') None)) (\<lambda>di_status.
       bnd (service_linkchar_reply env peer_id mac (items @ [di_status])) (\<lambda>_. ret ()))))"

text \<open>The environment of the sessions of a node whose client this is.\<close>

definition client_session_env :: "DlepClientImpl \<Rightarrow> session_env \<Rightarrow> session_env" where
  "client_session_env cl env = env\<lparr>env_params := client_params cl, env_peer_init := client_peer_init,
     env_destination_up := client_destination_up cl\<rparr>"

section \<open>Types of values\<close>

fun has_type :: "ParameterType \<Rightarrow> ConfigValue \<Rightarrow> bool" where
  "has_type UnsignedInteger v \<longleftrightarrow> (\<exists>n. v = CV_unsigned n)"
| "has_type String_type v \<longleftrightarrow> (\<exists>s. v = CV_string s)"
| "has_type IPAddress v \<longleftrightarrow> (\<exists>a. v = CV_address a)"
| "has_type Boolean v \<longleftrightarrow> (\<exists>b. v = CV_bool b)"
| "has_type ConfigFile v \<longleftrightarrow> False"
| "has_type ListOfUnsignedInteger v \<longleftrightarrow> (\<exists>ns. v = CV_unsigneds ns)"

definition config_typed :: "client_env \<Rightarrow> DlepClientImpl \<Rightarrow> bool" where
  "config_typed env cl \<longleftrightarrow>
     (\<forall>name v. smap_find (cl_config_map cl) name = Some v
        \<longrightarrow> (\<exists>info. smap_find (param_info env) name = Some info \<and> has_type (cpi_type info) v))"

text \<open>
  A step that forgets no value and, when it succeeds, stores values of the declared types
  only.
\<close>

definition grows :: "client_env \<Rightarrow> DlepClientImpl \<Rightarrow> bool res \<times> DlepClientImpl \<Rightarrow> bool" where
  "grows env cl r \<longleftrightarrow>
     (fst r = Inr True \<longrightarrow> config_typed env cl \<longrightarrow> config_typed env (snd r))
     \<and> (\<forall>name. smap_find (cl_config_map cl) name \<noteq> None \<longrightarrow> smap_find (cl_config_map (snd r)) name \<noteq> None)"

lemma grows_refl [simp]: "grows env cl (r, cl)"
  by (simp add: grows_def)

lemma grows_trans:
  "grows env cl (r1, cl1) \<Longrightarrow> grows env cl1 r \<Longrightarrow> (fst r = Inr True \<Longrightarrow> r1 = Inr True) \<Longrightarrow> grows env cl r"
  by (auto simp: grows_def)

lemma grows_error: "grows env cl (r1, cl1) \<Longrightarrow> r \<noteq> Inr True \<Longrightarrow> grows env cl (r, cl1)"
  by (auto simp: grows_def)

lemma grows_set_value:
  assumes "smap_find (param_info env) name = Some info" and "\<And>v. val = Some v \<Longrightarrow> has_type (cpi_type info) v"
  shows "grows env cl (set_value env name val cl)"
  using assms by (auto simp: grows_def set_value_def config_typed_def smap_simps split: option.splits)

lemma grows_parse_one:
  assumes "\<And>f cl. grows env cl (parse_file f cl)"
  shows "grows env cl (parse_one env parse_file name val cl)"
proof (cases "smap_find (param_info env) name")
  case (Some info)
  show ?thesis
  proof (cases "cpi_type info")
    case ConfigFile
    with Some assms[of cl val] show ?thesis by (auto simp: parse_one_def intro: grows_error split: prod.splits sum.splits)
  qed (use Some in \<open>auto simp: parse_one_def intro!: grows_set_value split: option.splits\<close>)
qed (simp add: parse_one_def)

text \<open>The loops report success only if they had no failure before.\<close>

lemma params_loop_ok: "fst (params_loop env parse_param nodes ok cl) = Inr True \<Longrightarrow> ok"
  by (induction nodes arbitrary: ok cl) (auto split: if_splits option.splits prod.splits sum.splits)

lemma sections_loop_ok: "fst (sections_loop env parse_param nodes ok cl) = Inr True \<Longrightarrow> ok"
proof (induction nodes arbitrary: ok cl)
  case (Cons n nodes)
  obtain r cl1 where p: "params_loop env parse_param (node_children n) ok cl = (r, cl1)" by fastforce
  with params_loop_ok[of env parse_param "node_children n" ok cl] have "r = Inr True \<Longrightarrow> ok" by simp
  with Cons.IH[of _ cl1] Cons.IH[of ok cl] Cons.prems p show ?case by (auto split: if_splits sum.splits)
qed simp

lemma parse_args_loop_ok: "fst (parse_args_loop parse_param args ok cl) = Inr True \<Longrightarrow> ok"
  by (induction parse_param args ok cl rule: parse_args_loop.induct) (auto split: if_splits prod.splits sum.splits)

lemma grows_params_loop:
  assumes parse_grows: "\<And>name val cl. grows env cl (parse_param name val cl)"
  shows "grows env cl (params_loop env parse_param nodes ok cl)"
proof (induction nodes arbitrary: ok cl)
  case (Cons n nodes)
  have step: "grows env cl (params_loop env parse_param nodes (if b then ok' else False) cl1)"
    if "parse_param name val cl = (Inr b, cl1)" for name val b cl1 ok'
    using parse_grows[of cl name val] that
    by (auto intro!: grows_trans[OF _ Cons.IH] dest!: params_loop_ok split: if_splits)
  have "grows env cl (Inl e, cl1)" if "parse_param name val cl = (Inl e, cl1)" for name val e cl1
    using parse_grows[of cl name val] that by simp
  with Cons.IH step show ?case by (simp split: option.splits prod.splits sum.splits)
qed simp

lemma grows_sections_loop:
  assumes "\<And>name val cl. grows env cl (parse_param name val cl)"
  shows "grows env cl (sections_loop env parse_param nodes ok cl)"
proof (induction nodes arbitrary: ok cl)
  case (Cons n nodes)
  obtain r cl1 where p: "params_loop env parse_param (node_children n) ok cl = (r, cl1)" by fastforce
  with grows_params_loop[where parse_param = parse_param and nodes = "node_children n" and ok = ok and cl = cl, OF assms]
  have first: "grows env cl (r, cl1)" by simp
  have "grows env cl (sections_loop env parse_param nodes b cl1)" if "r = Inr b" for b
    using first that by (auto intro!: grows_trans[OF _ Cons.IH] dest!: sections_loop_ok)
  with first Cons.IH[of cl] p show ?case by (auto intro: grows_error split: sum.splits)
qed simp

lemma grows_parse_config_file:
  assumes "\<And>name val cl. grows env cl (parse_param name val cl)"
  shows "grows env cl (parse_config_file env parse_param f cl)"
  using grows_sections_loop[where parse_param = parse_param, OF assms] by (simp add: parse_config_file_def split: option.splits)

lemma grows_parse_parameter: "grows env cl (parse_parameter env n name val cl)"
  by (induction n arbitrary: name val cl) (auto intro!: grows_parse_one grows_parse_config_file)

lemma grows_parse_args: "grows env cl (parse_args env n args cl)"
proof -
  have "grows env cl (parse_args_loop (parse_parameter env n) args ok cl)" for ok
  proof (induction "parse_parameter env n" args ok cl rule: parse_args_loop.induct)
    case (1 name val args ok cl)
    obtain r cl1 where p: "parse_parameter env n name val cl = (r, cl1)" by fastforce
    with grows_parse_parameter[of env cl n name val] have first: "grows env cl (r, cl1)" by simp
    have "grows env cl (parse_args_loop (parse_parameter env n) args (if b then ok else False) cl1)" if "r = Inr b" for b
      using first that 1[OF p[symmetric] that] by (auto intro: grows_trans dest!: parse_args_loop_ok split: if_splits)
    with first p show ?case by (auto split: sum.splits)
  qed simp_all
  then show ?thesis by (simp add: parse_args_def)
qed

text \<open>When a parameter that is not a file was parsed, it has a value.\<close>

lemma parse_parameter_stores:
  assumes "parse_parameter env n name val cl = (Inr True, cl')" and "smap_find (param_info env) name = Some info"
    and "cpi_type info \<noteq> ConfigFile"
  shows "smap_find (cl_config_map cl') name \<noteq> None"
  using assms
  by (cases n; cases "cpi_type info")
    (auto simp: parse_one_def set_value_def smap_simps split: option.splits if_splits)

lemma defaults_stored:
  assumes "defaults_loop (parse_parameter env n) infos cl = (Inr True, cl')"
    and "\<forall>(name, info)\<in>set infos. smap_find (param_info env) name = Some info"
  shows "grows env cl (Inr True, cl') \<and> (\<forall>(name, info)\<in>set infos. cpi_type info \<noteq> ConfigFile \<longrightarrow> cpi_default_value info \<noteq> ''''
      \<longrightarrow> smap_find (cl_config_map cl') name \<noteq> None)"
  using assms
proof (induction infos arbitrary: cl)
  case (Cons x infos)
  obtain name info where x: "x = (name, info)" by (cases x)
  obtain r cl1 where p: "parse_parameter env n name (cpi_default_value info) cl = (r, cl1)" by fastforce
  show ?case
  proof (cases "smap_find (cl_config_map cl) name = None \<and> cpi_default_value info \<noteq> ''''")
    case True
    with Cons.prems(1) p x have r: "r = Inr True" and rest: "defaults_loop (parse_parameter env n) infos cl1 = (Inr True, cl')"
      by (auto split: sum.splits if_splits)
    from Cons.IH[OF rest] Cons.prems(2) have IH: "grows env cl1 (Inr True, cl')"
      "\<forall>(name, info)\<in>set infos. cpi_type info \<noteq> ConfigFile \<longrightarrow> cpi_default_value info \<noteq> ''''
        \<longrightarrow> smap_find (cl_config_map cl') name \<noteq> None" by auto
    have "grows env cl (Inr True, cl1)" using grows_parse_parameter[of env cl n name "cpi_default_value info"] p r by simp
    moreover have "cpi_type info \<noteq> ConfigFile \<longrightarrow> smap_find (cl_config_map cl1) name \<noteq> None"
      using parse_parameter_stores[OF p[unfolded r]] Cons.prems(2) x by auto
    ultimately show ?thesis using IH x by (auto intro: grows_trans simp: grows_def)
  next
    case False
    with Cons.prems(1) x have rest: "defaults_loop (parse_parameter env n) infos cl = (Inr True, cl')" by auto
    from Cons.IH[OF rest] Cons.prems(2) False x show ?thesis by (auto simp: grows_def)
  qed
qed simp

section \<open>What the library gets\<close>

lemma smap_find_fold_insert:
  "distinct (map fst xs) \<Longrightarrow>
   smap_find (fold (\<lambda>(k, v). smap_insert k v) xs m) k = (case map_of xs k of Some v \<Rightarrow> Some v | None \<Rightarrow> smap_find m k)"
proof (induction xs arbitrary: m)
  case (Cons x xs)
  obtain k' v where x: "x = (k', v)" by (cases x)
  have "map_of xs k' = None" using Cons.prems x by (simp add: map_of_eq_None_iff)
  with Cons.IH[of "smap_insert k' v m"] Cons.prems x show ?case by (auto simp: smap_simps split: option.splits)
qed simp

lemma param_names: "distinct (map fst (param_list ic))"
proof -
  have "map fst (param_list ic) = map fst (param_list '''')" by (simp add: param_list_def)
  moreover have "distinct (map fst (param_list ''''))" by code_simp
  ultimately show ?thesis by simp
qed

lemma param_info_find: "smap_find (param_info env) name = map_of (param_list (ce_install_config env)) name"
  unfolding param_info_def
  by (subst smap_find_fold_insert) (use param_names in \<open>auto split: option.splits\<close>)

lemma smap_ok_fold_insert: "smap_ok m \<Longrightarrow> smap_ok (fold (\<lambda>(k, v). smap_insert k v) xs m)"
  by (induction xs arbitrary: m) auto

lemma param_info_ok: "smap_ok (param_info env)"
  by (simp add: param_info_def smap_ok_fold_insert)

text \<open>
  The parameters the library asks for, but for those without a sensible default: the session
  address and interface, the peer type and the id of the radio.
\<close>

definition required :: "(string \<times> ParameterType) list" where
  "required =
     map (\<lambda>s. (s, UnsignedInteger)) [''ack-timeout'', ''ack-probability'', ''send-tries'', ''heartbeat-interval'',
       ''heartbeat-threshold'', ''session-port'', ''discovery-port'', ''discovery-interval'', ''destination-advert-port'',
       ''destination-advert-send-interval'', ''destination-advert-hold-interval'', ''destination-advert-expire-count'',
       ''log-level'', ''discovery-ttl'', ''session-ttl'', ''peer-flags'']
     @ map (\<lambda>s. (s, Boolean)) [''discovery-enable'', ''destination-advert-enable'']
     @ map (\<lambda>s. (s, String_type)) [''discovery-iface'', ''destination-advert-iface'', ''local-type'', ''log-file'',
       ''protocol-config-file'', ''protocol-config-schema'']
     @ map (\<lambda>s. (s, IPAddress)) [''discovery-mcast-address'', ''destination-advert-mcast-address'']"

abbreviation summary :: "ConfigParameterInfo \<Rightarrow> ParameterType \<times> bool" where
  "summary info \<equiv> (cpi_type info, cpi_default_value info \<noteq> '''')"

lemma param_summary: "map_option summary (map_of (param_list ic) name) = map_option summary (map_of (param_list '''') name)"
proof -
  have "map (\<lambda>(k, info). (k, summary info)) (param_list ic) = map (\<lambda>(k, info). (k, summary info)) (param_list '''')"
    by (simp add: param_list_def)
  then have "map_of (map (\<lambda>(k, info). (k, summary info)) (param_list ic)) name
      = map_of (map (\<lambda>(k, info). (k, summary info)) (param_list '''')) name" by simp
  then show ?thesis unfolding map_of_map comp_def .
qed

lemma required_summary:
  "list_all (\<lambda>(name, t). map_option summary (map_of (param_list '''') name) = Some (t, True) \<and> t \<noteq> ConfigFile) required"
  by code_simp

lemma required_have_defaults:
  assumes "(name, t) \<in> set required"
  obtains info where "smap_find (param_info env) name = Some info" and "cpi_type info = t" and "t \<noteq> ConfigFile"
    and "cpi_default_value info \<noteq> ''''"
proof -
  have "map_option summary (map_of (param_list (ce_install_config env)) name) = Some (t, True)" "t \<noteq> ConfigFile"
    using required_summary assms by (auto simp: list_all_iff param_summary[of "ce_install_config env"])
  then show ?thesis by (auto simp: param_info_find intro: that)
qed

fun provides :: "DlepClientImpl \<Rightarrow> string \<Rightarrow> ParameterType \<Rightarrow> bool" where
  "provides cl name UnsignedInteger \<longleftrightarrow> (\<exists>n. cp_unsigned (client_params cl) name = Inr n)"
| "provides cl name String_type \<longleftrightarrow> (\<exists>s. cp_string (client_params cl) name = Inr s)"
| "provides cl name Boolean \<longleftrightarrow> (\<exists>b. cp_bool (client_params cl) name = Inr b)"
| "provides cl name IPAddress \<longleftrightarrow> (\<exists>a. get_config_address cl name = Inr a)"
| "provides cl name ListOfUnsignedInteger \<longleftrightarrow> (\<exists>ns. get_config_unsigneds cl name = Inr ns)"
| "provides cl name ConfigFile \<longleftrightarrow> False"

lemma typed_provides:
  assumes "config_typed env cl" and "smap_find (param_info env) name = Some info"
  shows "provides cl name (cpi_type info) \<longleftrightarrow> smap_find (cl_config_map cl) name \<noteq> None"
proof (cases "smap_find (cl_config_map cl) name")
  case None
  then show ?thesis
    by (cases "cpi_type info")
      (simp_all add: client_params_def get_config_bool_def get_config_unsigned_def get_config_string_def get_config_address_def
        get_config_unsigneds_def get_config_value_def)
next
  case (Some v)
  with assms have "has_type (cpi_type info) v" unfolding config_typed_def by fastforce
  with Some show ?thesis
    by (cases "cpi_type info")
      (auto simp: client_params_def get_config_bool_def get_config_unsigned_def get_config_string_def get_config_address_def
        get_config_unsigneds_def get_config_value_def)
qed

lemma client_typed:
  assumes "parse_args env n args new_DlepClientImpl = (Inr True, cl)" and "load_defaults env n cl = (Inr True, cl')"
  shows "config_typed env cl' \<and> (\<forall>name info. smap_find (param_info env) name = Some info \<longrightarrow> cpi_type info \<noteq> ConfigFile
      \<longrightarrow> cpi_default_value info \<noteq> '''' \<longrightarrow> smap_find (cl_config_map cl') name \<noteq> None)"
proof -
  have "config_typed env new_DlepClientImpl" by (simp add: config_typed_def new_DlepClientImpl_def)
  with grows_parse_args[of env new_DlepClientImpl n args] assms(1) have typed: "config_typed env cl" by (simp add: grows_def)
  have "\<forall>(name, info)\<in>set (param_info env). smap_find (param_info env) name = Some info"
    using smap_find_set[OF param_info_ok] by auto
  from defaults_stored[OF assms(2)[unfolded load_defaults_def] this] typed show ?thesis
    by (auto simp: grows_def smap_find_set[OF param_info_ok, symmetric])
qed


section \<open>Configuration files that refer to files\<close>

text \<open>The parameters of a file, and the files it refers to.\<close>

definition file_param :: "client_env \<Rightarrow> string \<Rightarrow> string \<Rightarrow> string \<Rightarrow> bool" where
  "file_param env f name val \<longleftrightarrow>
     (\<exists>root sec nd. ce_parse_file env f = Some (Some root) \<and> sec \<in> set (node_children root) \<and> node_name sec = ''params''
        \<and> nd \<in> set (node_children sec) \<and> node_name nd = name \<and> ce_list_string env nd = Some val)"

definition included :: "client_env \<Rightarrow> string \<Rightarrow> string \<Rightarrow> bool" where
  "included env f f' \<longleftrightarrow> file_param env f ''config-file'' f'"

lemma file_paramI:
  "ce_parse_file env f = Some (Some root) \<Longrightarrow> sec \<in> set (node_children root) \<Longrightarrow> node_name sec = ''params'' \<Longrightarrow>
   nd \<in> set (node_children sec) \<Longrightarrow> ce_list_string env nd = Some v \<Longrightarrow> file_param env f (node_name nd) v"
  by (auto simp: file_param_def)

lemma config_file_only:
  assumes "smap_find (param_info env) name = Some info" and "cpi_type info = ConfigFile"
  shows "name = ''config-file''"
proof -
  have "list_all (\<lambda>(k, t). fst t = ConfigFile \<longrightarrow> k = ''config-file'') (map (\<lambda>(k, info). (k, summary info)) (param_list ic))" for ic
    by (simp add: param_list_def)
  then have "list_all (\<lambda>(k, info). cpi_type info = ConfigFile \<longrightarrow> k = ''config-file'') (param_list ic)" for ic
    by (simp add: list_all_iff case_prod_beta)
  with assms map_of_SomeD[of "param_list (ce_install_config env)" name info] show ?thesis
    by (auto simp: list_all_iff param_info_find)
qed

lemma params_loop_cong:
  assumes "\<And>nd v. nd \<in> set nodes \<Longrightarrow> ce_list_string env nd = Some v \<Longrightarrow> p (node_name nd) v = q (node_name nd) v"
  shows "params_loop env p nodes ok cl = params_loop env q nodes ok cl"
  using assms by (induction nodes arbitrary: ok cl) (auto split: option.splits prod.splits sum.splits)

lemma sections_loop_cong:
  assumes "\<And>sec nd v. sec \<in> set nodes \<Longrightarrow> node_name sec = ''params'' \<Longrightarrow> nd \<in> set (node_children sec) \<Longrightarrow>
      ce_list_string env nd = Some v \<Longrightarrow> p (node_name nd) v = q (node_name nd) v"
  shows "sections_loop env p nodes ok cl = sections_loop env q nodes ok cl"
  using assms
proof (induction nodes arbitrary: ok cl)
  case (Cons n nodes)
  have "params_loop env p (node_children n) ok cl = params_loop env q (node_children n) ok cl" if "node_name n = ''params''"
    by (rule params_loop_cong) (use Cons.prems that in auto)
  moreover have "sections_loop env p nodes ok' cl' = sections_loop env q nodes ok' cl'" for ok' cl'
    by (rule Cons.IH) (use Cons.prems in auto)
  ultimately show ?case by (auto split: prod.splits sum.splits)
qed simp

lemma parse_config_file_cong:
  assumes "\<And>name v. file_param env f name v \<Longrightarrow> p name v = q name v"
  shows "parse_config_file env p f = parse_config_file env q f"
proof
  fix cl
  show "parse_config_file env p f cl = parse_config_file env q f cl"
    by (auto simp: parse_config_file_def split: option.splits intro!: sections_loop_cong intro: assms file_paramI)
qed

text \<open>Reading a file throws nothing but what the handler catches, if reading its parameters does not.\<close>

definition only_std :: "bool res \<times> DlepClientImpl \<Rightarrow> bool" where
  "only_std r \<longleftrightarrow> (case fst r of Inl e \<Rightarrow> is_std_exception e | Inr _ \<Rightarrow> True)"

lemma params_loop_std:
  assumes "\<And>nd v cl. nd \<in> set nodes \<Longrightarrow> ce_list_string env nd = Some v \<Longrightarrow> only_std (p (node_name nd) v cl)"
  shows "only_std (params_loop env p nodes ok cl)"
  using assms
proof (induction nodes arbitrary: ok cl)
  case (Cons n nodes)
  have IH: "only_std (params_loop env p nodes ok' cl')" for ok' cl'
    by (rule Cons.IH) (use Cons.prems in auto)
  have "only_std (p (node_name n) v cl)" if "ce_list_string env n = Some v" for v
    using Cons.prems that by simp
  with IH show ?case by (fastforce simp: only_std_def split: option.splits prod.splits sum.splits)
qed (simp add: only_std_def)

lemma sections_loop_std:
  assumes "\<And>sec nd v cl. sec \<in> set nodes \<Longrightarrow> node_name sec = ''params'' \<Longrightarrow> nd \<in> set (node_children sec) \<Longrightarrow>
      ce_list_string env nd = Some v \<Longrightarrow> only_std (p (node_name nd) v cl)"
  shows "only_std (sections_loop env p nodes ok cl)"
  using assms
proof (induction nodes arbitrary: ok cl)
  case (Cons n nodes)
  have IH: "only_std (sections_loop env p nodes ok' cl')" for ok' cl'
    by (rule Cons.IH) (use Cons.prems in auto)
  have "only_std (params_loop env p (node_children n) ok cl)" if "node_name n = ''params''"
    by (rule params_loop_std) (use Cons.prems that in auto)
  with IH show ?case by (fastforce simp: only_std_def split: prod.splits sum.splits)
qed (simp add: only_std_def)

lemma parse_config_file_std:
  assumes "\<And>name v cl. file_param env f name v \<Longrightarrow> only_std (p name v cl)"
  shows "only_std (parse_config_file env p f cl)"
proof (cases "ce_parse_file env f")
  case (Some root)
  show ?thesis
  proof (cases root)
    case (Some r)
    have "only_std (sections_loop env p (node_children r) True cl)"
      by (rule sections_loop_std) (use \<open>ce_parse_file env f = Some root\<close> Some in \<open>auto intro: assms file_paramI\<close>)
    with Some \<open>ce_parse_file env f = Some root\<close> show ?thesis by (simp add: parse_config_file_def only_std_def)
  qed (use Some in \<open>simp add: parse_config_file_def only_std_def\<close>)
qed (simp add: parse_config_file_def only_std_def)

text \<open>Parameters that are not files do not depend on the fuel, and no exception escapes.\<close>

lemma set_value_returns: "\<exists>ok. fst (set_value env name val cl) = Inr ok"
  by (cases val) (auto simp: set_value_def)

lemma parse_other:
  assumes "name \<noteq> ''config-file''"
  shows "parse_one env pf name val cl = parse_one env pf' name val cl \<and> (\<exists>ok. fst (parse_one env pf name val cl) = Inr ok)"
proof (cases "smap_find (param_info env) name")
  case (Some info)
  with assms config_file_only[of env name info] have "cpi_type info \<noteq> ConfigFile" by blast
  with Some show ?thesis
    by (cases "cpi_type info") (auto simp: parse_one_def intro: set_value_returns split: option.splits)
qed (auto simp: parse_one_def)

lemma parse_parameter_other:
  assumes "name \<noteq> ''config-file''"
  shows "parse_parameter env i name val cl = parse_parameter env j name val cl \<and> (\<exists>ok. fst (parse_parameter env i name val cl) = Inr ok)"
proof -
  obtain pf where "parse_parameter env i = parse_one env pf" by (cases i) simp_all
  moreover obtain pf' where "parse_parameter env j = parse_one env pf'" by (cases j) simp_all
  ultimately show ?thesis
    using parse_other[OF assms, of env pf val cl pf'] parse_other[OF assms, of env pf' val cl pf'] by simp
qed

lemma parse_file_param:
  assumes "pf val cl = pf' val cl" and "only_std (pf val cl)"
  shows "parse_one env pf name val cl = parse_one env pf' name val cl \<and> (\<exists>ok. fst (parse_one env pf name val cl) = Inr ok)"
proof (cases "name = ''config-file''")
  case True
  have "\<exists>info. smap_find (param_info env) ''config-file'' = Some info \<and> cpi_type info = ConfigFile"
    by (simp add: param_info_find param_list_def)
  with True assms show ?thesis
    by (auto simp: parse_one_def only_std_def split: prod.splits sum.splits)
qed (rule parse_other)

lemma parse_depth:
  assumes acyclic: "\<And>f f'. included env f f' \<Longrightarrow> rank f' < (rank f :: nat)" and "rank val < n"
  shows "parse_parameter env n name val cl = parse_parameter env (Suc (rank val)) name val cl
    \<and> (\<exists>ok. fst (parse_parameter env n name val cl) = Inr ok)"
  using assms(2)
proof (induction "rank val" arbitrary: val n name cl rule: less_induct)
  case less
  then obtain k where n: "n = Suc k" "rank val \<le> k" by (cases n) auto
  have below: "parse_parameter env j name' v cl' = parse_parameter env (rank val) name' v cl'
      \<and> (\<exists>ok. fst (parse_parameter env j name' v cl') = Inr ok)" if "file_param env val name' v" "rank val \<le> j" for j name' v cl'
  proof (cases "name' = ''config-file''")
    case True
    with that(1) have "rank v < rank val" by (auto simp: included_def intro: acyclic)
    with that(2) have "rank v < j" "rank v < rank val" by simp_all
    from less.hyps[OF this(2,1), of name' cl'] less.hyps[OF this(2,2), of name' cl'] show ?thesis by argo
  next
    case False
    then show ?thesis by (rule parse_parameter_other)
  qed
  have "parse_config_file env (parse_parameter env k) val = parse_config_file env (parse_parameter env (rank val)) val"
    by (rule parse_config_file_cong) (use below[OF _ n(2)] in auto)
  moreover have "only_std (parse_config_file env (parse_parameter env k) val cl)"
  proof (rule parse_config_file_std)
    fix name v cl
    assume "file_param env val name v"
    from below[OF this n(2), of cl] show "only_std (parse_parameter env k name v cl)" by (auto simp: only_std_def)
  qed
  ultimately show ?case unfolding n(1) parse_parameter.simps by (intro parse_file_param) simp_all
qed

text \<open>
  C40: reading the configuration returns. As long as no configuration file refers, directly or
  through others, to itself (\<open>rank\<close> decreases along references), parsing a parameter ends with
  success or failure, no exception escapes, and any depth of nesting beyond the rank of the
  file gives the same result.
\<close>

theorem parse_parameter_returns:
  assumes "\<And>f f'. included env f f' \<Longrightarrow> rank f' < (rank f :: nat)" and "rank val < n"
  shows "(\<exists>ok. fst (parse_parameter env n name val cl) = Inr ok)
    \<and> parse_parameter env n name val cl = parse_parameter env (Suc (rank val)) name val cl"
  using parse_depth[of env rank val n name cl] assms by blast

text \<open>A file whose first parameter is itself is read for ever.\<close>

lemma self_reference_hangs:
  assumes "ce_parse_file env f = Some (Some (XmlNode ''config'' c (XmlNode ''params'' c' (nd # nodes) # secs)))"
    and "node_name nd = ''config-file''" and "ce_list_string env nd = Some f"
  shows "fst (parse_parameter env n ''config-file'' f cl) = Inl Hang"
proof -
  have param: "\<exists>info. smap_find (param_info env) ''config-file'' = Some info \<and> cpi_type info = ConfigFile"
    by (simp add: param_info_find param_list_def)
  show ?thesis
  proof (induction n arbitrary: cl)
    case 0
    with param show ?case by (auto simp: parse_one_def)
  next
    case (Suc n)
    from Suc[of cl] have "fst (parse_config_file env (parse_parameter env n) f cl) = Inl Hang"
      using assms by (auto simp: parse_config_file_def split: prod.splits sum.splits)
    with param show ?case by (auto simp: parse_one_def split: prod.splits sum.splits)
  qed
qed

text \<open>
  A list of numbers is accepted when the text ends where reading stops: a number that does
  not fit at its end is dropped without notice, and a lone sign is the empty list.
\<close>

lemma list_end_dropped:
  "parse_unsigneds ''1,99999999999'' = Some [1]" "parse_unsigneds ''-'' = Some []" "parse_unsigneds ''1,x'' = None"
  by code_simp+

text \<open>
  Where the compiler evaluates \<open>config_map[name]\<close> first, a value that is rejected leaves a
  parameter that had none with a boolean, and the library's request for it throws what no
  handler expects.
\<close>

lemma rejected_value_left:
  assumes "ce_subscript_first env" and "ce_address env val = None" and "smap_find (cl_config_map cl) ''session-address'' = None"
  shows "\<exists>cl'. parse_parameter env n ''session-address'' val cl = (Inr False, cl')
    \<and> get_config_address cl' ''session-address'' = bad_get"
proof -
  have "\<exists>info. smap_find (param_info env) ''session-address'' = Some info \<and> cpi_type info = IPAddress"
    by (simp add: param_info_find param_list_def)
  with assms show ?thesis
    by (cases n) (auto simp: parse_one_def set_value_def get_config_address_def get_config_value_def smap_simps)
qed

section \<open>The callbacks print\<close>

text \<open>Every data item a callback is given prints, so that no callback throws while printing.\<close>

lemma lines_of_total: "(\<And>x. x \<in> set xs \<Longrightarrow> \<exists>l. f x = Inr l) \<Longrightarrow> \<exists>ls. lines_of f xs = Inr ls \<and> length ls = length xs"
  by (induction xs) (auto, fastforce)

fun action_items :: "action \<Rightarrow> DataItem list" where
  "action_items (Client_peer_init i items) = items"
| "action_items (Client_peer_up info) = pi_data_items info"
| "action_items (Client_peer_update i items) = items"
| "action_items (Client_destination_up i mac items) = items"
| "action_items (Client_destination_update i mac items) = items"
| "action_items (Client_destination_down i mac items) = items"
| "action_items (Client_linkchar_request i mac items) = items"
| "action_items (Client_linkchar_reply i mac items) = items"
| "action_items _ = []"

lemma callbacks_print:
  assumes "config_ok cfg" and "subs_listed cfg" and "\<forall>di\<in>set (action_items a). item_ok cfg None di"
  shows "\<exists>ls. client_output ip cfg cl a = Inr ls \<and> length (action_items a) \<le> length ls"
proof -
  have items: "\<exists>ls. print_data_items ip cfg msg (action_items a) = Inr ls \<and> length (action_items a) \<le> length ls" for msg
    using lines_of_total[of "action_items a" "data_item_to_string ip cfg None"] to_string_total(2)[OF assms(1,2)] assms(3)
    by (fastforce simp: print_data_items_def)
  show ?thesis
  proof (cases a)
    case (Client_peer_up info)
    with items[of "''default metrics:''"] show ?thesis by (auto simp: print_peer_info_def)
  qed (use items[of "''''"] items[of "''session init data items to send:''"] in \<open>auto simp: destination_lines_def\<close>)
qed

end
