(* ===== verification/DlepCli.thy ===== *)
theory DlepCli
  imports ExampleClient DataItemRoundTrip
begin

text \<open>
  The command line interface of the example client (\<open>src/ExampleMain.cpp\<close>): lines are split
  into tokens, the first token names the command, and the handlers of the commands call the
  service, change the client or print tables. What is printed is collected line by line,
  without the escape sequences for colours. \<open>readline\<close> is the list of lines, and the threads of
  the library run between them.
\<close>

section \<open>State\<close>

record cli_env =
  cv_client :: client_env
  cv_session :: session_env
  cv_ip_text :: ip_text
  cv_ip_parse :: ip_parse
  cv_depth :: nat

record DlepCli =
  cli_client :: DlepClientImpl
  cli_node :: Dlep
  cli_tokens :: "string list"
  cli_current_token :: nat
  cli_continue :: bool
  cli_help_dataitems_printed :: bool
  cli_output :: "string list"

type_synonym 'a cli_comp = "(DlepCli, 'a) comp"

abbreviation cv_cfg :: "cli_env \<Rightarrow> ProtocolConfig" where
  "cv_cfg env \<equiv> env_cfg (cv_session env)"

definition new_DlepCli :: "DlepClientImpl \<Rightarrow> Dlep \<Rightarrow> DlepCli" where
  "new_DlepCli client service = \<lparr>cli_client = client, cli_node = service, cli_tokens = [], cli_current_token = 0,
     cli_continue = True, cli_help_dataitems_printed = False, cli_output = []\<rparr>"

definition say :: "string list \<Rightarrow> unit cli_comp" where
  "say ls = change (\<lambda>cli. cli\<lparr>cli_output := cli_output cli @ ls\<rparr>)"

definition quoted :: "string \<Rightarrow> string" where
  "quoted s = CHR 0x27 # s @ [CHR 0x27]"

section \<open>Tokens\<close>

text \<open>\<open>find_first_of\<close> and \<open>find_first_not_of\<close>; \<open>None\<close> is \<open>npos\<close>.\<close>

definition is_ws :: "char \<Rightarrow> bool" where
  "is_ws c \<longleftrightarrow> c = CHR '' '' \<or> c = CHR 0x09"

definition find_first :: "(char \<Rightarrow> bool) \<Rightarrow> string \<Rightarrow> nat \<Rightarrow> nat option" where
  "find_first P line pos =
     (let i = pos + length (takeWhile (\<lambda>c. \<not> P c) (drop pos line)) in if i < length line then Some i else None)"

lemma find_first_Some:
  assumes "find_first P line pos = Some i"
  shows "pos \<le> i \<and> i < length line \<and> P (line ! i)"
proof -
  let ?n = "length (takeWhile (\<lambda>c. \<not> P c) (drop pos line))"
  have i: "i = pos + ?n" "i < length line" using assms by (auto simp: find_first_def Let_def split: if_splits)
  then have "\<not> \<not> P (drop pos line ! ?n)" by (intro nth_length_takeWhile) simp
  with i show ?thesis by simp
qed

function tokenize_loop :: "string \<Rightarrow> nat option \<Rightarrow> string list" where
  "tokenize_loop line cursor =
     (case cursor of
        None \<Rightarrow> []
      | Some c \<Rightarrow>
          (case find_first (\<lambda>x. \<not> is_ws x) line c of
             None \<Rightarrow> []
           | Some line_cursor \<Rightarrow>
               let end_of_token = find_first is_ws line line_cursor;
                   token_size = (case end_of_token of None \<Rightarrow> length line - line_cursor | Some e \<Rightarrow> e - line_cursor)
               in take token_size (drop line_cursor line) # tokenize_loop line end_of_token))"
  by pat_completeness auto
termination
proof (relation "measure (\<lambda>(line, cursor). case cursor of None \<Rightarrow> 0 | Some c \<Rightarrow> Suc (length line - c))", goal_cases)
  case (2 line cursor c line_cursor end_of_token token_size)
  from 2(2) have b: "c \<le> line_cursor" "line_cursor < length line" "\<not> is_ws (line ! line_cursor)"
    using find_first_Some[of "\<lambda>x. \<not> is_ws x" line c line_cursor] by simp_all
  show ?case
  proof (cases end_of_token)
    case (Some e)
    with 2(3) find_first_Some[of is_ws line line_cursor e] b(3) have "line_cursor \<le> e" "line_cursor \<noteq> e" by auto
    with Some b 2(1) show ?thesis by simp
  qed (use 2(1) in simp)
qed simp

declare tokenize_loop.simps [simp del]

definition tokenize :: "string \<Rightarrow> string list" where
  "tokenize line = tokenize_loop line (Some 0)"

text \<open>\<open>*current_token++\<close>\<close>

definition next_token :: "string cli_comp" where
  "next_token cli =
     (if cli_current_token cli < length (cli_tokens cli)
      then Inr (cli_tokens cli ! cli_current_token cli, cli\<lparr>cli_current_token := cli_current_token cli + 1\<rparr>)
      else Inl (Undefined ''token beyond the last''))"

definition token_count :: "DlepCli \<Rightarrow> nat" where
  "token_count cli = length (cli_tokens cli)"

section \<open>Arguments\<close>

fun is_Invalid_Argument :: "exn \<Rightarrow> bool" where
  "is_Invalid_Argument (Invalid_Argument s) = True"
| "is_Invalid_Argument _ = False"

fun is_BadStatusCodeName :: "exn \<Rightarrow> bool" where
  "is_BadStatusCodeName (BadStatusCodeName s) = True"
| "is_BadStatusCodeName _ = False"

text \<open>\<open>None\<close> is a return value of \<open>false\<close>.\<close>

definition parse_mac_address :: "cli_env \<Rightarrow> DlepMac option cli_comp" where
  "parse_mac_address env =
     bnd (asks (\<lambda>cli. cli_current_token cli = token_count cli)) (\<lambda>at_end.
     if at_end then next_do (say [''missing MAC address'']) (ret None)
     else
       bnd next_token (\<lambda>mac_token.
       bnd (lift (make_default_DataItem (cv_cfg env) ''MAC_Address'' None)) (\<lambda>di_mac.
       case value_from_string (cv_ip_parse env) mac_token di_mac of
         Inl e \<Rightarrow>
           if is_Invalid_Argument e then next_do (say [mac_token @ '' is not a valid MAC address'']) (ret None) else throw e
       | Inr di \<Rightarrow>
           (case di_value di of
              Div_dlepmac mac \<Rightarrow> ret (Some mac)
            | _ \<Rightarrow> next_do (say [''internal error converting '' @ mac_token @ '' to a MAC address'']) (ret None)))))"

function data_items_loop :: "ip_parse \<Rightarrow> ProtocolConfig \<Rightarrow> istream \<Rightarrow> DataItem list res" where
  "data_items_loop ip cfg ss =
     (let ss1 = skip_whitespace ss
      in if is_eof ss1 then Inr []
         else rbind (from_istringstream ip cfg None ss1) (\<lambda>(di, ss2).
              if is_fail ss2 then Inr [di]
              else rbind (data_items_loop ip cfg ss2) (\<lambda>dis. Inr (di # dis))))"
  by pat_completeness auto
termination
  by (relation "measure (\<lambda>(_, _, ss). left_over ss)")
    (auto dest!: from_istringstream_shorter(1) intro: less_le_trans [OF _ left_over_skip_whitespace])

declare data_items_loop.simps [simp del]

definition parse_data_items :: "cli_env \<Rightarrow> DataItem list option cli_comp" where
  "parse_data_items env =
     bnd (asks (\<lambda>cli. concat (map (\<lambda>t. t @ '' '') (drop (cli_current_token cli) (cli_tokens cli))))) (\<lambda>rest_of_line.
     next_do (change (\<lambda>cli. cli\<lparr>cli_current_token := token_count cli\<rparr>))
       (case data_items_loop (cv_ip_parse env) (cv_cfg env) (open_stream rest_of_line) of
          Inr items \<Rightarrow> ret (Some items)
        | Inl e \<Rightarrow>
            if is_BadDataItemName e
            then next_do (say [what e @ '' is not a valid data item name. Try '' @ quoted ''show dataitems'']) (ret None)
            else if is_Invalid_Argument e then next_do (say [what e]) (ret None)
            else throw e))"

section \<open>Calling the service\<close>

definition run_service :: "cli_env \<Rightarrow> (session_env \<Rightarrow> 'a node_comp) \<Rightarrow> 'a cli_comp" where
  "run_service env m cli =
     (case m (client_session_env (cli_client cli) (cv_session env)) (cli_node cli) of
        Inl e \<Rightarrow> Inl e
      | Inr (x, d) \<Rightarrow> Inr (x, cli\<lparr>cli_node := d\<rparr>))"

fun status_text :: "ReturnStatus \<Rightarrow> string" where
  "status_text rs_ok = ''ok''"
| "status_text invalid_data_item = ''invalid data item''"
| "status_text invalid_mac_address = ''invalid mac address''"
| "status_text destination_exists = ''destination exists''"
| "status_text destination_does_not_exist = ''destination does not exist''"
| "status_text peer_does_not_exist = ''peer does not exist''"

definition print_dlep_service_return_status :: "ReturnStatus \<Rightarrow> unit cli_comp" where
  "print_dlep_service_return_status r = say [''DlepService returns: '' @ status_text r]"

section \<open>Help\<close>

definition help_help :: "string \<Rightarrow> unit cli_comp" where
  "help_help cmd_name = say [cmd_name @ '' : print a help message'']"

definition help_quit :: "string \<Rightarrow> unit cli_comp" where
  "help_quit cmd_name = say [cmd_name @ '' : exit the program cleanly'']"

definition help_dataitems :: "unit cli_comp" where
  "help_dataitems =
     bnd (asks cli_help_dataitems_printed) (\<lambda>printed.
     if printed then ret ()
     else
       next_do (say [''    [data-item-name data-item-value] can be repeated to specify multiple data items'',
                     ''    data-item-names come from '' @ quoted ''show dataitems''])
         (change (\<lambda>cli. cli\<lparr>cli_help_dataitems_printed := True\<rparr>)))"

definition help_destination_up :: "string \<Rightarrow> unit cli_comp" where
  "help_destination_up cmd_name =
     next_do (say [cmd_name @ '' up mac-address [data-item-name data-item-value]...'',
                   ''    declare a destination to be up (modem) or announced (router)'']) help_dataitems"

definition help_destination_update :: "string \<Rightarrow> unit cli_comp" where
  "help_destination_update cmd_name =
     next_do (say [cmd_name @ '' update mac-address [data-item-name data-item-value]...'',
                   ''    update attributes of an existing (up) destination'']) help_dataitems"

definition help_destination_down :: "string \<Rightarrow> unit cli_comp" where
  "help_destination_down cmd_name =
     say [cmd_name @ '' down mac-address [data-item-name data-item-value]...'', ''    declare a destination to be down'']"

definition help_destination_response :: "string \<Rightarrow> unit cli_comp" where
  "help_destination_response cmd_name =
     say [cmd_name @ '' response mac-address status-code-name'',
          ''    define response to a future destination up for mac-address'',
          ''    status-code-name comes from '' @ quoted ''show statuscodes'']"

definition help_destination :: "string \<Rightarrow> unit cli_comp" where
  "help_destination cmd_name =
     next_do (help_destination_up cmd_name)
     (next_do (help_destination_update cmd_name)
     (next_do (help_destination_down cmd_name) (help_destination_response cmd_name)))"

definition help_linkchar_request :: "string \<Rightarrow> unit cli_comp" where
  "help_linkchar_request cmd_name =
     next_do (say [cmd_name @ '' request mac-address [data-item-name data-item-value]...'',
                   ''    request link characteristics for a destination'']) help_dataitems"

definition help_linkchar_reply :: "string \<Rightarrow> unit cli_comp" where
  "help_linkchar_reply cmd_name =
     next_do (say [cmd_name @ '' reply peer_id mac-address [data-item-name data-item-value]...'',
                   ''    reply with link characteristics for a destination'']) help_dataitems"

definition help_linkchar :: "string \<Rightarrow> unit cli_comp" where
  "help_linkchar cmd_name = next_do (help_linkchar_request cmd_name) (help_linkchar_reply cmd_name)"

definition help_peer_update :: "string \<Rightarrow> unit cli_comp" where
  "help_peer_update cmd_name =
     next_do (say [cmd_name @ '' update [data-item-name data-item-value]...'',
                   ''    update the local peer with data-items and send peer updates to all existing peers'']) help_dataitems"

definition help_peer :: "string \<Rightarrow> unit cli_comp" where
  "help_peer cmd_name = help_peer_update cmd_name"

definition help_set :: "string \<Rightarrow> unit cli_comp" where
  "help_set cmd_name = say [cmd_name @ '' param-name param-value'', ''    set a config parameter value'']"

definition help_show_peer :: "string \<Rightarrow> unit cli_comp" where
  "help_show_peer cmd_name =
     say [cmd_name @ '' peer [ peer-id ]'', ''    without peer-id, lists all peers'',
          ''    with peer-id, prints detailed information about that peer'']"

definition help_show_destination :: "string \<Rightarrow> unit cli_comp" where
  "help_show_destination cmd_name =
     say [cmd_name @ '' dest [ mac-address ]'', ''    without mac-address, prints info about all destinations'',
          ''    with mac-address, prints info about that destination'']"

definition help_show :: "string \<Rightarrow> unit cli_comp" where
  "help_show cmd_name =
     next_do (say [cmd_name @ '' [ dataitems | config | signals | modules | statuscodes | peer | dest ]'',
                   ''    show requested information''])
     (next_do (help_show_peer cmd_name) (help_show_destination cmd_name))"

definition invalid_subcommand :: "string \<Rightarrow> string \<Rightarrow> unit cli_comp" where
  "invalid_subcommand subcommand cmd_name = say [''invalid subcommand '' @ subcommand @ '' for '' @ cmd_name]"

section \<open>Commands that change something\<close>

text \<open>The arguments most commands take, a MAC address and data items.\<close>

definition with_mac_and_items :: "cli_env \<Rightarrow> (DlepMac \<Rightarrow> DataItem list \<Rightarrow> unit cli_comp) \<Rightarrow> unit cli_comp" where
  "with_mac_and_items env k =
     bnd (parse_mac_address env) (\<lambda>m.
     case m of
       None \<Rightarrow> ret ()
     | Some mac \<Rightarrow>
         bnd (parse_data_items env) (\<lambda>r.
         case r of None \<Rightarrow> ret () | Some items \<Rightarrow> k mac items))"

definition request :: "cli_env \<Rightarrow> (session_env \<Rightarrow> ReturnStatus node_comp) \<Rightarrow> unit cli_comp" where
  "request env m = bnd (run_service env m) print_dlep_service_return_status"

definition handle_destination_up :: "cli_env \<Rightarrow> string \<Rightarrow> bool \<Rightarrow> unit cli_comp" where
  "handle_destination_up env cmd_name update =
     bnd (asks token_count) (\<lambda>n.
     if n < 3 then help_destination_up cmd_name
     else with_mac_and_items env (\<lambda>mac items.
       if update then request env (\<lambda>e. service_destination_update e mac items)
       else request env (\<lambda>e. service_destination_up e mac items)))"

definition handle_destination_update :: "cli_env \<Rightarrow> string \<Rightarrow> unit cli_comp" where
  "handle_destination_update env cmd_name =
     bnd (asks token_count) (\<lambda>n.
     if n < 3 then help_destination_update cmd_name else handle_destination_up env cmd_name True)"

definition handle_destination_down :: "cli_env \<Rightarrow> string \<Rightarrow> unit cli_comp" where
  "handle_destination_down env cmd_name =
     bnd (asks token_count) (\<lambda>n.
     if n < 3 then help_destination_down cmd_name
     else with_mac_and_items env (\<lambda>mac items. request env (\<lambda>e. service_destination_down e mac items)))"

definition handle_destination_response :: "cli_env \<Rightarrow> string \<Rightarrow> unit cli_comp" where
  "handle_destination_response env cmd_name =
     bnd (asks token_count) (\<lambda>n.
     if n \<noteq> 4 then help_destination_response cmd_name
     else
       bnd (parse_mac_address env) (\<lambda>m.
       case m of
         None \<Rightarrow> ret ()
       | Some mac \<Rightarrow>
           bnd next_token (\<lambda>statusname.
           case get_status_code_id (cv_cfg env) statusname of
             Inl e \<Rightarrow>
               if is_BadStatusCodeName e
               then say [statusname @ '' is not a valid status code name. Try '' @ quoted ''show statuscodes'']
               else throw e
           | Inr _ \<Rightarrow> change (\<lambda>cli. cli\<lparr>cli_client := set_destination_response mac statusname (cli_client cli)\<rparr>))))"

definition handle_destination :: "cli_env \<Rightarrow> string \<Rightarrow> unit cli_comp" where
  "handle_destination env cmd_name =
     bnd (asks token_count) (\<lambda>n.
     if n < 2 then help_destination cmd_name
     else
       bnd next_token (\<lambda>subcommand.
       if subcommand = ''up'' then handle_destination_up env cmd_name False
       else if subcommand = ''update'' then handle_destination_update env cmd_name
       else if subcommand = ''down'' then handle_destination_down env cmd_name
       else if subcommand = ''response'' then handle_destination_response env cmd_name
       else next_do (invalid_subcommand subcommand cmd_name) (help_destination cmd_name)))"

definition handle_linkchar_request :: "cli_env \<Rightarrow> unit cli_comp" where
  "handle_linkchar_request env =
     with_mac_and_items env (\<lambda>mac items. request env (\<lambda>e. service_linkchar_request e mac items))"

definition handle_linkchar_reply :: "cli_env \<Rightarrow> string \<Rightarrow> unit cli_comp" where
  "handle_linkchar_reply env cmd_name =
     bnd (asks token_count) (\<lambda>n.
     if n < 3 then help_linkchar_reply cmd_name
     else
       bnd next_token (\<lambda>peer_id.
       with_mac_and_items env (\<lambda>mac items. request env (\<lambda>e. service_linkchar_reply e peer_id mac items))))"

definition handle_linkchar :: "cli_env \<Rightarrow> string \<Rightarrow> unit cli_comp" where
  "handle_linkchar env cmd_name =
     bnd (asks token_count) (\<lambda>n.
     if n < 2 then help_linkchar cmd_name
     else
       bnd next_token (\<lambda>subcommand.
       if subcommand = ''request'' then handle_linkchar_request env
       else if subcommand = ''reply'' then handle_linkchar_reply env cmd_name
       else next_do (invalid_subcommand subcommand cmd_name) (help_linkchar cmd_name)))"

definition handle_peer_update :: "cli_env \<Rightarrow> unit cli_comp" where
  "handle_peer_update env =
     bnd (parse_data_items env) (\<lambda>r.
     case r of None \<Rightarrow> ret () | Some items \<Rightarrow> request env (\<lambda>e. service_peer_update e items))"

definition handle_peer :: "cli_env \<Rightarrow> string \<Rightarrow> unit cli_comp" where
  "handle_peer env cmd_name =
     bnd (asks token_count) (\<lambda>n.
     if n < 2 then help_peer cmd_name
     else
       bnd next_token (\<lambda>subcommand.
       if subcommand = ''update'' then handle_peer_update env
       else next_do (invalid_subcommand subcommand cmd_name) (help_peer cmd_name)))"

text \<open>\<open>parse_parameter\<close> reports its errors itself; its result is not looked at.\<close>

definition handle_set :: "cli_env \<Rightarrow> string \<Rightarrow> unit cli_comp" where
  "handle_set env cmd_name =
     bnd (asks token_count) (\<lambda>n.
     if n \<noteq> 3 then help_set cmd_name
     else
       bnd next_token (\<lambda>param_name.
       bnd next_token (\<lambda>param_value.
       bnd (asks (\<lambda>cli. parse_parameter (cv_client env) (cv_depth env) param_name param_value (cli_client cli))) (\<lambda>(r, cl).
       bnd (lift r) (\<lambda>_. change (\<lambda>cli. cli\<lparr>cli_client := cl\<rparr>))))))"

section \<open>Tables of the protocol configuration\<close>

type_synonym 'a table_comp = "(Table, 'a) comp"

definition field :: "string \<Rightarrow> unit table_comp" where
  "field val t = rbind (add_field val t) (\<lambda>t'. Inr ((), t'))"

definition named_field :: "string \<Rightarrow> string \<Rightarrow> unit table_comp" where
  "named_field field_name val t = rbind (add_named_field field_name val t) (\<lambda>t'. Inr ((), t'))"

definition end_row :: "unit table_comp" where
  "end_row = change (finish_row False)"

definition fill_table :: "string list \<Rightarrow> 'a table_comp \<Rightarrow> ('a \<times> string list) res" where
  "fill_table headings m = rbind (m (new_Table headings)) (\<lambda>(x, t). Inr (x, print_table t))"

definition data_item_headings :: "string list" where
  "data_item_headings = [''ID'', ''Name'', ''Type'', ''Units'', ''Module'', ''Flags'',
     ''SubDataItem ID'', ''SubDataItem Name'', ''Occurs'']"

definition data_item_rows :: "ProtocolConfig \<Rightarrow> DataItemInfo \<Rightarrow> unit table_comp" where
  "data_item_rows cfg di_info =
     next_do (when_do (dii_id di_info \<noteq> IdUndefined) (field (to_string_word (dii_id di_info))))
     (next_do (named_field ''Name'' (dii_name di_info))
     (next_do (bnd (lift (value_type_to_string (dii_value_type di_info))) field)
     (next_do (field (dii_units di_info))
     (next_do (field (dii_module di_info))
     (next_do (when_do (dii_flags di_info AND flag_metric \<noteq> 0) (field ''metric''))
     (next_do (each (\<lambda>sub_di_info.
        next_do (named_field ''SubDataItem ID'' (to_string_word (sdi_id sub_di_info)))
        (next_do (bnd (lift (get_data_item_name cfg (sdi_id sub_di_info) (Some di_info))) field)
        (next_do (field (sdi_occurs sub_di_info)) end_row))) (dii_sub_data_items di_info))
     end_row))))))"

definition handle_show_data_item_info :: "cli_env \<Rightarrow> unit cli_comp" where
  "handle_show_data_item_info env =
     bnd (lift (fill_table data_item_headings
       (each (data_item_rows (cv_cfg env)) (get_data_item_info_list (cv_cfg env) [])))) (\<lambda>(_, ls).
     say (''Configured data items:'' # ls))"

definition signal_headings :: "string list" where
  "signal_headings = [''ID'', ''Name'', ''Module'', ''Response'', ''Flags'', ''Data Item'', ''Occurs'']"

definition response_name :: "ProtocolConfig \<Rightarrow> SignalInfo \<Rightarrow> string res" where
  "response_name cfg sig_info =
     (if si_flags sig_info AND flag_message \<noteq> 0 then get_message_name cfg (si_response_id sig_info)
      else get_signal_name cfg (si_response_id sig_info))"

definition signal_rows_at :: "ProtocolConfig \<Rightarrow> SignalInfo \<Rightarrow> nat \<Rightarrow> unit table_comp" where
  "signal_rows_at cfg sig_info sig_starting_row =
     next_do (field (to_string_word (si_id sig_info)))
     (next_do (field (si_name sig_info))
     (next_do (field (si_module sig_info))
     (next_do (when_do (si_response_id sig_info \<noteq> 0) (bnd (lift (response_name cfg sig_info)) (named_field ''Response'')))
     (next_do (named_field ''Flags'' (if si_flags sig_info AND flag_message \<noteq> 0 then ''message'' else ''signal''))
     (next_do end_row
     (next_do (when_do (si_flags sig_info AND flag_modem_sends \<noteq> 0) (next_do (named_field ''Flags'' ''modem sends'') end_row))
     (next_do (when_do (si_flags sig_info AND flag_router_sends \<noteq> 0) (next_do (named_field ''Flags'' ''router sends'') end_row))
     (next_do (change (set_row_index sig_starting_row))
     (next_do (each (\<lambda>difs.
        next_do (bnd (lift (get_data_item_name cfg (sdi_id difs) None)) (named_field ''Data Item''))
        (next_do (field (sdi_occurs difs)) end_row)) (si_data_items sig_info))
     (change set_row_index_end))))))))))"

definition signal_rows :: "ProtocolConfig \<Rightarrow> SignalInfo \<Rightarrow> unit table_comp" where
  "signal_rows cfg sig_info = bnd (asks tb_current_row) (signal_rows_at cfg sig_info)"

definition handle_show_signals :: "cli_env \<Rightarrow> unit cli_comp" where
  "handle_show_signals env =
     bnd (lift (fill_table signal_headings
       (each (signal_rows (cv_cfg env)) (get_signal_info_list (cv_cfg env) [])))) (\<lambda>(_, ls).
     say (''Configured signals/messages:'' # ls))"

definition module_headings :: "string list" where
  "module_headings = [''Name'', ''Draft'', ''ExpName'', ''ExtId'', ''Provides'', ''Provided Name'']"

definition provides_row :: "string \<Rightarrow> string res \<Rightarrow> unit table_comp" where
  "provides_row kind name = next_do (named_field ''Provides'' kind) (next_do (bnd (lift name) field) end_row)"

definition module_rows :: "ProtocolConfig \<Rightarrow> ModuleInfo \<Rightarrow> unit table_comp" where
  "module_rows cfg modinfo =
     next_do (field (mi_name modinfo))
     (next_do (field (mi_draft modinfo))
     (next_do (field (mi_experiment_name modinfo))
     (next_do (when_do (mi_extension_id modinfo \<noteq> 0) (field (to_string_word (mi_extension_id modinfo))))
     (next_do end_row
     (next_do (each (\<lambda>di_name. provides_row ''data item'' (Inr di_name)) (mi_data_items modinfo))
     (next_do (each (\<lambda>i. provides_row ''signal'' (get_signal_name cfg i)) (mi_signals modinfo))
     (next_do (each (\<lambda>i. provides_row ''message'' (get_message_name cfg i)) (mi_messages modinfo))
     (each (\<lambda>i. provides_row ''status code'' (get_status_code_name cfg i)) (mi_status_codes modinfo)))))))))"

definition handle_show_modules :: "cli_env \<Rightarrow> unit cli_comp" where
  "handle_show_modules env =
     bnd (lift (fill_table module_headings
       (each (module_rows (cv_cfg env)) (get_module_info_list (cv_cfg env) [])))) (\<lambda>(_, ls).
     say (''Configured modules:'' # ls))"

definition status_code_headings :: "string list" where
  "status_code_headings = [''ID'', ''Name'', ''FailureMode'', ''Module'']"

definition status_code_row :: "StatusCodeInfo \<Rightarrow> unit table_comp" where
  "status_code_row sc_info =
     next_do (field (to_string_word (sc_id sc_info)))
     (next_do (field (sc_name sc_info))
     (next_do (field (sc_failure_mode sc_info))
     (next_do (field (sc_module sc_info)) end_row)))"

definition handle_show_statuscodes :: "cli_env \<Rightarrow> unit cli_comp" where
  "handle_show_statuscodes env =
     bnd (lift (fill_table status_code_headings
       (each status_code_row (get_status_code_info_list (cv_cfg env) [])))) (\<lambda>(_, ls).
     say (''Configured status codes:'' # ls))"

section \<open>Tables of the sessions\<close>

definition handle_show_peer :: "cli_env \<Rightarrow> string \<Rightarrow> unit cli_comp" where
  "handle_show_peer env cmd_name =
     bnd (asks token_count) (\<lambda>n.
     if n = 2
     then next_do (bnd (asks (\<lambda>cli. service_get_peers [] (cli_node cli))) (\<lambda>peers. say (''peer ids:'' # peers)))
            (print_dlep_service_return_status rs_ok)
     else if n = 3
     then
       bnd next_token (\<lambda>peer_id.
       bnd (asks (\<lambda>cli. service_get_peer_info peer_id (cli_node cli))) (\<lambda>r.
       case r of
         Inl status \<Rightarrow> print_dlep_service_return_status status
       | Inr peer_info \<Rightarrow>
           next_do (bnd (lift (print_peer_info (cv_ip_text env) (cv_cfg env) peer_info)) say)
             (print_dlep_service_return_status rs_ok)))
     else help_show_peer cmd_name)"

definition dest_headings :: "string list" where
  "dest_headings = [''Destination MAC'', ''Peer'', ''Flags'', ''Data Item Name'', ''Data Item Value'']"

definition dest_rows :: "cli_env \<Rightarrow> DestinationInfo \<Rightarrow> unit table_comp" where
  "dest_rows env dest_info =
     next_do (field (mac_to_string (di_mac_address dest_info)))
     (next_do (field (di_peer_id dest_info))
     (next_do (field (to_string_word (di_flags dest_info)))
     (next_do (each (\<lambda>di.
        bnd (lift (data_item_name (cv_cfg env) None di)) (\<lambda>di_name.
        when_do (di_name \<noteq> ''MAC_Address'')
          (next_do (named_field ''Data Item Name'' di_name)
          (next_do (bnd (lift (data_item_value_to_string (cv_ip_text env) (cv_cfg env) None di)) (named_field ''Data Item Value''))
             end_row)))) (di_data_items dest_info))
     end_row)))"

text \<open>The two loops; the status is that of the last request made.\<close>

fun dests_loop ::
    "cli_env \<Rightarrow> Dlep \<Rightarrow> DlepMac option \<Rightarrow> string \<Rightarrow> DlepMac list \<Rightarrow> ReturnStatus \<Rightarrow> ReturnStatus table_comp" where
  "dests_loop env d specific_mac peer_id [] r = ret r"
| "dests_loop env d specific_mac peer_id (mac # macs) r =
     (if specific_mac \<noteq> None \<and> specific_mac \<noteq> Some mac then dests_loop env d specific_mac peer_id macs r
      else case service_get_destination_info peer_id mac d of
        Inl r' \<Rightarrow> dests_loop env d specific_mac peer_id macs r'
      | Inr dest_info \<Rightarrow> next_do (dest_rows env dest_info) (dests_loop env d specific_mac peer_id macs rs_ok))"

fun peers_loop :: "cli_env \<Rightarrow> Dlep \<Rightarrow> DlepMac option \<Rightarrow> string list \<Rightarrow> ReturnStatus \<Rightarrow> ReturnStatus table_comp" where
  "peers_loop env d specific_mac [] r = ret r"
| "peers_loop env d specific_mac (peer_id # peers) r =
     (case service_get_peer_info peer_id d of
        Inl r' \<Rightarrow> peers_loop env d specific_mac peers r'
      | Inr peer_info \<Rightarrow>
          bnd (dests_loop env d specific_mac peer_id (pi_destinations peer_info) rs_ok) (\<lambda>r'.
          peers_loop env d specific_mac peers r'))"

definition show_destinations :: "cli_env \<Rightarrow> DlepMac option \<Rightarrow> unit cli_comp" where
  "show_destinations env specific_mac =
     bnd (asks cli_node) (\<lambda>d.
     bnd (lift (fill_table dest_headings (peers_loop env d specific_mac (service_get_peers [] d) rs_ok))) (\<lambda>(r, ls).
     next_do (say ls) (print_dlep_service_return_status r)))"

definition handle_show_destination :: "cli_env \<Rightarrow> string \<Rightarrow> unit cli_comp" where
  "handle_show_destination env cmd_name =
     bnd (asks token_count) (\<lambda>n.
     if n > 3 then help_show_destination cmd_name
     else if n = 3
     then bnd (parse_mac_address env) (\<lambda>m. case m of None \<Rightarrow> ret () | Some mac \<Rightarrow> show_destinations env (Some mac))
     else show_destinations env None)"

definition handle_show :: "cli_env \<Rightarrow> string \<Rightarrow> unit cli_comp" where
  "handle_show env cmd_name =
     bnd (asks token_count) (\<lambda>n.
     if n < 2 then help_show cmd_name
     else
       bnd next_token (\<lambda>subcommand.
       if subcommand = ''dataitems'' then handle_show_data_item_info env
       else if subcommand = ''config''
       then bnd (asks cli_client) (\<lambda>cl. say (''Configuration parameters:'' # print_config (cv_client env) cl))
       else if subcommand = ''signals'' then handle_show_signals env
       else if subcommand = ''modules'' then handle_show_modules env
       else if subcommand = ''statuscodes'' then handle_show_statuscodes env
       else if subcommand = ''peer'' then handle_show_peer env cmd_name
       else if subcommand = ''dest'' then handle_show_destination env cmd_name
       else next_do (invalid_subcommand subcommand cmd_name) (help_show cmd_name)))"

section \<open>The loop over the lines\<close>

definition help_info :: "(string \<times> (string \<Rightarrow> unit cli_comp)) list" where
  "help_info =
     [(''help'', help_help), (''quit'', help_quit), (''dest'', help_destination), (''linkchar'', help_linkchar),
      (''peer'', help_peer), (''set'', help_set), (''show'', help_show)]"

definition handle_help :: "string \<Rightarrow> unit cli_comp" where
  "handle_help cmd_name = each (\<lambda>(name, help_handler). help_handler name) help_info"

definition handle_quit :: "string \<Rightarrow> unit cli_comp" where
  "handle_quit cmd_name = change (\<lambda>cli. cli\<lparr>cli_continue := False\<rparr>)"

definition command_info :: "cli_env \<Rightarrow> (string \<times> (string \<Rightarrow> unit cli_comp)) list" where
  "command_info env =
     [(''help'', handle_help), (''quit'', handle_quit), (''dest'', handle_destination env),
      (''linkchar'', handle_linkchar env), (''peer'', handle_peer env), (''set'', handle_set env), (''show'', handle_show env)]"

fun dispatch :: "(string \<times> (string \<Rightarrow> unit cli_comp)) list \<Rightarrow> string \<Rightarrow> unit cli_comp" where
  "dispatch [] cmd_token = say [''command '' @ cmd_token @ '' not recognized'']"
| "dispatch ((cmd_name, cmd_handler) # cis) cmd_token =
     (if cmd_token = cmd_name then cmd_handler cmd_name else dispatch cis cmd_token)"

definition run_line :: "cli_env \<Rightarrow> string \<Rightarrow> unit cli_comp" where
  "run_line env line =
     next_do (change (\<lambda>cli. cli\<lparr>cli_help_dataitems_printed := False, cli_tokens := tokenize line, cli_current_token := 0\<rparr>))
     (bnd (asks token_count) (\<lambda>n.
      if n = 0 then ret () else bnd next_token (dispatch (command_info env))))"

text \<open>Between the lines the library handles what comes from the network.\<close>

datatype cli_input = Line string | Library node_event

fun run_input :: "cli_env \<Rightarrow> (bytes \<Rightarrow> DestinationAdvertisement option) \<Rightarrow> cli_input \<Rightarrow> unit cli_comp" where
  "run_input env pb_parse (Line line) = run_line env line"
| "run_input env pb_parse (Library ev) = run_service env (\<lambda>e. handle_node_event e pb_parse ev)"

fun run_inputs :: "cli_env \<Rightarrow> (bytes \<Rightarrow> DestinationAdvertisement option) \<Rightarrow> cli_input list \<Rightarrow> unit cli_comp" where
  "run_inputs env pb_parse [] = ret ()"
| "run_inputs env pb_parse (i # inputs) =
     bnd (asks cli_continue) (\<lambda>continue.
     if \<not> continue then ret () else next_do (run_input env pb_parse i) (run_inputs env pb_parse inputs))"

definition prompt :: "DlepClientImpl \<Rightarrow> string res" where
  "prompt cl =
     rbind (try_catch (get_config_string cl ''peer-type'') is_BadParameterName (get_config_string cl ''local-type'')) (\<lambda>s.
     Inr (s @ ''> ''))"

definition run :: "cli_env \<Rightarrow> (bytes \<Rightarrow> DestinationAdvertisement option) \<Rightarrow> cli_input list \<Rightarrow> unit cli_comp" where
  "run env pb_parse inputs =
     next_do (say [''Use '' @ quoted ''help'' @ '' to see a list of possible commands.''])
     (bnd (asks cli_client) (\<lambda>cl.
      bnd (lift (prompt cl)) (\<lambda>_.
      next_do (change (\<lambda>cli. cli\<lparr>cli_continue := True\<rparr>)) (run_inputs env pb_parse inputs))))"

section \<open>The program\<close>

text \<open>What start-up gets from this client.\<close>

definition client_start :: "DlepClientImpl \<Rightarrow> start_env \<Rightarrow> start_env" where
  "client_start cl st = st\<lparr>st_session := client_session_env cl (st_session st), st_address := get_config_address cl,
     st_unsigneds := get_config_unsigneds cl\<rparr>"

text \<open>The exit code, and the interface when the library was started.\<close>

definition main :: "cli_env \<Rightarrow> start_env \<Rightarrow> string list \<Rightarrow> cli_input list \<Rightarrow> (nat \<times> DlepCli option) res" where
  "main env st argv inputs =
     (case parse_args (cv_client env) (cv_depth env) argv new_DlepClientImpl of
        (Inl e, _) \<Rightarrow> Inl e
      | (Inr ok, cl) \<Rightarrow>
          if \<not> ok then rbind (usage (cv_client env)) (\<lambda>_. Inr (1, None))
          else (case load_defaults (cv_client env) (cv_depth env) cl of
            (Inl e, _) \<Rightarrow> Inl e
          | (Inr ok, cl) \<Rightarrow>
              if \<not> ok then Inr (2, None)
              else rbind (DlepInit (client_start cl st)) (\<lambda>service.
                case service of
                  None \<Rightarrow> Inr (4, None)
                | Some sd \<Rightarrow>
                    let env = env\<lparr>cv_session := sd_env sd\<rparr>
                    in rbind (next_do (run env (st_parse st) inputs) (run_service env service_terminate)
                                (new_DlepCli cl (sd_node sd))) (\<lambda>(_, cli).
                       Inr (0, Some cli)))))"

end
