(* ===== verification/CliProperties.thy ===== *)
theory CliProperties
  imports DlepCli
begin

text \<open>
  What holds of the command line interface: how lines are split, that a line makes at most one
  request of the service and never reads beyond its tokens, that typed data items and MAC
  addresses are those that were printed, and what the program as a whole guarantees.
\<close>

section \<open>Tokens\<close>

text \<open>The words of a line, character by character; \<open>w\<close> is the word being read.\<close>

fun words_of :: "string \<Rightarrow> string \<Rightarrow> string list" where
  "words_of w [] = (if w = [] then [] else [w])"
| "words_of w (c # cs) = (if is_ws c then (if w = [] then words_of [] cs else w # words_of [] cs) else words_of (w @ [c]) cs)"

definition token_ok :: "string \<Rightarrow> bool" where
  "token_ok t \<longleftrightarrow> t \<noteq> [] \<and> list_all (\<lambda>c. \<not> is_ws c) t"

lemma words_of_word: "list_all (\<lambda>c. \<not> is_ws c) u \<Longrightarrow> words_of w (u @ cs) = words_of (w @ u) cs"
  by (induction u arbitrary: w) simp_all

lemma words_of_skip: "list_all is_ws u \<Longrightarrow> words_of [] (u @ cs) = words_of [] cs"
  by (induction u) simp_all

lemma words_of_token: "token_ok t \<Longrightarrow> cs = [] \<or> is_ws (hd cs) \<Longrightarrow> words_of [] (t @ cs) = t # words_of [] cs"
  using words_of_word[of t "[]" cs] by (cases cs) (auto simp: token_ok_def)

lemma token_ok_words: "list_all (\<lambda>c. \<not> is_ws c) w \<Longrightarrow> t \<in> set (words_of w cs) \<Longrightarrow> token_ok t"
  by (induction w cs rule: words_of.induct) (auto simp: token_ok_def split: if_splits)

lemma words_of_joined: "list_all token_ok ts \<Longrightarrow> words_of [] (concat (map (\<lambda>t. t @ '' '') ts)) = ts"
  by (induction ts) (simp_all add: words_of_token is_ws_def)

lemma takeWhile_all: "list_all P (takeWhile P xs)"
  by (induction xs) simp_all

lemma drop_found:
  "drop pos line = takeWhile (\<lambda>c. \<not> P c) (drop pos line) @ drop (pos + length (takeWhile (\<lambda>c. \<not> P c) (drop pos line))) line"
  using takeWhile_dropWhile_id[of "\<lambda>c. \<not> P c" "drop pos line"]
  by (simp add: dropWhile_eq_drop add.commute)

lemma tokenize_loop_words: "tokenize_loop line (Some c) = words_of [] (drop c line)"
proof (induction "length line - c" arbitrary: c rule: less_induct)
  case less
  let ?sp = "takeWhile (\<lambda>x. \<not> \<not> is_ws x) (drop c line)"
  have skip: "words_of [] (drop c line) = words_of [] (drop (c + length ?sp) line)"
    by (subst drop_found[of c line "\<lambda>x. \<not> is_ws x"]) (simp add: words_of_skip takeWhile_all)
  show ?case
  proof (cases "find_first (\<lambda>x. \<not> is_ws x) line c")
    case None
    then have "drop (c + length ?sp) line = []" by (auto simp: find_first_def Let_def split: if_splits)
    with skip None show ?thesis by (simp add: tokenize_loop.simps[of line "Some c"])
  next
    case (Some b)
    define tok where "tok = takeWhile (\<lambda>x. \<not> is_ws x) (drop b line)"
    let ?e = "b + length tok"
    have b: "b = c + length ?sp" using Some by (auto simp: find_first_def Let_def split: if_splits)
    from find_first_Some[OF Some] have in_line: "c \<le> b" "b < length line" "\<not> is_ws (line ! b)" by simp_all
    have tok: "token_ok tok"
      using in_line takeWhile_all[of "\<lambda>x. \<not> is_ws x" "drop b line"] by (simp add: tok_def token_ok_def Cons_nth_drop_Suc[symmetric])
    then have more: "0 < length tok" by (simp add: token_ok_def)
    have split: "drop b line = tok @ drop ?e line" unfolding tok_def by (rule drop_found)
    have le: "?e \<le> length line" unfolding tok_def
      using length_takeWhile_le[of "\<lambda>x. \<not> is_ws x" "drop b line"] in_line(2) by simp
    show ?thesis
    proof (cases "find_first is_ws line b")
      case None
      then have "?e = length line" using le by (auto simp: find_first_def Let_def tok_def[symmetric] split: if_splits)
      with split words_of_token[OF tok, of "[]"] have "words_of [] (drop b line) = [drop b line]" by simp
      with None Some skip b show ?thesis
        by (simp add: tokenize_loop.simps[of line "Some c"] tokenize_loop.simps[of line None])
    next
      case end_at: (Some e)
      then have e: "e = ?e" by (auto simp: find_first_def Let_def tok_def[symmetric] split: if_splits)
      from find_first_Some[OF end_at] have in_line': "e < length line" "is_ws (line ! e)" by simp_all
      then have "words_of [] (drop b line) = tok # words_of [] (drop e line)"
        using words_of_token[OF tok, of "drop e line"] split e by (simp add: hd_drop_conv_nth)
      moreover have "tokenize_loop line (Some e) = words_of [] (drop e line)"
        by (rule less) (use in_line in_line' e more in linarith)
      moreover have "take (e - b) (drop b line) = tok" unfolding split e by simp
      ultimately show ?thesis
        using end_at Some skip b by (simp add: tokenize_loop.simps[of line "Some c"])
    qed
  qed
qed

lemma tokenize_words: "tokenize line = words_of [] line"
  using tokenize_loop_words[of line 0] by (simp add: tokenize_def)

text \<open>
  a line is split into its words. The tokens are what reading the line character by
  character gives, none is empty or contains white space, and splitting the tokens joined
  again, as the reader of data items gets them, gives the same tokens.
\<close>

lemma tokenize_correct:
  "tokenize line = words_of [] line \<and> list_all token_ok (tokenize line)
   \<and> tokenize (concat (map (\<lambda>t. t @ '' '') (tokenize line))) = tokenize line"
proof -
  have "list_all token_ok (words_of [] line)" using token_ok_words[of "[]" _ line] by (simp add: list_all_iff)
  then show ?thesis by (simp add: tokenize_words words_of_joined)
qed

section \<open>Outcomes\<close>

text \<open>From a state in \<open>P\<close>, \<open>m\<close> returns in \<open>Q\<close> or throws one of the exceptions \<open>E\<close>.\<close>

definition outcome :: "(exn \<Rightarrow> bool) \<Rightarrow> ('s \<Rightarrow> bool) \<Rightarrow> ('s, 'a) comp \<Rightarrow> ('a \<Rightarrow> 's \<Rightarrow> bool) \<Rightarrow> bool" where
  "outcome E P m Q \<longleftrightarrow> (\<forall>s. P s \<longrightarrow> (case m s of Inl e \<Rightarrow> E e | Inr (x, s') \<Rightarrow> Q x s'))"

lemma outcomeI: "(\<And>s. P s \<Longrightarrow> case m s of Inl e \<Rightarrow> E e | Inr (x, s') \<Rightarrow> Q x s') \<Longrightarrow> outcome E P m Q"
  by (simp add: outcome_def)

lemma outcome_conseq:
  "outcome E P m Q \<Longrightarrow> (\<And>s. P' s \<Longrightarrow> P s) \<Longrightarrow> (\<And>x s. Q x s \<Longrightarrow> Q' x s) \<Longrightarrow> outcome E P' m Q'"
  by (fastforce simp: outcome_def split: sum.splits)

lemma outcome_ret: "(\<And>s. P s \<Longrightarrow> Q x s) \<Longrightarrow> outcome E P (ret x) Q"
  by (simp add: outcome_def comp_simps)

lemma outcome_throw: "E e \<Longrightarrow> outcome E P (throw e) Q"
  by (simp add: outcome_def comp_simps)

lemma outcome_change: "(\<And>s. P s \<Longrightarrow> Q () (f s)) \<Longrightarrow> outcome E P (change f) Q"
  by (simp add: outcome_def comp_simps)

lemma outcome_asks: "(\<And>x. outcome E (\<lambda>s. P s \<and> x = g s) (f x) Q) \<Longrightarrow> outcome E P (bnd (asks g) f) Q"
  by (simp add: outcome_def comp_simps)

lemma outcome_read: "(\<And>x. outcome E P (f x) Q) \<Longrightarrow> outcome E P (bnd (asks g) f) Q"
  by (simp add: outcome_def comp_simps)

lemma outcome_lift: "(\<And>e. r = Inl e \<Longrightarrow> E e) \<Longrightarrow> (\<And>x. r = Inr x \<Longrightarrow> outcome E P (f x) Q) \<Longrightarrow> outcome E P (bnd (lift r) f) Q"
  by (cases r) (auto simp: outcome_def comp_simps)

lemma outcome_bnd: "outcome E P m R \<Longrightarrow> (\<And>x. outcome E (R x) (f x) Q) \<Longrightarrow> outcome E P (bnd m f) Q"
  by (fastforce simp: outcome_def comp_simps split: sum.splits)

lemma outcome_next: "outcome E P m (\<lambda>_. R) \<Longrightarrow> outcome E R n Q \<Longrightarrow> outcome E P (next_do m n) Q"
  unfolding next_do_def by (rule outcome_bnd)

lemma outcome_when: "outcome E P m (\<lambda>_. R) \<Longrightarrow> (\<And>s. P s \<Longrightarrow> R s) \<Longrightarrow> outcome E P (when_do b m) (\<lambda>_. R)"
  by (simp add: when_do_def outcome_ret)

lemma outcome_each: "(\<And>x. x \<in> set xs \<Longrightarrow> outcome E P (f x) (\<lambda>_. P)) \<Longrightarrow> outcome E P (each f xs) (\<lambda>_. P)"
  by (induction xs) (auto intro: outcome_ret outcome_next)

lemma outcome_if: "(b \<Longrightarrow> outcome E P m Q) \<Longrightarrow> (\<not> b \<Longrightarrow> outcome E P n Q) \<Longrightarrow> outcome E P (if b then m else n) Q"
  by simp

section \<open>Tables have room\<close>

definition room :: "string list \<Rightarrow> nat \<Rightarrow> Table \<Rightarrow> bool" where
  "room headings c t \<longleftrightarrow>
     rows_ok t \<and> tb_rows t ! 0 = headings \<and> tb_current_row t \<noteq> 0 \<and> tb_current_column t \<le> c"

lemma rows_ok_position [simp]:
  "rows_ok (t\<lparr>tb_current_column := c\<rparr>) \<longleftrightarrow> rows_ok t" "rows_ok (t\<lparr>tb_current_row := r\<rparr>) \<longleftrightarrow> rows_ok t"
  by (simp_all add: rows_ok_def width_def)

lemma rows_ok_first: "rows_ok t \<Longrightarrow> 0 < length (tb_rows t)"
  by (simp add: rows_ok_def)

lemma room_mono: "room headings c t \<Longrightarrow> c \<le> c' \<Longrightarrow> room headings c' t"
  by (simp add: room_def)

lemma room_new: "room headings 0 (new_Table headings)"
  by (simp add: room_def) (simp add: new_Table_def)

lemma add_field_room:
  assumes "rows_ok t" and "tb_rows t ! 0 = headings" and "tb_current_row t \<noteq> 0" and "tb_current_column t < length headings"
  shows "\<exists>t'. add_field val t = Inr t' \<and> room headings (Suc (tb_current_column t)) t'"
proof -
  from assms(2,4) have "tb_current_column t < width t" by (simp add: width_def)
  from add_field_ok[OF assms(1,3) this, of val] obtain t' where "add_field val t = Inr t'" "rows_ok t'"
    "tb_rows t' ! 0 = tb_rows t ! 0" "tb_current_row t' = tb_current_row t" "tb_current_column t' = tb_current_column t + 1" .
  with assms show ?thesis by (auto simp: room_def)
qed

lemma outcome_field: "c < length headings \<Longrightarrow> outcome E (room headings c) (field val) (\<lambda>_. room headings (Suc c))"
proof (rule outcomeI)
  fix t assume "c < length headings" "room headings c t"
  with add_field_room[of t headings val] show "case field val t of Inl e \<Rightarrow> E e | Inr (x, t') \<Rightarrow> room headings (Suc c) t'"
    by (auto simp: room_def field_def)
qed

lemma outcome_named_field:
  "field_name \<in> set headings \<Longrightarrow>
   outcome E (room headings c) (named_field field_name val) (\<lambda>_. room headings (Suc (find_heading field_name headings)))"
proof (rule outcomeI)
  fix t assume "field_name \<in> set headings" "room headings c t"
  with find_heading_less[of field_name headings]
    add_field_room[of "t\<lparr>tb_current_column := find_heading field_name headings\<rparr>" headings val]
  show "case named_field field_name val t of Inl e \<Rightarrow> E e
      | Inr (x, t') \<Rightarrow> room headings (Suc (find_heading field_name headings)) t'"
    by (auto simp: room_def named_field_def add_named_field_def)
qed

lemma outcome_end_row: "outcome E (room headings c) end_row (\<lambda>_. room headings 0)"
  unfolding end_row_def by (rule outcome_change) (auto simp: room_def finish_row_def)

lemma outcome_row_index: "r \<noteq> 0 \<Longrightarrow> outcome E (room headings c) (change (set_row_index r)) (\<lambda>_. room headings c)"
  by (rule outcome_change) (auto simp: room_def set_row_index_def)

lemma outcome_row_index_end: "outcome E (room headings c) (change set_row_index_end) (\<lambda>_. room headings c)"
  by (rule outcome_change) (auto simp: room_def set_row_index_end_def dest: rows_ok_first)

lemma outcome_weaken: "outcome E (room headings c') m Q \<Longrightarrow> c \<le> c' \<Longrightarrow> outcome E (room headings c) m Q"
  by (erule outcome_conseq) (auto intro: room_mono)

lemma outcome_fill:
  assumes "outcome E (room headings 0) m (\<lambda>_. room headings 0)"
  shows "case fill_table headings m of Inl e \<Rightarrow> E e | Inr (x, ls) \<Rightarrow> \<exists>t. rows_ok t \<and> ls = print_table t"
proof -
  from assms room_new have "case m (new_Table headings) of Inl e \<Rightarrow> E e | Inr (x, t) \<Rightarrow> room headings 0 t"
    unfolding outcome_def by blast
  then show ?thesis by (auto simp: fill_table_def room_def split: sum.splits)
qed

lemma outcome_end_row_any: "outcome E (room headings c) end_row (\<lambda>_. room headings c')"
  by (rule outcome_conseq[OF outcome_end_row]) (auto intro: room_mono)

lemmas table_rules = outcome_next outcome_when outcome_field outcome_named_field outcome_lift outcome_each
  outcome_end_row outcome_end_row_any

lemma names_std:
  "get_data_item_name cfg i p = Inl e \<Longrightarrow> is_std_exception e"
  "get_signal_name cfg i = Inl e \<Longrightarrow> is_std_exception e"
  "get_message_name cfg i = Inl e \<Longrightarrow> is_std_exception e"
  "get_status_code_name cfg i = Inl e \<Longrightarrow> is_std_exception e"
  "value_type_to_string t = Inl e \<Longrightarrow> is_std_exception e"
  "get_data_item_info_by_name cfg n = Inl e \<Longrightarrow> is_std_exception e"
  by (auto simp: get_data_item_name_def get_signal_name_def get_message_name_def get_status_code_name_def
      value_type_to_string_def get_data_item_info_by_name_def split: option.splits list.splits)

lemma printing_std:
  shows "value_to_string_visit ip cfg p v = Inl e \<Longrightarrow> is_std_exception e"
    and "data_item_to_string ip cfg p di = Inl e \<Longrightarrow> is_std_exception e"
    and "sub_data_items_to_string ip cfg p sdis = Inl e \<Longrightarrow> is_std_exception e"
  by (induction ip cfg p v and ip cfg p di and ip cfg p sdis
      rule: value_to_string_visit_data_item_to_string_sub_data_items_to_string.induct)
    (auto simp: res_simps dest: names_std)

lemma response_name_std: "response_name cfg sig_info = Inl e \<Longrightarrow> is_std_exception e"
  by (auto simp: response_name_def dest: names_std split: if_splits)

lemmas lookups_std = names_std printing_std response_name_std

lemma data_item_rows_room: "outcome is_std_exception (room data_item_headings 0) (data_item_rows cfg info) (\<lambda>_. room data_item_headings 0)"
  unfolding data_item_rows_def
  by (rule table_rules | force simp: data_item_headings_def dest: lookups_std intro: room_mono)+

lemma provides_row_room:
  "(\<And>e. name = Inl e \<Longrightarrow> is_std_exception e) \<Longrightarrow>
   outcome is_std_exception (room module_headings c) (provides_row kind name) (\<lambda>_. room module_headings c)"
  unfolding provides_row_def
  by (rule table_rules | force simp: module_headings_def)+

lemma module_rows_room: "outcome is_std_exception (room module_headings 0) (module_rows cfg info) (\<lambda>_. room module_headings 0)"
  unfolding module_rows_def
  by (rule table_rules provides_row_room | force simp: module_headings_def dest: lookups_std intro: room_mono)+

lemma status_code_row_room: "outcome is_std_exception (room status_code_headings 0) (status_code_row info) (\<lambda>_. room status_code_headings 0)"
  unfolding status_code_row_def
  by (rule table_rules | force simp: status_code_headings_def)+

lemma signal_rows_room: "outcome is_std_exception (room signal_headings 0) (signal_rows cfg info) (\<lambda>_. room signal_headings 0)"
  unfolding signal_rows_def
proof (rule outcome_asks)
  fix r
  have "outcome is_std_exception (room signal_headings 0) (signal_rows_at cfg info r) (\<lambda>_. room signal_headings 0)" if "r \<noteq> 0"
    unfolding signal_rows_at_def
    by (rule table_rules outcome_row_index[OF that] outcome_row_index_end
      | force simp: signal_headings_def dest: lookups_std intro: room_mono)+
  then show "outcome is_std_exception (\<lambda>s. room signal_headings 0 s \<and> r = tb_current_row s) (signal_rows_at cfg info r)
      (\<lambda>_. room signal_headings 0)"
    by (cases "r = 0") (auto simp: outcome_def room_def)
qed

lemma dest_rows_room: "outcome is_std_exception (room dest_headings 0) (dest_rows env info) (\<lambda>_. room dest_headings 0)"
  unfolding dest_rows_def data_item_name_def data_item_value_to_string_def
  by (rule table_rules | force simp: dest_headings_def dest: lookups_std intro: room_mono)+

lemma dests_loop_room:
  "outcome is_std_exception (room dest_headings 0) (dests_loop env d specific_mac peer_id macs r) (\<lambda>_. room dest_headings 0)"
  by (induction macs arbitrary: r) (auto intro!: outcome_ret outcome_next[OF dest_rows_room] split: sum.splits)

lemma peers_loop_room:
  "outcome is_std_exception (room dest_headings 0) (peers_loop env d specific_mac peers r) (\<lambda>_. room dest_headings 0)"
  by (induction peers arbitrary: r) (auto intro!: outcome_ret outcome_bnd[OF dests_loop_room] split: sum.splits)

text \<open>So every table of the interface is printed from a well-formed one.\<close>

lemma fill_std:
  assumes "outcome is_std_exception (room headings 0) m (\<lambda>_. room headings 0)" and "fill_table headings m = Inl e"
  shows "is_std_exception e"
  using outcome_fill[OF assms(1)] assms(2) by simp

lemmas tables_std = fill_std[OF outcome_each[OF data_item_rows_room]] fill_std[OF outcome_each[OF signal_rows_room]]
  fill_std[OF outcome_each[OF module_rows_room]] fill_std[OF outcome_each[OF status_code_row_room]] fill_std[OF peers_loop_room]

section \<open>A line makes at most one request\<close>

fun is_request :: "node_event \<Rightarrow> bool" where
  "is_request (Up mac items) = True"
| "is_request (Update mac items) = True"
| "is_request (Down mac items) = True"
| "is_request (Our_update items) = True"
| "is_request (Request mac items) = True"
| "is_request (Reply i mac items) = True"
| "is_request _ = False"

text \<open>
  What a line may do to a client and a node, and the exceptions it may end the program with:
  those of a request, of a parameter that cannot be read to its end, and those the standard
  library or the configuration throws.
\<close>

definition line_effect :: "cli_env \<Rightarrow> (bytes \<Rightarrow> DestinationAdvertisement option) \<Rightarrow> DlepClientImpl \<Rightarrow> Dlep \<Rightarrow> DlepCli \<Rightarrow> bool" where
  "line_effect env pb_parse cl d cli \<longleftrightarrow>
     cli_node cli = d \<or> cli_client cli = cl \<and> (\<exists>ev. is_request ev
       \<and> handle_node_event (client_session_env cl (cv_session env)) pb_parse ev d = Inr ((), cli_node cli))"

definition line_error :: "cli_env \<Rightarrow> (bytes \<Rightarrow> DestinationAdvertisement option) \<Rightarrow> DlepClientImpl \<Rightarrow> Dlep \<Rightarrow> exn \<Rightarrow> bool" where
  "line_error env pb_parse cl d e \<longleftrightarrow>
     is_std_exception e
     \<or> (\<exists>ev. is_request ev \<and> handle_node_event (client_session_env cl (cv_session env)) pb_parse ev d = Inl e)
     \<or> (\<exists>name val. fst (parse_parameter (cv_client env) (cv_depth env) name val cl) = Inl e)"

lemma line_error_std: "is_std_exception e \<Longrightarrow> line_error env pb_parse cl d e"
  by (simp add: line_error_def)

definition idle :: "DlepClientImpl \<Rightarrow> Dlep \<Rightarrow> DlepCli \<Rightarrow> bool" where
  "idle cl d cli \<longleftrightarrow> cli_client cli = cl \<and> cli_node cli = d"

definition at_token :: "DlepClientImpl \<Rightarrow> Dlep \<Rightarrow> nat \<Rightarrow> nat \<Rightarrow> DlepCli \<Rightarrow> bool" where
  "at_token cl d k n cli \<longleftrightarrow> idle cl d cli \<and> cli_current_token cli = k \<and> token_count cli = n"

lemma idle_effect: "outcome E P m (\<lambda>_. idle cl d) \<Longrightarrow> outcome E P m (\<lambda>_. line_effect env pb_parse cl d)"
  by (erule outcome_conseq) (auto simp: line_effect_def idle_def)

lemma outcome_at: "outcome E (idle cl d) m Q \<Longrightarrow> outcome E (at_token cl d k n) m Q"
  by (erule outcome_conseq) (simp_all add: at_token_def)

lemma outcome_say: "outcome E (idle cl d) (say ls) (\<lambda>_. idle cl d)"
  unfolding say_def by (rule outcome_change) (simp add: idle_def)

lemma outcome_next_token: "k < n \<Longrightarrow> outcome E (at_token cl d k n) next_token (\<lambda>_. at_token cl d (Suc k) n)"
  by (rule outcomeI) (auto simp: next_token_def at_token_def idle_def token_count_def)

lemma outcome_count: "outcome E (at_token cl d k n) (f n) Q \<Longrightarrow> outcome E (at_token cl d k n) (bnd (asks token_count) f) Q"
  by (auto simp: outcome_def comp_simps at_token_def)

lemma outcome_help_dataitems: "outcome E (idle cl d) help_dataitems (\<lambda>_. idle cl d)"
  unfolding help_dataitems_def
  by (auto intro!: outcomeI simp: comp_simps say_def idle_def)

lemmas idle_rules = outcome_next outcome_say outcome_help_dataitems

lemma help_idle:
  "outcome E (idle cl d) (help_help c) (\<lambda>_. idle cl d)" "outcome E (idle cl d) (help_quit c) (\<lambda>_. idle cl d)"
  "outcome E (idle cl d) (help_destination_up c) (\<lambda>_. idle cl d)" "outcome E (idle cl d) (help_destination_update c) (\<lambda>_. idle cl d)"
  "outcome E (idle cl d) (help_destination_down c) (\<lambda>_. idle cl d)" "outcome E (idle cl d) (help_destination_response c) (\<lambda>_. idle cl d)"
  "outcome E (idle cl d) (help_linkchar_request c) (\<lambda>_. idle cl d)" "outcome E (idle cl d) (help_linkchar_reply c) (\<lambda>_. idle cl d)"
  "outcome E (idle cl d) (help_peer_update c) (\<lambda>_. idle cl d)" "outcome E (idle cl d) (help_set c) (\<lambda>_. idle cl d)"
  "outcome E (idle cl d) (help_show_peer c) (\<lambda>_. idle cl d)" "outcome E (idle cl d) (help_show_destination c) (\<lambda>_. idle cl d)"
  "outcome E (idle cl d) (invalid_subcommand s c) (\<lambda>_. idle cl d)" "outcome E (idle cl d) (print_dlep_service_return_status r) (\<lambda>_. idle cl d)"
  unfolding help_help_def help_quit_def help_destination_up_def help_destination_update_def help_destination_down_def
    help_destination_response_def help_linkchar_request_def help_linkchar_reply_def help_peer_update_def help_set_def
    help_show_peer_def help_show_destination_def invalid_subcommand_def print_dlep_service_return_status_def
  by (rule idle_rules)+

lemma group_help_idle:
  "outcome E (idle cl d) (help_destination c) (\<lambda>_. idle cl d)" "outcome E (idle cl d) (help_linkchar c) (\<lambda>_. idle cl d)"
  "outcome E (idle cl d) (help_peer c) (\<lambda>_. idle cl d)" "outcome E (idle cl d) (help_show c) (\<lambda>_. idle cl d)"
  unfolding help_destination_def help_linkchar_def help_peer_def help_show_def
  by (rule outcome_next outcome_say help_idle)+

lemma handle_help_idle: "outcome E (idle cl d) (handle_help c) (\<lambda>_. idle cl d)"
  unfolding handle_help_def
  by (rule outcome_each) (auto simp: help_info_def intro: help_idle group_help_idle)

text \<open>The readers of arguments report every error of the text.\<close>

lemma value_from_string_std: "value_from_string ip str di = Inl e \<Longrightarrow> is_std_exception e"
  by (auto simp: value_from_string_def res_simps dest!: throws_stdD[OF std_value_from_istringstream] text_error_std)

lemma make_default_std: "make_default_DataItem cfg name p = Inl e \<Longrightarrow> is_std_exception e"
  by (auto simp: make_default_DataItem_def get_data_item_value_type_def res_simps dest!: lookup_error text_error_std
      split: option.splits)

lemma data_items_loop_error: "data_items_loop ip cfg ss = Inl e \<Longrightarrow> is_text_error e"
proof (induction ip cfg ss rule: data_items_loop.induct)
  case (1 ip cfg ss)
  let ?ss1 = "skip_whitespace ss"
  show ?case
  proof (cases "from_istringstream ip cfg None ?ss1")
    case (Inl e')
    with 1(2) from_istringstream_error(1)[OF Inl] show ?thesis
      by (auto simp: data_items_loop.simps[of ip cfg ss] Let_def split: if_splits)
  next
    case (Inr r)
    obtain di ss2 where r: "r = (di, ss2)" by (cases r)
    with 1(1)[OF refl _ Inr r[symmetric]] 1(2) Inr show ?thesis
      by (auto simp: data_items_loop.simps[of ip cfg ss] Let_def res_simps split: if_splits)
  qed
qed

lemma outcome_parse_mac:
  assumes "k \<le> n"
  shows "outcome (line_error env pb_parse cl d) (at_token cl d k n) (parse_mac_address env')
    (\<lambda>m cli. case m of None \<Rightarrow> idle cl d cli | Some _ \<Rightarrow> at_token cl d (Suc k) n cli)"
proof (rule outcomeI)
  fix cli assume at: "at_token cl d k n cli"
  show "case parse_mac_address env' cli of Inl e \<Rightarrow> line_error env pb_parse cl d e
    | Inr (m, cli) \<Rightarrow> (case m of None \<Rightarrow> idle cl d cli | Some _ \<Rightarrow> at_token cl d (Suc k) n cli)"
  proof (cases "k = n")
    case False
    with assms at have "cli_current_token cli < length (cli_tokens cli)" by (simp add: at_token_def token_count_def)
    with at False show ?thesis
      by (auto simp: parse_mac_address_def comp_simps next_token_def say_def at_token_def idle_def token_count_def
          dest: value_from_string_std make_default_std intro: line_error_std split: sum.splits DataItemValue.splits)
  qed (use at in \<open>simp add: parse_mac_address_def comp_simps say_def at_token_def idle_def\<close>)
qed

lemma outcome_parse_data_items:
  "outcome (line_error env pb_parse cl d) (idle cl d) (parse_data_items env') (\<lambda>_. idle cl d)"
proof (rule outcomeI)
  fix cli assume "idle cl d cli"
  moreover have "is_text_error e \<Longrightarrow> \<not> is_BadDataItemName e \<Longrightarrow> is_Invalid_Argument e" for e by (cases e) simp_all
  ultimately show "case parse_data_items env' cli of Inl e \<Rightarrow> line_error env pb_parse cl d e | Inr (x, cli) \<Rightarrow> idle cl d cli"
    using data_items_loop_error by (fastforce simp: parse_data_items_def comp_simps say_def idle_def split: sum.splits)
qed

lemma outcome_request:
  assumes "is_request ev" and "\<And>e d. handle_node_event e pb_parse ev d = bnd (m e) (\<lambda>_. ret ()) d"
  shows "outcome (line_error env pb_parse cl d) (idle cl d) (request env m) (\<lambda>_. line_effect env pb_parse cl d)"
proof (rule outcomeI)
  fix cli assume idle: "idle cl d cli"
  let ?e = "client_session_env cl (cv_session env)"
  show "case request env m cli of Inl e \<Rightarrow> line_error env pb_parse cl d e | Inr (x, cli) \<Rightarrow> line_effect env pb_parse cl d cli"
  proof (cases "m ?e d")
    case (Inl e)
    with assms(2)[of ?e d] have "handle_node_event ?e pb_parse ev d = Inl e" by (simp add: comp_simps)
    with assms(1) Inl idle show ?thesis
      by (auto simp: request_def comp_simps run_service_def idle_def line_error_def)
  next
    case (Inr r)
    obtain x d' where r: "r = (x, d')" by (cases r)
    with Inr assms(2)[of ?e d] have "handle_node_event ?e pb_parse ev d = Inr ((), d')" by (simp add: comp_simps)
    with assms(1) Inr r idle show ?thesis
      by (auto simp: request_def comp_simps run_service_def idle_def line_effect_def print_dlep_service_return_status_def say_def)
  qed
qed

lemma outcome_with_mac_and_items:
  assumes "k \<le> n" and "\<And>mac items. outcome (line_error env pb_parse cl d) (idle cl d) (f mac items) (\<lambda>_. line_effect env pb_parse cl d)"
  shows "outcome (line_error env pb_parse cl d) (at_token cl d k n) (with_mac_and_items env' f) (\<lambda>_. line_effect env pb_parse cl d)"
  unfolding with_mac_and_items_def
proof (rule outcome_bnd[OF outcome_parse_mac[OF assms(1)]])
  fix m :: "DlepMac option"
  show "outcome (line_error env pb_parse cl d) (\<lambda>cli. case m of None \<Rightarrow> idle cl d cli | Some _ \<Rightarrow> at_token cl d (Suc k) n cli)
    (case m of None \<Rightarrow> ret ()
     | Some mac \<Rightarrow> bnd (parse_data_items env') (\<lambda>r. case r of None \<Rightarrow> ret () | Some items \<Rightarrow> f mac items))
    (\<lambda>_. line_effect env pb_parse cl d)"
  proof (cases m)
    case None
    then show ?thesis by (auto intro!: outcome_ret simp: idle_def line_effect_def)
  next
    case (Some mac)
    have "outcome (line_error env pb_parse cl d) (idle cl d) (case r of None \<Rightarrow> ret () | Some items \<Rightarrow> f mac items)
        (\<lambda>_. line_effect env pb_parse cl d)" for r
      by (cases r) (auto intro!: outcome_ret assms(2) simp: idle_def line_effect_def)
    from outcome_at[OF outcome_bnd[OF outcome_parse_data_items this]] Some show ?thesis by simp
  qed
qed

lemmas requests = outcome_request[of "Up _ _"] outcome_request[of "Update _ _"] outcome_request[of "Down _ _"]
  outcome_request[of "Our_update _"] outcome_request[of "Request _ _"] outcome_request[of "Reply _ _ _"]

lemmas help_effects = help_idle[THEN outcome_at, THEN idle_effect] group_help_idle[THEN outcome_at, THEN idle_effect]

lemma invalid_effect:
  "(\<And>E. outcome E (idle cl d) m (\<lambda>_. idle cl d)) \<Longrightarrow>
   outcome E (at_token cl d k n) (next_do (invalid_subcommand s c) m) (\<lambda>_. line_effect env pb_parse cl d)"
  by (intro outcome_at idle_effect) (rule outcome_next[OF help_idle(13)])

lemma outcome_subcommand:
  assumes "k < n" and "\<And>s. outcome E (at_token cl d (Suc k) n) (f s) Q"
  shows "outcome E (at_token cl d k n) (bnd next_token f) Q"
  by (rule outcome_bnd[OF outcome_next_token[OF assms(1)]]) (rule assms(2))

lemmas command_rules = outcome_count outcome_if help_effects outcome_with_mac_and_items requests outcome_subcommand
  invalid_effect group_help_idle

abbreviation command_ok :: "cli_env \<Rightarrow> nat \<Rightarrow> nat \<Rightarrow> unit cli_comp \<Rightarrow> bool" where
  "command_ok env k n m \<equiv>
     (\<forall>pb_parse cl d. outcome (line_error env pb_parse cl d) (at_token cl d k n) m (\<lambda>_. line_effect env pb_parse cl d))"

lemma destination_up_ok: "k \<le> n \<Longrightarrow> command_ok env k n (handle_destination_up env c update)"
  unfolding handle_destination_up_def by (intro allI) (rule command_rules | simp)+

lemma destination_update_ok: "k \<le> n \<Longrightarrow> command_ok env k n (handle_destination_update env c)"
  unfolding handle_destination_update_def using destination_up_ok by (intro allI) (rule command_rules | simp)+

lemma destination_down_ok: "k \<le> n \<Longrightarrow> command_ok env k n (handle_destination_down env c)"
  unfolding handle_destination_down_def by (intro allI) (rule command_rules | simp)+

lemma destination_response_ok: "command_ok env 2 n (handle_destination_response env c)"
proof (intro allI)
  fix pb_parse cl d
  let ?E = "line_error env pb_parse cl d" and ?Q = "\<lambda>_. line_effect env pb_parse cl d"
  show "outcome ?E (at_token cl d 2 n) (handle_destination_response env c) ?Q"
  proof (cases "n = 4")
    case True
    have known: "is_BadStatusCodeName e" if "get_status_code_id cfg s = Inl e" for cfg s e
      using that by (auto simp: get_status_code_id_def split: option.splits)
    have "outcome ?E (at_token cl d 3 4) (bnd next_token (\<lambda>statusname.
           case get_status_code_id (cv_cfg env) statusname of
             Inl e \<Rightarrow>
               if is_BadStatusCodeName e
               then say [statusname @ '' is not a valid status code name. Try '' @ quoted ''show statuscodes'']
               else throw e
           | Inr _ \<Rightarrow> change (\<lambda>cli. cli\<lparr>cli_client := set_destination_response mac statusname (cli_client cli)\<rparr>))) ?Q" for mac
      by (rule outcome_subcommand)
        (auto intro!: outcome_change outcome_say[THEN outcome_at, THEN idle_effect] simp: at_token_def idle_def line_effect_def
          dest: known split: sum.splits)
    then show ?thesis
      unfolding handle_destination_response_def using True
      by (intro outcome_count) (auto intro!: outcome_bnd[OF outcome_parse_mac] outcome_ret simp: idle_def line_effect_def
          split: option.splits)
  qed (auto simp: handle_destination_response_def intro!: outcome_count help_effects)
qed

lemma destination_ok: "command_ok env 1 n (handle_destination env c)"
  unfolding handle_destination_def
  using destination_up_ok[of 2 n] destination_update_ok[of 2 n] destination_down_ok[of 2 n] destination_response_ok[of env n]
  by (intro allI) (rule command_rules | simp add: numeral_2_eq_2)+

lemma linkchar_ok: "command_ok env 1 n (handle_linkchar env c)"
  unfolding handle_linkchar_def handle_linkchar_request_def handle_linkchar_reply_def
  by (intro allI) (rule command_rules | simp)+

lemma peer_update_ok: "command_ok env k n (handle_peer_update env)"
proof (intro allI)
  fix pb_parse cl d
  have "outcome (line_error env pb_parse cl d) (idle cl d)
      (case r of None \<Rightarrow> ret () | Some items \<Rightarrow> request env (\<lambda>e. service_peer_update e items)) (\<lambda>_. line_effect env pb_parse cl d)" for r
    by (cases r) (auto intro!: outcome_ret requests(4) simp: idle_def line_effect_def)
  then show "outcome (line_error env pb_parse cl d) (at_token cl d k n) (handle_peer_update env) (\<lambda>_. line_effect env pb_parse cl d)"
    unfolding handle_peer_update_def by (intro outcome_at outcome_bnd[OF outcome_parse_data_items])
qed

lemma peer_ok: "command_ok env 1 n (handle_peer env c)"
  unfolding handle_peer_def using peer_update_ok[of env 2 n]
  by (intro allI) (rule command_rules | simp add: numeral_2_eq_2)+

lemma set_ok: "command_ok env 1 n (handle_set env c)"
proof (intro allI)
  fix pb_parse cl d
  let ?p = "\<lambda>name val cli. parse_parameter (cv_client env) (cv_depth env) name val (cli_client cli)"
  have "outcome (line_error env pb_parse cl d) (at_token cl d 3 3)
      (bnd (asks (?p name val)) (\<lambda>(r, cl). bnd (lift r) (\<lambda>_. change (\<lambda>cli. cli\<lparr>cli_client := cl\<rparr>)))) (\<lambda>_. line_effect env pb_parse cl d)"
    for name val
  proof (rule outcome_asks)
    fix x :: "bool res \<times> DlepClientImpl"
    show "outcome (line_error env pb_parse cl d) (\<lambda>s. at_token cl d 3 3 s \<and> x = ?p name val s)
      (case x of (r, cl) \<Rightarrow> bnd (lift r) (\<lambda>_. change (\<lambda>cli. cli\<lparr>cli_client := cl\<rparr>))) (\<lambda>_. line_effect env pb_parse cl d)"
    proof (rule outcomeI)
      fix s assume s: "at_token cl d 3 3 s \<and> x = ?p name val s"
      have "line_error env pb_parse cl d e" if "fst x = Inl e" for e
        using s that unfolding line_error_def at_token_def idle_def by blast
      with s show "case (case x of (r, cl) \<Rightarrow> bnd (lift r) (\<lambda>_. change (\<lambda>cli. cli\<lparr>cli_client := cl\<rparr>))) s of
          Inl e \<Rightarrow> line_error env pb_parse cl d e | Inr (u, cli) \<Rightarrow> line_effect env pb_parse cl d cli"
        by (auto simp: comp_simps at_token_def idle_def line_effect_def split: sum.splits prod.splits)
    qed
  qed
  then show "outcome (line_error env pb_parse cl d) (at_token cl d 1 n) (handle_set env c) (\<lambda>_. line_effect env pb_parse cl d)"
    unfolding handle_set_def
    by (cases "n = 3")
      (auto intro!: outcome_count outcome_subcommand help_effects simp: numeral_3_eq_3)
qed

text \<open>Showing changes nothing.\<close>

lemma tables_idle:
  assumes "\<And>e. t = Inl e \<Longrightarrow> is_std_exception e" and "\<And>x. outcome (line_error env pb_parse cl d) (idle cl d) (f x) (\<lambda>_. idle cl d)"
  shows "outcome (line_error env pb_parse cl d) (idle cl d) (bnd (lift t) f) (\<lambda>_. idle cl d)"
  by (rule outcome_lift) (use assms in \<open>auto intro: line_error_std\<close>)

lemma show_tables_idle:
  "outcome (line_error env pb_parse cl d) (idle cl d) (handle_show_data_item_info env) (\<lambda>_. idle cl d)"
  "outcome (line_error env pb_parse cl d) (idle cl d) (handle_show_signals env) (\<lambda>_. idle cl d)"
  "outcome (line_error env pb_parse cl d) (idle cl d) (handle_show_modules env) (\<lambda>_. idle cl d)"
  "outcome (line_error env pb_parse cl d) (idle cl d) (handle_show_statuscodes env) (\<lambda>_. idle cl d)"
  unfolding handle_show_data_item_info_def handle_show_signals_def handle_show_modules_def handle_show_statuscodes_def
  by (auto intro!: tables_idle outcome_say dest: tables_std split: prod.splits)

lemma show_destinations_idle:
  "outcome (line_error env pb_parse cl d) (idle cl d) (show_destinations env specific_mac) (\<lambda>_. idle cl d)"
proof -
  have "outcome (line_error env pb_parse cl d) (idle cl d)
      (bnd (lift (fill_table dest_headings (peers_loop env d' specific_mac peers r))) (\<lambda>(r, ls).
       next_do (say ls) (print_dlep_service_return_status r))) (\<lambda>_. idle cl d)" for d' peers r
    by (auto intro!: tables_idle outcome_next[OF outcome_say] help_idle dest: tables_std split: prod.splits)
  then show ?thesis unfolding show_destinations_def by (rule outcome_read)
qed

lemma print_peer_info_std: "print_peer_info ip cfg info = Inl e \<Longrightarrow> is_std_exception e"
proof -
  have "lines_of (data_item_to_string ip cfg None) xs = Inl e \<Longrightarrow> is_std_exception e" for xs
    by (induction xs) (auto simp: res_simps dest: printing_std)
  then show "print_peer_info ip cfg info = Inl e \<Longrightarrow> is_std_exception e"
    by (auto simp: print_peer_info_def print_data_items_def res_simps)
qed

lemma show_one_peer_idle:
  "outcome (line_error env pb_parse cl d) (idle cl d) (bnd (asks (\<lambda>cli. service_get_peer_info i (cli_node cli))) (\<lambda>r.
     case r of
       Inl status \<Rightarrow> print_dlep_service_return_status status
     | Inr peer_info \<Rightarrow>
         next_do (bnd (lift (print_peer_info (cv_ip_text env) (cv_cfg env) peer_info)) say)
           (print_dlep_service_return_status rs_ok))) (\<lambda>_. idle cl d)"
  by (rule outcome_read)
    (auto intro!: help_idle(14) outcome_next[OF tables_idle] outcome_say dest: print_peer_info_std split: sum.splits)

lemma show_peers_idle:
  "outcome E (idle cl d) (next_do (bnd (asks (\<lambda>cli. service_get_peers [] (cli_node cli))) (\<lambda>peers. say (''peer ids:'' # peers)))
     (print_dlep_service_return_status rs_ok)) (\<lambda>_. idle cl d)"
  by (rule outcome_next[OF outcome_read help_idle(14)]) (rule outcome_say)

lemma show_peer_ok: "command_ok env 2 n (handle_show_peer env c)"
  unfolding handle_show_peer_def
  by (intro allI)
    (rule outcome_count outcome_if outcome_subcommand help_effects show_peers_idle[THEN outcome_at, THEN idle_effect]
      show_one_peer_idle[THEN outcome_at, THEN idle_effect] | simp)+

lemma show_destination_ok: "command_ok env 2 n (handle_show_destination env c)"
proof (intro allI)
  fix pb_parse cl d
  have "outcome (line_error env pb_parse cl d) (\<lambda>cli. case m of None \<Rightarrow> idle cl d cli | Some _ \<Rightarrow> at_token cl d k n cli)
      (case m of None \<Rightarrow> ret () | Some mac \<Rightarrow> show_destinations env (Some mac)) (\<lambda>_. line_effect env pb_parse cl d)" for m k
    by (cases m) (auto intro!: outcome_ret show_destinations_idle[THEN outcome_at, THEN idle_effect] simp: idle_def line_effect_def)
  then show "outcome (line_error env pb_parse cl d) (at_token cl d 2 n) (handle_show_destination env c) (\<lambda>_. line_effect env pb_parse cl d)"
    unfolding handle_show_destination_def
    by (intro outcome_count outcome_if help_effects show_destinations_idle[THEN outcome_at, THEN idle_effect]
        outcome_bnd[OF outcome_parse_mac]) simp_all
qed

lemma show_config_idle: "outcome E (idle cl d) (bnd (asks cli_client) (\<lambda>cl. say (f cl))) (\<lambda>_. idle cl d)"
  by (rule outcome_read) (rule outcome_say)

lemma show_ok: "command_ok env 1 n (handle_show env c)"
  unfolding handle_show_def using show_peer_ok[of env n] show_destination_ok[of env n]
  by (intro allI)
    (rule outcome_count outcome_if outcome_subcommand help_effects invalid_effect group_help_idle
      show_tables_idle[THEN outcome_at, THEN idle_effect] show_config_idle[THEN outcome_at, THEN idle_effect]
     | simp add: numeral_2_eq_2)+

lemma dispatch_ok:
  assumes "\<forall>(name, handler)\<in>set cis. command_ok env 1 n (handler name)"
  shows "command_ok env 1 n (dispatch cis cmd)"
  using assms
proof (induction cis)
  case Nil
  show ?case by (auto intro!: outcome_say[THEN outcome_at, THEN idle_effect])
next
  case (Cons ci cis)
  then show ?case by (cases ci) auto
qed

lemma commands_ok: "\<forall>(name, handler)\<in>set (command_info env). command_ok env 1 n (handler name)"
proof -
  have "command_ok env 1 n (handle_help c)" "command_ok env 1 n (handle_quit c)" for c
    by (auto intro!: handle_help_idle[THEN outcome_at, THEN idle_effect] outcome_change
        simp: handle_quit_def at_token_def idle_def line_effect_def)
  with destination_ok linkchar_ok peer_ok set_ok show_ok show ?thesis by (simp add: command_info_def)
qed

lemma run_line_outcome:
  "case run_line env line cli of
     Inr (_, cli') \<Rightarrow> line_effect env pb_parse (cli_client cli) (cli_node cli) cli'
   | Inl e \<Rightarrow> line_error env pb_parse (cli_client cli) (cli_node cli) e"
proof -
  let ?cli = "cli\<lparr>cli_help_dataitems_printed := False, cli_tokens := tokenize line, cli_current_token := 0\<rparr>"
  let ?n = "length (tokenize line)"
  have run: "run_line env line cli = (if ?n = 0 then ret () else bnd next_token (dispatch (command_info env))) ?cli"
    by (simp add: run_line_def comp_simps token_count_def)
  have at: "at_token (cli_client cli) (cli_node cli) 0 ?n ?cli" by (simp add: at_token_def idle_def token_count_def)
  show ?thesis
  proof (cases "?n = 0")
    case False
    from dispatch_ok[OF commands_ok[of env ?n]]
    have "outcome (line_error env pb_parse (cli_client cli) (cli_node cli)) (at_token (cli_client cli) (cli_node cli) 0 ?n)
        (bnd next_token (dispatch (command_info env))) (\<lambda>_. line_effect env pb_parse (cli_client cli) (cli_node cli))"
      by (intro outcome_subcommand) (use False in auto)
    with at False run show ?thesis unfolding outcome_def by auto
  qed (use run in \<open>simp add: comp_simps line_effect_def\<close>)
qed

text \<open>
  C36: a command line makes at most one request. Whatever is typed, the line ends with the node
  as it was, or with the client as it was and the node after exactly one request of the
  service; the interface itself never reads beyond the tokens of the line or beyond the columns
  of a table, and ends only with what that request, the reading of a parameter or a lookup
  threw.
\<close>

theorem line_one_request:
  "case run_line env line cli of
     Inr (_, cli') \<Rightarrow> line_effect env pb_parse (cli_client cli) (cli_node cli) cli'
   | Inl e \<Rightarrow> line_error env pb_parse (cli_client cli) (cli_node cli) e"
  by (rule run_line_outcome)

section \<open>The program\<close>

lemma run_service_result:
  "run_service env m cli = Inr (x, cli') \<Longrightarrow>
   m (client_session_env (cli_client cli) (cv_session env)) (cli_node cli) = Inr (x, cli_node cli') \<and> cli_client cli' = cli_client cli"
  by (auto simp: run_service_def split: sum.splits)

lemma run_line_node:
  assumes "node E (cli_node cli)" and "\<And>cl. E (client_session_env cl (cv_session env))" and "run_line env line cli = Inr (x, cli')"
  shows "node E (cli_node cli')"
proof -
  have "line_effect env (\<lambda>_. None) (cli_client cli) (cli_node cli) cli'"
    using run_line_outcome[where env = env and line = line and cli = cli and pb_parse = "\<lambda>_. None"] assms(3) by simp
  then show ?thesis unfolding line_effect_def
  proof (elim disjE conjE exE)
    assume "cli_node cli' = cli_node cli"
    with assms(1) show ?thesis by simp
  next
    fix ev assume "handle_node_event (client_session_env (cli_client cli) (cv_session env)) (\<lambda>_. None) ev (cli_node cli) = Inr ((), cli_node cli')"
    from node.event[OF assms(1,2) this] show ?thesis .
  qed
qed

lemma run_inputs_node:
  assumes "node E (cli_node cli)" and env: "\<And>cl. E (client_session_env cl (cv_session env))"
    and "run_inputs env pb_parse inputs cli = Inr (x, cli')"
  shows "node E (cli_node cli')"
  using assms(1,3)
proof (induction inputs arbitrary: cli)
  case (Cons i inputs)
  show ?case
  proof (cases "cli_continue cli")
    case True
    with Cons.prems(2) obtain y cli1 where step: "run_input env pb_parse i cli = Inr (y, cli1)"
      and rest: "run_inputs env pb_parse inputs cli1 = Inr (x, cli')" by (auto simp: comp_simps split: sum.splits)
    have "node E (cli_node cli1)"
    proof (cases i)
      case (Line line)
      with step run_line_node[OF Cons.prems(1) env] show ?thesis by simp
    next
      case (Library ev)
      with step run_service_result[of env _ cli y cli1] node.event[OF Cons.prems(1) env] show ?thesis by fastforce
    qed
    from Cons.IH[OF this rest] show ?thesis .
  qed (use Cons.prems in \<open>auto simp: comp_simps\<close>)
qed (simp add: comp_simps)

lemma run_node:
  assumes "node E (cli_node cli)" and "\<And>cl. E (client_session_env cl (cv_session env))" and "run env pb_parse inputs cli = Inr (x, cli')"
  shows "node E (cli_node cli')"
proof (rule run_inputs_node[where E = E, OF _ assms(2)])
  let ?cli = "cli\<lparr>cli_output := cli_output cli @ [''Use '' @ quoted ''help'' @ '' to see a list of possible commands.''], cli_continue := True\<rparr>"
  show "run_inputs env pb_parse inputs ?cli = Inr (x, cli')"
    using assms(3) by (auto simp: run_def comp_simps say_def split: sum.splits)
qed (use assms(1) in simp)

lemma started_node:
  assumes "initialize st = Inr (Some sd)" and "E (sd_env sd)"
  shows "node E (sd_node sd)"
proof -
  obtain d where d: "new_Dlep (sd_env sd) None = Inr d" and adv: "start_advert st (sd_env sd) d = Inr (Some (sd_node sd, sd_advert sd))"
    by (rule initialize_steps[OF assms(1)])
  have "new_Dlep (sd_env sd) a = Inr (d\<lparr>d_advert := a\<rparr>)" for a using d by (auto simp: new_Dlep_def res_simps)
  moreover obtain a where "sd_node sd = d\<lparr>d_advert := a\<rparr>"
    using advert_started[OF adv] d by (auto simp: new_Dlep_def res_simps)
  ultimately show ?thesis using assms(2) node.new by metis
qed

lemma DlepInit_started:
  assumes "DlepInit st = Inr (Some sd)"
  obtains modem where "initialize (st\<lparr>st_session := (st_session st)\<lparr>env_modem := modem\<rparr>\<rparr>) = Inr (Some sd)"
  using assms by (auto simp: DlepInit_def split: sum.splits if_splits)

text \<open>The environment of the sessions is the client's own.\<close>

lemma started_env:
  assumes "DlepInit (client_start cl st) = Inr (Some sd)"
  shows "client_session_env cl (sd_env sd) = sd_env sd"
proof -
  obtain modem where "initialize ((client_start cl st)\<lparr>st_session := (st_session (client_start cl st))\<lparr>env_modem := modem\<rparr>\<rparr>) = Inr (Some sd)"
    by (rule DlepInit_started[OF assms])
  then obtain cfg where "sd_env sd = (st_session ((client_start cl st)\<lparr>st_session := (st_session (client_start cl st))\<lparr>env_modem := modem\<rparr>\<rparr>))\<lparr>env_cfg := cfg\<rparr>"
    by (rule initialize_steps)
  then show ?thesis by (simp add: client_session_env_def client_start_def)
qed

lemma main_started:
  assumes "main env st argv inputs = Inr (code, r)"
  shows "code \<in> {1, 2, 4} \<and> r = None \<or> (\<exists>cl sd cli x cli'. code = 0 \<and> r = Some cli' \<and> DlepInit (client_start cl st) = Inr (Some sd)
    \<and> run (env\<lparr>cv_session := sd_env sd\<rparr>) (st_parse st) inputs (new_DlepCli cl (sd_node sd)) = Inr (x, cli)
    \<and> run_service (env\<lparr>cv_session := sd_env sd\<rparr>) service_terminate cli = Inr ((), cli'))"
proof -
  obtain ok cl where args: "parse_args (cv_client env) (cv_depth env) argv new_DlepClientImpl = (ok, cl)" by fastforce
  obtain ok' cl' where defaults: "load_defaults (cv_client env) (cv_depth env) cl = (ok', cl')" by fastforce
  show ?thesis
  proof (cases "ok = Inr True \<and> ok' = Inr True")
    case False
    with assms args defaults show ?thesis by (auto simp: main_def res_simps split: sum.splits if_splits)
  next
    case True
    with assms args defaults obtain service where start: "DlepInit (client_start cl' st) = Inr service"
      by (auto simp: main_def res_simps)
    show ?thesis
    proof (cases service)
      case (Some sd)
      with assms args defaults True start show ?thesis
        by (auto simp: main_def Let_def res_simps comp_simps split: sum.splits)
    qed (use assms args defaults True start in \<open>simp add: main_def\<close>)
  qed
qed


section \<open>Typed requests\<close>

text \<open>A data item that is one name and one value, and the two tokens it is typed as.\<close>

definition typed_as :: "ip_text \<Rightarrow> ProtocolConfig \<Rightarrow> DataItem \<Rightarrow> string \<times> string \<Rightarrow> bool" where
  "typed_as ip cfg di nt \<longleftrightarrow> item_ok cfg None di \<and> item_printable False di \<and> \<not> has_sub_data_items (get_type di)
     \<and> data_item_name cfg None di = Inr (fst nt) \<and> data_item_value_to_string ip cfg None di = Inr (snd nt)"

definition typed_tokens :: "(string \<times> string) list \<Rightarrow> string list" where
  "typed_tokens nts = concat (map (\<lambda>(n, t). [n, t]) nts)"

definition typed_text :: "(string \<times> string) list \<Rightarrow> string" where
  "typed_text nts = concat (map (\<lambda>(n, t). n @ '' '' @ t @ '' '') nts)"

lemma typed_text_tokens: "concat (map (\<lambda>t. t @ '' '') (typed_tokens nts)) = typed_text nts"
  by (induction nts) (auto simp: typed_tokens_def typed_text_def)

lemma value_text_parent: "\<not> has_sub_data_items (value_type v) \<Longrightarrow> value_to_string_visit ip cfg p v = value_to_string_visit ip cfg p' v"
  by (cases v) simp_all

lemma typed_as_text:
  assumes "config_ok cfg" and "text_config_ok cfg" and "typed_as ip cfg di (n, t)"
  shows "data_item_to_string ip cfg None di = Inr (n @ '' '' @ t)" and "name_ok n"
proof -
  obtain i v where di: "di = DataItem i v" by (cases di)
  with assms(3) have t: "get_data_item_name cfg i None = Inr n" "value_to_string_visit ip cfg None v = Inr t"
    "\<not> has_sub_data_items (value_type v)" and ok: "item_ok cfg None di"
    by (auto simp: typed_as_def data_item_name_def data_item_value_to_string_def get_type_def)
  from ok di obtain info where "get_data_item_info cfg i None = Inr info" by (auto split: sum.splits)
  from get_data_item_info_cases[OF assms(1) this] t(1) have
    info: "get_data_item_info_by_name cfg n = Inr info" "(n, info) \<in> set (data_item_info_map cfg)" by auto
  with t value_text_parent[OF t(3), of ip cfg _ None] show "data_item_to_string ip cfg None di = Inr (n @ '' '' @ t)"
    by (simp add: di)
  show "name_ok n" by (rule info_text_ok[OF assms(2) info(2)])
qed

lemma skip_to_end:
  assumes "dropWhile is_space (is_text ss) = []" and "\<not> is_fail ss"
  shows "is_eof (skip_whitespace ss)"
  using assms
proof (induction ss rule: skip_whitespace.induct)
  case (1 ss)
  show ?case
  proof (cases "good ss \<and> is_text ss \<noteq> []")
    case True
    then obtain c cs where c: "is_text ss = c # cs" by (cases "is_text ss") auto
    with 1(2) have "is_space c" by (simp split: if_splits)
    with c True have p: "peek ss = (Some c, ss)" and ig: "ignore_char ss = ss\<lparr>is_text := cs\<rparr>"
      by (simp_all add: peek_def ignore_char_def)
    from 1(1)[OF 1(3) p[symmetric]] \<open>is_space c\<close> c 1(2,3) ig have "is_eof (skip_whitespace (ignore_char ss))"
      by (simp add: char_is_def)
    with p \<open>is_space c\<close> 1(3) show ?thesis by (simp add: skip_whitespace.simps[of ss] char_is_def)
  next
    case False
    with 1(3) show ?thesis by (auto simp: skip_whitespace.simps[of ss] peek_def good_def char_is_def)
  qed
qed

lemma typed_front:
  assumes "config_ok cfg" and "text_config_ok cfg" and "list_all2 (typed_as ip cfg) items nts"
  shows "typed_text nts = [] \<and> items = [] \<and> nts = [] \<or> (\<exists>c cs. typed_text nts = c # cs \<and> stops c)"
proof (cases nts)
  case (Cons nt nts')
  with assms(3) obtain di where "typed_as ip cfg di nt" by (auto simp: list_all2_Cons2)
  with typed_as_text(2)[OF assms(1,2), of ip di "fst nt" "snd nt"] have "name_ok (fst nt)" by simp
  then show ?thesis using Cons by (cases "fst nt") (auto simp: typed_text_def name_ok_def split: prod.splits)
qed (use assms(3) in \<open>simp add: typed_text_def\<close>)

lemma stops_no_space: "stops c \<Longrightarrow> \<not> is_space c"
  by (simp add: stops_def)

lemma data_items_typed:
  assumes "config_ok cfg" and "subs_listed cfg" and "text_config_ok cfg" and "ip_text_ok ip ipp"
    and "list_all2 (typed_as ip cfg) items nts"
    and "\<not> is_hex ss" and "\<not> is_fail ss" and "dropWhile is_space (is_text ss) = typed_text nts" and "typed_text nts \<noteq> [] \<longrightarrow> good ss"
  shows "data_items_loop ipp cfg ss = Inr items"
  using assms(5-)
proof (induction items nts arbitrary: ss rule: list_all2_induct)
  case Nil
  then show ?case using skip_to_end[of ss] by (simp add: data_items_loop.simps[of ipp cfg ss] typed_text_def Let_def)
next
  case (Cons di items nt nts)
  obtain n t where nt: "nt = (n, t)" by (cases nt)
  note printed = typed_as_text[OF assms(1,3) Cons.hyps(1)[unfolded nt]]
  let ?tail = "'' '' @ typed_text nts"
  have whole: "typed_text (nt # nts) = (n @ '' '' @ t) @ ?tail" by (simp add: nt typed_text_def)
  obtain c cs where front: "typed_text (nt # nts) = c # cs"
    using printed(2) whole by (cases n) (auto simp: name_ok_def)
  with Cons.prems have good: "good ss" by simp
  let ?ss = "ss\<lparr>is_text := (n @ '' '' @ t) @ ?tail\<rparr>"
  have skip: "skip_whitespace ss = ?ss"
    using skip_whitespace_after[OF good, of c cs] Cons.prems(3) front whole by simp
  have blank: "is_space CHR '' ''" by (simp add: is_space_def)
  with typed_front[OF assms(1,3) Cons.hyps(2)] have drop: "dropWhile is_space ?tail = typed_text nts"
    by (auto dest: stops_no_space)
  have tail: "tail_ok ?tail"
    unfolding tail_ok_def drop using typed_front[OF assms(1,3) Cons.hyps(2)] blank by auto
  have "item_reads ip ipp cfg None di" by (rule all_read(2)[OF assms(1-4)])
  then have "reads ?tail (from_istringstream ipp cfg None) (n @ '' '' @ t) di"
    using Cons.hyps(1) tail printed(1) by (auto simp: item_reads_def typed_as_def parent_invert_def)
  then obtain ss' where read: "from_istringstream ipp cfg None ?ss = Inr (di, ss')" and after: "after ?tail ss'"
    using good Cons.prems(1) unfolding reads_def by (elim allE[of _ ?ss]) (auto simp: good_def)
  show ?case
  proof (cases "is_fail ss'")
    case True
    with after drop have "typed_text nts = []" by (auto simp: after_def good_def)
    with typed_front[OF assms(1,3) Cons.hyps(2)] have "items = []" by auto
    with True read skip good show ?thesis by (simp add: data_items_loop.simps[of ipp cfg ss] Let_def good_def)
  next
    case False
    from Cons.IH[of ss'] after drop False have "data_items_loop ipp cfg ss' = Inr items" by (simp add: after_def)
    with False read skip good show ?thesis by (simp add: data_items_loop.simps[of ipp cfg ss] Let_def good_def)
  qed
qed

text \<open>The interface reads back MAC addresses and data items as they are printed.\<close>

definition mac_configured :: "ProtocolConfig \<Rightarrow> bool" where
  "mac_configured cfg \<longleftrightarrow> (\<exists>i m. make_default_DataItem cfg ''MAC_Address'' None = Inr (DataItem i (Div_dlepmac m)))"

lemma mac_typed:
  assumes "mac_addr mac \<noteq> []"
  shows "\<exists>di. value_from_string ipp (mac_to_string mac) (DataItem i (Div_dlepmac m)) = Inr di \<and> di_value di = Div_dlepmac mac"
proof -
  have "reads [] (value_from_istringstream ipp (Div_dlepmac m)) (mac_to_string mac) (Div_dlepmac mac)"
    by (rule reads_value_from) (auto intro!: reads_map reads_mac assms simp: tail_ok_def)
  then show ?thesis
    unfolding reads_def by (elim allE[of _ "open_stream (mac_to_string mac)"])
      (auto simp: value_from_string_def open_stream_def good_def)
qed

lemma parse_mac_typed:
  assumes "mac_configured (cv_cfg env)" and "mac_addr mac \<noteq> []" and "cli_current_token cli < length (cli_tokens cli)"
    and "cli_tokens cli ! cli_current_token cli = mac_to_string mac"
  shows "parse_mac_address env cli = Inr (Some mac, cli\<lparr>cli_current_token := cli_current_token cli + 1\<rparr>)"
proof -
  obtain i m where default: "make_default_DataItem (cv_cfg env) ''MAC_Address'' None = Inr (DataItem i (Div_dlepmac m))"
    using assms(1) by (auto simp: mac_configured_def)
  obtain di where "value_from_string (cv_ip_parse env) (mac_to_string mac) (DataItem i (Div_dlepmac m)) = Inr di"
    "di_value di = Div_dlepmac mac" using mac_typed[OF assms(2)] by blast
  with default assms(3,4) show ?thesis by (simp add: parse_mac_address_def comp_simps next_token_def token_count_def)
qed

definition cli_config_ok :: "cli_env \<Rightarrow> bool" where
  "cli_config_ok env \<longleftrightarrow> config_ok (cv_cfg env) \<and> subs_listed (cv_cfg env) \<and> text_config_ok (cv_cfg env) \<and> mac_configured (cv_cfg env)"

lemma with_mac_and_items_typed:
  assumes "cli_config_ok env" and "ip_text_ok (cv_ip_text env) (cv_ip_parse env)" and "mac_addr mac \<noteq> []"
    and "list_all2 (typed_as (cv_ip_text env) (cv_cfg env)) items nts"
    and "drop (cli_current_token cli) (cli_tokens cli) = mac_to_string mac # typed_tokens nts"
  shows "with_mac_and_items env f cli = f mac items (cli\<lparr>cli_current_token := token_count cli\<rparr>)"
proof -
  have k: "cli_current_token cli < length (cli_tokens cli)" using assms(5) by (metis drop_eq_Nil linorder_not_le list.distinct(1))
  with assms(5) have "cli_tokens cli ! cli_current_token cli = mac_to_string mac"
    "drop (Suc (cli_current_token cli)) (cli_tokens cli) = typed_tokens nts"
    by (simp_all add: Cons_nth_drop_Suc[symmetric])
  moreover have "dropWhile is_space (typed_text nts) = typed_text nts"
    using typed_front[of "cv_cfg env" "cv_ip_text env" items nts] assms(1,4) by (auto simp: cli_config_ok_def dest: stops_no_space)
  then have "data_items_loop (cv_ip_parse env) (cv_cfg env) (open_stream (typed_text nts)) = Inr items"
    using assms(1,2,4) by (intro data_items_typed) (auto simp: cli_config_ok_def open_stream_def good_def)
  ultimately show ?thesis
    using parse_mac_typed[of env mac cli] assms(1,3) k
    by (simp add: with_mac_and_items_def parse_data_items_def comp_simps cli_config_ok_def typed_text_tokens token_count_def)
qed

text \<open>The commands whose arguments are a MAC address and data items.\<close>

definition request_commands ::
    "((string \<times> string) \<times> (session_env \<Rightarrow> DlepMac \<Rightarrow> DataItem list \<Rightarrow> ReturnStatus node_comp)) list" where
  "request_commands =
     [((''dest'', ''up''), service_destination_up), ((''dest'', ''update''), service_destination_update),
      ((''dest'', ''down''), service_destination_down), ((''linkchar'', ''request''), service_linkchar_request)]"

lemma run_line_dispatch:
  "tokenize line = cmd # ts \<Longrightarrow> run_line env line cli = dispatch (command_info env) cmd
     (cli\<lparr>cli_help_dataitems_printed := False, cli_tokens := cmd # ts, cli_current_token := 1\<rparr>)"
  by (simp add: run_line_def comp_simps token_count_def next_token_def)

lemma subcommand_run:
  "cli_current_token cli < length (cli_tokens cli) \<Longrightarrow>
   bnd next_token f cli = f (cli_tokens cli ! cli_current_token cli) (cli\<lparr>cli_current_token := cli_current_token cli + 1\<rparr>)"
  by (simp add: comp_simps next_token_def)

lemma count_run: "bnd (asks token_count) f cli = f (length (cli_tokens cli)) cli"
  by (simp add: comp_simps token_count_def)

lemma dest_dispatch: "dispatch (command_info env) ''dest'' = handle_destination env ''dest''"
  and linkchar_dispatch: "dispatch (command_info env) ''linkchar'' = handle_linkchar env ''linkchar''"
  by (simp_all add: command_info_def)

lemmas run_simps = run_line_dispatch dest_dispatch linkchar_dispatch handle_destination_def handle_linkchar_def count_run subcommand_run

lemma request_command_runs:
  assumes "((cmd, sub), op) \<in> set request_commands" and "tokenize line = cmd # sub # t # ts"
  shows "run_line env line cli = with_mac_and_items env (\<lambda>mac items. request env (\<lambda>e. op e mac items))
    (cli\<lparr>cli_help_dataitems_printed := False, cli_tokens := cmd # sub # t # ts, cli_current_token := 2\<rparr>)"
proof -
  from assms(1) consider "cmd = ''dest''" "sub = ''up''" "op = service_destination_up"
    | "cmd = ''dest''" "sub = ''update''" "op = service_destination_update"
    | "cmd = ''dest''" "sub = ''down''" "op = service_destination_down"
    | "cmd = ''linkchar''" "sub = ''request''" "op = service_linkchar_request"
    by (auto simp: request_commands_def)
  then show ?thesis
  proof cases
    case 1
    with assms(2) show ?thesis by (simp add: run_simps handle_destination_up_def numeral_2_eq_2)
  next
    case 2
    with assms(2) show ?thesis by (simp add: run_simps handle_destination_up_def handle_destination_update_def numeral_2_eq_2)
  next
    case 3
    with assms(2) show ?thesis by (simp add: run_simps handle_destination_down_def numeral_2_eq_2)
  next
    case 4
    with assms(2) show ?thesis by (simp add: run_simps handle_linkchar_request_def numeral_2_eq_2)
  qed
qed


text \<open>
  the answer to a destination can be set. After \<open>dest response\<close> with a MAC address and a
  configured status code, the client answers that address with that status and every other
  one as before; nothing else changes. A name that is no status code changes nothing.
\<close>

lemma typed_response:
  assumes "mac_configured (cv_cfg env)" and "mac_addr mac \<noteq> []"
    and "tokenize line = [''dest'', ''response'', mac_to_string mac, status]"
  shows "\<exists>cli'. run_line env line cli = Inr ((), cli') \<and> cli_node cli' = cli_node cli
    \<and> cl_config_map (cli_client cli') = cl_config_map (cli_client cli)
    \<and> (\<forall>m. client_destination_up (cli_client cli') i m items =
         (if m = mac \<and> (\<exists>code. get_status_code_id (cv_cfg env) status = Inr code) then status
          else client_destination_up (cli_client cli) i m items))"
proof -
  let ?cli = "cli\<lparr>cli_help_dataitems_printed := False, cli_tokens := [''dest'', ''response'', mac_to_string mac, status],
    cli_current_token := 2\<rparr>"
  have "parse_mac_address env ?cli = Inr (Some mac, ?cli\<lparr>cli_current_token := 3\<rparr>)"
    using parse_mac_typed[OF assms(1,2), of ?cli] by simp
  moreover have "is_BadStatusCodeName e" if "get_status_code_id cfg s = Inl e" for cfg s e
    using that by (auto simp: get_status_code_id_def split: option.splits)
  moreover have "run_line env line cli = handle_destination_response env ''dest'' ?cli"
    using assms(3) by (simp add: run_simps numeral_2_eq_2)
  ultimately show ?thesis
    by (auto simp: handle_destination_response_def comp_simps token_count_def next_token_def say_def set_destination_response_def
        client_destination_up_def smap_simps numeral_3_eq_3 split: sum.splits)
qed

section \<open>Nothing typed is skipped\<close>

text \<open>Data items read one after the other.\<close>

inductive item_chain :: "ip_parse \<Rightarrow> ProtocolConfig \<Rightarrow> istream \<Rightarrow> DataItem list \<Rightarrow> istream \<Rightarrow> bool" for ip cfg where
  none: "item_chain ip cfg ss [] ss"
| item: "from_istringstream ip cfg None (skip_whitespace ss) = Inr (di, ss1) \<Longrightarrow> item_chain ip cfg ss1 items ss' \<Longrightarrow>
    item_chain ip cfg ss (di # items) ss'"

lemma at_end:
  assumes "stream_ok ss" and "is_eof (skip_whitespace ss)"
  shows "dropWhile is_space (is_text ss) = []"
proof (rule ccontr)
  assume "dropWhile is_space (is_text ss) \<noteq> []"
  then obtain c cs where front: "dropWhile is_space (is_text ss) = c # cs" by (cases "dropWhile is_space (is_text ss)") auto
  with assms(1) have "good ss" by (auto simp: stream_ok_def good_def)
  from skip_whitespace_after[OF this front] have "is_text (skip_whitespace ss) \<noteq> []" by simp
  with ended.J_skip_whitespace[OF assms(1)] assms(2) show False by (simp add: stream_ok_def)
qed

lemma data_items_cover:
  assumes "data_items_loop ip cfg ss = Inr items" and "stream_ok ss"
  shows "\<exists>ss'. item_chain ip cfg ss items ss' \<and> dropWhile is_space (is_text ss') = []"
  using assms
proof (induction ip cfg ss arbitrary: items rule: data_items_loop.induct)
  case (1 ip cfg ss)
  let ?ss1 = "skip_whitespace ss"
  note start = data_items_loop.simps[of ip cfg ss, unfolded Let_def]
  show ?case
  proof (cases "is_eof ?ss1")
    case True
    with 1(2) have "items = []" by (simp add: start)
    with at_end[OF 1(3) True] show ?thesis by (blast intro: item_chain.none)
  next
    case False
    with 1(2) obtain di ss2 where read: "from_istringstream ip cfg None ?ss1 = Inr (di, ss2)"
      by (cases "from_istringstream ip cfg None ?ss1") (auto simp: start)
    have ok: "stream_ok ss2" by (rule ended.J_from_istringstream(1)[OF ended.J_skip_whitespace[OF 1(3)] read])
    show ?thesis
    proof (cases "is_fail ss2")
      case True
      with 1(2) False read have "items = [di]" by (simp add: start)
      moreover from True ok have "is_text ss2 = []" by (simp add: stream_ok_def)
      ultimately show ?thesis using read by (intro exI[of _ ss2]) (auto intro: item_chain.intros)
    next
      case more: False
      with 1(2) False read obtain dis where dis: "data_items_loop ip cfg ss2 = Inr dis" "items = di # dis"
        by (auto simp: start res_simps)
      from 1(1)[OF refl False read refl more dis(1) ok] dis(2) read show ?thesis by (blast intro: item_chain.item)
    qed
  qed
qed


end
