(* ===== verification/ClientWitnesses.thy ===== *)
theory ClientWitnesses
  imports StartWitnesses CliProperties
begin

text \<open>The properties of the example client, applied to concrete inputs.\<close>

section \<open>Tables\<close>

definition ex_table :: Table where
  "ex_table = \<lparr>tb_rows = [[''ID'', ''Name'', ''Units''], [''1'', ''Status'', ''''], [''16'', ''Latency'', '''']],
     tb_current_row = 3, tb_current_column = 0\<rparr>"

theorem print_aligned_witness:
  "length (print_table ex_table ! 2) = column_start ex_table 3
   \<and> take (printed_width ex_table 1) (drop (column_start ex_table 1) (print_table ex_table ! 2)) = ''Latency ''"
proof -
  have "rows_ok ex_table" "2 < length (tb_rows ex_table)" "1 < width ex_table"
    by (simp_all add: ex_table_def rows_ok_def width_def)
  note aligned = print_aligned[OF this]
  have shown: "\<not> (\<forall>row\<in>set (tl (tb_rows ex_table)). row ! 1 = '''')" by (simp add: ex_table_def)
  have "left_setw (printed_width ex_table 1) (tb_rows ex_table ! 2 ! 1) = ''Latency ''" "width ex_table = 3" by code_simp+
  with conjunct1[OF aligned] conjunct2[OF aligned, unfolded if_not_P[OF shown]] show ?thesis by metis
qed

section \<open>The configuration\<close>

definition ex_client_env :: client_env where
  "ex_client_env = \<lparr>ce_unsigned = (\<lambda>_. Some 854), ce_bool = (\<lambda>s. Some (s = ''1'')),
     ce_address = (\<lambda>_. Some (V4 (AddressV4 [224, 0, 0, 117]))), ce_parse_file = (\<lambda>_. None), ce_list_string = (\<lambda>_. None),
     ce_install_config = ''/etc'', ce_address_text = (\<lambda>_. ''''), ce_subscript_first = True\<rparr>"

text \<open>The parameters are looked up in the list they come from.\<close>

lemmas parse_one_code [code] = parse_one_def[unfolded param_info_find]

definition ex_loaded :: DlepClientImpl where
  "ex_loaded = \<lparr>cl_config_map = [(''ack-probability'', CV_unsigned 854), (''ack-timeout'', CV_unsigned 854),
     (''destination-advert-enable'', CV_bool False), (''destination-advert-expire-count'', CV_unsigned 854),
     (''destination-advert-hold-interval'', CV_unsigned 854), (''destination-advert-iface'', CV_string ''emane0''),
     (''destination-advert-mcast-address'', CV_address (V4 (AddressV4 [224, 0, 0, 117]))),
     (''destination-advert-port'', CV_unsigned 854), (''destination-advert-send-interval'', CV_unsigned 854),
     (''discovery-enable'', CV_bool True), (''discovery-iface'', CV_string ''eth0''), (''discovery-interval'', CV_unsigned 854),
     (''discovery-mcast-address'', CV_address (V4 (AddressV4 [224, 0, 0, 117]))), (''discovery-port'', CV_unsigned 854),
     (''discovery-ttl'', CV_unsigned 854), (''heartbeat-interval'', CV_unsigned 854), (''heartbeat-threshold'', CV_unsigned 854),
     (''linkchar-autoreply'', CV_bool True), (''local-type'', CV_string ''modem''), (''log-file'', CV_string ''dlep.log''),
     (''log-level'', CV_unsigned 854), (''peer-flags'', CV_unsigned 854),
     (''protocol-config-file'', CV_string ''/etc/dlep-rfc-8175.xml''),
     (''protocol-config-schema'', CV_string ''/etc/protocol-config.xsd''), (''send-tries'', CV_unsigned 854),
     (''session-port'', CV_unsigned 854), (''session-ttl'', CV_unsigned 854)], cl_destination_responses = []\<rparr>"

lemma ex_defaults: "load_defaults ex_client_env 0 new_DlepClientImpl = (Inr True, ex_loaded)"
  by code_simp

lemma ex_no_args: "parse_args ex_client_env 0 [] new_DlepClientImpl = (Inr True, new_DlepClientImpl)"
  by (simp add: parse_args_def)

definition ex_client_start :: start_env where
  "ex_client_start = client_start ex_loaded ex_start"


theorem parse_parameter_returns_witness:
  "\<exists>ok. fst (parse_parameter ex_client_env 5 ''config-file'' ''missing.xml'' new_DlepClientImpl) = Inr ok"
proof -
  have no_reference: "\<not> included ex_client_env f f'" for f f'
    by (simp add: included_def file_param_def ex_client_env_def)
  show ?thesis
    by (rule conjunct1[OF parse_parameter_returns[where rank = "\<lambda>_. 0"]]) (use no_reference in simp_all)
qed

section \<open>The command line\<close>

definition ex_cli_env :: cli_env where
  "ex_cli_env = \<lparr>cv_client = ex_client_env, cv_session = ex_env 100, cv_ip_text = ex_ip, cv_ip_parse = ex_ip_parse, cv_depth = 0\<rparr>"

definition ex_cli :: DlepCli where
  "ex_cli = new_DlepCli ex_loaded ex_node"

lemma ex_cli_config: "cli_config_ok ex_cli_env"
proof -
  have "text_config_ok rfc8175_config" by code_simp
  moreover have "mac_configured rfc8175_config"
    unfolding mac_configured_def by (intro exI[of _ 7] exI[of _ "DlepMac []"]) code_simp
  ultimately show ?thesis
    by (simp add: cli_config_ok_def ex_cli_env_def ex_env_def rfc8175_ok rfc8175_subs_listed)
qed


theorem typed_response_witness:
  "\<exists>cli'. run_line ex_cli_env ''dest response 00:01:02:03:04:05 Request_Denied'' ex_cli = Inr ((), cli')
     \<and> client_destination_up (cli_client cli') ''p'' ex_mac [] = ''Request_Denied''"
proof -
  have "mac_configured (cv_cfg ex_cli_env)" using ex_cli_config by (simp add: cli_config_ok_def)
  moreover have "mac_addr ex_mac \<noteq> []" by (simp add: ex_mac_def)
  moreover have "tokenize ''dest response 00:01:02:03:04:05 Request_Denied'' = [''dest'', ''response'', mac_to_string ex_mac, ''Request_Denied'']"
    by code_simp
  moreover have "\<exists>code. get_status_code_id (cv_cfg ex_cli_env) ''Request_Denied'' = Inr code"
    by (intro exI[of _ 2]) code_simp
  ultimately show ?thesis using typed_response[of ex_cli_env ex_mac _ "''Request_Denied''" ex_cli "''p''" "[]"] by fastforce
qed

text \<open>The program started without arguments, where the user types two lines.\<close>

abbreviation ex_lines :: "cli_input list" where
  "ex_lines \<equiv> [Line ''show peer'', Line ''quit'']"

definition ex_session_end :: "(nat \<times> DlepCli option) res" where
  "ex_session_end =
     rbind (DlepInit (client_start ex_loaded ex_start)) (\<lambda>service.
     case service of
       None \<Rightarrow> Inr (4, None)
     | Some sd \<Rightarrow>
         let env = ex_cli_env\<lparr>cv_session := sd_env sd\<rparr>
         in rbind (next_do (run env (st_parse ex_start) ex_lines) (run_service env service_terminate)
                     (new_DlepCli ex_loaded (sd_node sd))) (\<lambda>(_, cli).
            Inr (0, Some cli)))"

lemma ex_main: "main ex_cli_env ex_start [] ex_lines = ex_session_end"
proof -
  have "cv_client ex_cli_env = ex_client_env" "cv_depth ex_cli_env = 0" by (simp_all add: ex_cli_env_def)
  then show ?thesis by (simp add: main_def ex_no_args ex_defaults ex_session_end_def)
qed

lemma ex_main_ends: "case ex_session_end of Inr (code, Some cli) \<Rightarrow> code = 0 \<and> length (cli_output cli) = 3 | _ \<Rightarrow> False"
  by code_simp


end
