(* ===== verification/Spec2Isabelle.thy ===== *)
theory Spec2Isabelle
  imports Witnesses ConfigLoaded DiscoveryWitnesses StartWitnesses ClientWitnesses
begin

text \<open>
  A verification development of LL-DLEP, a C++ library that implements the Dynamic Link
  Exchange Protocol (RFC 8175) between a radio (the modem) and the router attached to it.

  \<^bold>\<open>The program.\<close> A client calls \<open>DlepInit\<close>, which loads a protocol configuration from XML and
  starts a node (\<open>Dlep\<close>). A router finds modems by multicasting Peer Discovery signals; a modem
  answers with a Peer Offer, and the router connects. Each connection is a session (\<open>Peer\<close>), a
  state machine that exchanges messages: session initialization, heartbeats, destinations
  coming, changing and going, link characteristics, termination. Every request is answered,
  repeated when its answer is late, and given up after a number of tries. What a node knows
  about itself and its peers is kept in the information base; the service
  (\<open>DlepServiceImpl\<close>) lets the client change it, and changes are passed on to every session.
  Modems may advertise their destinations to each other over the radio (\<open>DestAdvert\<close>). Messages
  are lists of typed data items, and the configuration decides which ids, names, types and
  occurrences are allowed in which message. An example program is a client of the library: it
  reads its parameters, starts the library and runs the commands typed at it.

  \<^bold>\<open>How the code is modelled.\<close> A class is a record, an enumeration or a \<open>boost::variant\<close> a
  datatype, an integer a word of its width, \<open>std::map\<close> and \<open>std::set\<close> a list ordered by key
  (\<open>smap\<close>), a byte buffer a list of 8-bit words. A function that can throw returns the
  exception or its result (\<open>res\<close>, \<open>Dlep_Prelude\<close>); a method that changes its object is a
  computation on the record (\<open>comp\<close>, \<open>Session_Monad\<close>) with rules for invariants. A failed
  \<open>assert\<close>, undefined behaviour and a loop without progress are values of the type of
  exceptions that no handler catches. Effects outside the object (a message sent, a timer
  started, a callback of the client, a call on another session) are recorded in order.
  Definitions carry the names of the functions they translate; where one C++ name is
  overloaded or a long function is split, the manifest gives the lines.

  \<^bold>\<open>Theories and sources.\<close>
  \<^item> \<open>Dlep_Prelude\<close>: exceptions, ordered maps, decimal and hexadecimal text, shared lemmas and
    collections. \<open>Session_Monad\<close>: computations and their triples.
  \<^item> \<open>Serialize\<close> (\<open>Serialize.h\<close>), \<open>DlepMac\<close> (\<open>DlepMac.cpp\<close>).
  \<^item> \<open>ProtocolConfig\<close> (the tables and lookups of \<open>ProtocolConfigImpl.cpp\<close>), \<open>ConfigLoader\<close> and
    \<open>ConfigLoaded\<close> (its loader), \<open>Rfc8175\<close> (the shipped \<open>dlep-rfc-8175.xml\<close>).
  \<^item> \<open>DataItem\<close> (values and wire format of \<open>DataItem.cpp\<close>), \<open>DataItemText\<close> (\<open>to_string\<close>),
    \<open>IStream\<close> (the standard input stream), \<open>DataItemParse\<close> (\<open>from_string\<close>),
    \<open>DataItemRoundTrip\<close>, \<open>DataItemValidate\<close>.
  \<^item> \<open>ProtocolMessage\<close> (\<open>ProtocolMessage.cpp\<close>), \<open>InfoBase\<close> (\<open>InfoBaseMgr.cpp\<close>).
  \<^item> \<open>Peer\<close> (\<open>Peer.cpp\<close>), with \<open>PeerSteps\<close> (events and the locale of session invariants),
    \<open>PeerQueues\<close> (messages awaiting a response), \<open>PeerReports\<close> (what the client is told, the
    data kept), \<open>PeerStream\<close> (the receive buffer), \<open>PeerChecks\<close> (timers, addresses).
  \<^item> \<open>DestAdvert\<close> (\<open>DestAdvert.cpp\<close>), \<open>Dlep\<close> (\<open>Dlep.cpp\<close>, \<open>DlepServiceImpl.cpp\<close>), \<open>DlepSteps\<close>
    (events and the locale of node invariants), \<open>DlepNode\<close> (properties of nodes).
  \<^item> \<open>PeerDiscovery\<close> and \<open>DiscoveryOffer\<close> (\<open>PeerDiscovery.cpp\<close>), \<open>NetUtils\<close> (\<open>NetUtils.cpp\<close>),
    \<open>PeriodicMcastSendRcv\<close> (\<open>PeriodicMcastSendRcv.cpp\<close>), \<open>DlepStart\<close> (start-up: \<open>Dlep.cpp\<close>,
    \<open>DlepInit.cpp\<close>).
  \<^item> \<open>Table\<close> (\<open>Table.cpp\<close>), \<open>ExampleClient\<close> (\<open>ExampleDlepClientImpl.cpp\<close>: parameters,
    configuration files, callbacks), \<open>DlepCli\<close> (\<open>ExampleMain.cpp\<close>: tokens, commands, the loop over
    the lines, \<open>main\<close>), \<open>CliProperties\<close> (what holds of them).
  \<^item> \<open>Witnesses\<close>, \<open>PeerWitnesses\<close>, \<open>DlepWitnesses\<close>, \<open>DiscoveryWitnesses\<close>, \<open>StartWitnesses\<close>,
    \<open>ClientWitnesses\<close>: the properties at concrete inputs, most of them with the shipped
    configuration.

  \<^bold>\<open>What is shown.\<close>
  \<^item> Wire format: data items and messages that were built are read back unchanged, whatever
    bytes arrive parsing returns, what it accepts is well typed, a byte stream is cut at the
    message boundaries whatever pieces it arrives in, and validation accepts exactly what the
    configuration allows.
  \<^item> Text: reading a data item from text always returns, and reads back what was printed
    under the provisos stated there.
  \<^item> Configuration: what the loader accepts is well formed; the shipped configuration is.
  \<^item> Information base: updates are atomic, addresses behave as a set, destinations as a map,
    and the stored data stays consistent.
  \<^item> Sessions: at most one message per destination is in flight, a response is matched with it,
    no message is sent too often, an unanswered one ends the session, a silent peer does too, a
    session is taken down once and in order, and what the client is told of a session follows
    its state. These are proved in the locale \<open>session_invariant\<close> for every
    sequence of events.
  \<^item> Nodes: every session of a node is such a session, and our own data stays consistent,
    whatever the client and the other modems do (locale \<open>node_invariant\<close>); the owner of a
    destination is found; advertisements and purging have exactly their documented effect.
  \<^item> Discovery and start-up: at most one offer or connection per packet; the offer of a modem
    leads the router to where the modem accepts; a node that has started satisfies the
    assumptions of the properties above and listens or connects where the configuration says;
    periodic sending goes on (locales \<open>mcast_sender\<close> and \<open>mcast_client\<close>).
  \<^item> Example client: its parameters are complete and typed, reading them returns unless a file
    refers to itself; a line is split into its words, makes at most one request, reads back MAC
    addresses and data items as they are printed and skips nothing of them (locale
    \<open>stream_invariant\<close>); tables are aligned and never overrun; the whole program, with the events
    of the network between the lines, keeps every invariant of the node.

  \<^bold>\<open>Bounds and termination.\<close> All functions are total. The search of \<open>add_status\<close> takes at most
    four steps before it repeats itself, which is then a \<open>Hang\<close>; the loops over the receive
    buffer, the text and the data items of a message consume at least one byte each time or are
    shown to; the loader recurses on the document. Configuration files that refer to files are
    read with a depth as fuel, which changes nothing once it exceeds the nesting of the files.
    Arithmetic is that of the declared width: the
    heartbeat deadline and the age of advertisements wrap at 32 bits where the code's do.

  \<^bold>\<open>Parameters.\<close> libxml2 (parsing and schema validation of the configuration), protocol buffers
  (advertisements), Boost's text form and classification of IP addresses and its conversions of
  numbers, the order in which a compiler evaluates an assignment, the client of the library (its
  parameters and the answers of its callbacks; the example client is one), the clock, random numbers, the operating
  system's interfaces, and which socket operations succeed. What a property relies on of them
  is a named hypothesis.

  \<^bold>\<open>Not modelled.\<close> Locks and threads: the code serialises the events of a node with one mutex,
  and the model takes them one at a time. Logging, but for its effect on the reason text of
  \<open>terminate\<close>. The lifetime of buffers and sockets. The colours of what the example client
  prints, the wording of what it says about wrong parameters, and \<open>readline\<close>.
\<close>

end
